(* ===== verification/Prelude.thy ===== *)
theory Prelude
  imports Complex_Main "HOL-Library.Stream" "HOL-Library.Log_Nat"
begin

text \<open>
  Shared vocabulary of the LuckyNMiner development: the JavaScript idioms the source uses
  (\<open>Math.floor(Math.random() * k)\<close>, indexing that yields \<open>undefined\<close>, \<open>Array.map\<close>
  with an index, \<open>Set.add\<close> in insertion order), the generic lemmas about them, and the
  collections of facts the component theories declare into.

  Money values of the source are JavaScript numbers that only ever hold integers (every
  constant and every reward is an integer, and the only arithmetic on them is \<open>+\<close> and
  \<open>-\<close>, exact on integers below \<open>2 ^ 53\<close>), so they are modelled as \<open>int\<close>. Where the
  page divides (the footer's dollars), the quotient is a double, modelled by the rounding
  \<open>dbl\<close> of the last section. \<open>Math.random()\<close> is an oracle: the model threads an infinite stream of
  its results (\<open>real stream\<close>) through every function that calls it.
\<close>

named_theorems game_simps "unfolding rules of the game model, used by the component proofs"
named_theorems inv_rules "rules of the reachability invariants"

type_synonym coins = int
type_synonym draws = "real stream"

subsection \<open>\<open>Math.random\<close>\<close>

text \<open>A result of \<open>Math.random()\<close> lies in \<open>[0, 1)\<close>; a stream of such results is a valid oracle.\<close>

definition random_draw :: "real \<Rightarrow> bool" where
  "random_draw u \<longleftrightarrow> 0 \<le> u \<and> u < 1"

definition valid_draws :: "draws \<Rightarrow> bool" where
  "valid_draws s \<longleftrightarrow> stream_all random_draw s"

text \<open>\<open>Math.floor(Math.random() * k)\<close>: one draw consumed, an index in \<open>[0, k)\<close> produced.\<close>

definition floor_draw :: "nat \<Rightarrow> draws \<Rightarrow> nat \<times> draws" where
  "floor_draw k s = (nat \<lfloor>shd s * real k\<rfloor>, stl s)"

lemma valid_draws_stl [simp]: "valid_draws s \<Longrightarrow> valid_draws (stl s)"
  by (simp add: valid_draws_def stl_sset)

lemma valid_draws_shd: "valid_draws s \<Longrightarrow> random_draw (shd s)"
  by (simp add: valid_draws_def shd_sset)

lemma valid_draws_shift [simp]:
  "valid_draws (xs @- s) \<longleftrightarrow> list_all random_draw xs \<and> valid_draws s"
  by (auto simp: valid_draws_def list_all_iff)

lemma valid_draws_SCons [simp]: "valid_draws (u ## s) \<longleftrightarrow> random_draw u \<and> valid_draws s"
  by (simp add: valid_draws_def)

lemma valid_draws_sconst [simp]: "valid_draws (sconst u) \<longleftrightarrow> random_draw u"
  by (simp add: valid_draws_def)

lemma floor_mult_below:
  assumes "random_draw u" and "0 < k"
  shows "nat \<lfloor>u * real k\<rfloor> < k"
proof -
  from assms have "u * real k < real k" by (simp add: random_draw_def)
  then have "\<lfloor>u * real k\<rfloor> < int k" by (simp add: floor_less_iff)
  with assms(2) show ?thesis by arith
qed

lemma floor_draw_bound:
  "valid_draws s \<Longrightarrow> 0 < k \<Longrightarrow> fst (floor_draw k s) < k"
  by (simp add: floor_draw_def floor_mult_below valid_draws_shd)

lemma floor_draw_snd [simp]: "snd (floor_draw k s) = stl s"
  by (simp add: floor_draw_def)

lemma valid_draws_floor_draw [simp]:
  "valid_draws s \<Longrightarrow> valid_draws (snd (floor_draw k s))"
  by simp

subsection \<open>Indexing that may be \<open>undefined\<close>\<close>

text \<open>\<open>xs[i]\<close> in JavaScript: the element when \<open>i\<close> is an index of the array, \<open>undefined\<close> otherwise.\<close>

definition js_index :: "'a list \<Rightarrow> int \<Rightarrow> 'a option" where
  "js_index xs i = (if 0 \<le> i \<and> i < int (length xs) then Some (xs ! nat i) else None)"

lemma js_index_Some:
  "js_index xs i = Some x \<longleftrightarrow> 0 \<le> i \<and> nat i < length xs \<and> xs ! nat i = x"
  by (auto simp: js_index_def)

lemma js_index_None:
  "js_index xs i = None \<longleftrightarrow> i < 0 \<or> length xs \<le> nat i"
  by (auto simp: js_index_def)

lemma js_index_nat [simp]: "js_index xs (int i) = (if i < length xs then Some (xs ! i) else None)"
  by (simp add: js_index_def)

subsection \<open>\<open>Array.prototype.map\<close> with the index argument\<close>

definition mapi :: "(nat \<Rightarrow> 'a \<Rightarrow> 'b) \<Rightarrow> 'a list \<Rightarrow> 'b list" where
  "mapi f xs = map (\<lambda>(i, x). f i x) (enumerate 0 xs)"

lemma length_mapi [simp]: "length (mapi f xs) = length xs"
  by (simp add: mapi_def)

lemma nth_mapi [simp]: "i < length xs \<Longrightarrow> mapi f xs ! i = f i (xs ! i)"
  by (simp add: mapi_def nth_enumerate_eq)

lemma mapi_Nil [simp]: "mapi f [] = []"
  by (simp add: mapi_def)

lemma mapi_Cons: "mapi f (x # xs) = f 0 x # mapi (\<lambda>i. f (Suc i)) xs"
  by (rule nth_equalityI) (auto simp: nth_Cons split: nat.splits)

lemma mapi_eq_map [simp]: "mapi (\<lambda>_. f) xs = map f xs"
  by (rule nth_equalityI) simp_all

subsection \<open>\<open>Set\<close> with insertion order\<close>

text \<open>A JavaScript \<open>Set\<close> of numbers iterates in insertion order: a list without duplicates
  whose \<open>add\<close> appends a new element and ignores a present one.\<close>

definition set_add :: "'a list \<Rightarrow> 'a \<Rightarrow> 'a list" where
  "set_add xs x = (if x \<in> set xs then xs else xs @ [x])"

lemma distinct_set_add [simp]: "distinct (set_add xs x) \<longleftrightarrow> distinct xs"
  by (simp add: set_add_def)

lemma set_set_add [simp]: "set (set_add xs x) = insert x (set xs)"
  by (auto simp: set_add_def)

lemma length_set_add: "length xs \<le> length (set_add xs x)"
  by (simp add: set_add_def)

lemma distinct_length_set_add:
  "distinct xs \<Longrightarrow> length (set_add xs x) = card (insert x (set xs))"
  by (simp add: set_add_def distinct_card [symmetric] card_insert_if)

subsection \<open>Counting over a grid\<close>

definition count_cells :: "('a \<Rightarrow> bool) \<Rightarrow> 'a list list \<Rightarrow> nat" where
  "count_cells P g = length (filter P (concat g))"

definition is_grid :: "nat \<Rightarrow> 'a list list \<Rightarrow> bool" where
  "is_grid n g \<longleftrightarrow> length g = n \<and> (\<forall>r \<in> set g. length r = n)"

lemma is_grid_replicate [simp]: "is_grid n (replicate n (replicate n x))"
  by (simp add: is_grid_def)

lemma length_concat_rows: "\<forall>r \<in> set g. length r = n \<Longrightarrow> length (concat g) = length g * n"
  by (induction g) auto

lemma length_concat_grid: "is_grid n g \<Longrightarrow> length (concat g) = n * n"
  unfolding is_grid_def by (metis length_concat_rows)

text \<open>A nested update \<open>g[r][c] = x\<close> of a rectangular grid is the update of its row-major
  flattening at \<open>r * n + c\<close>.\<close>

lemma concat_nested_update:
  assumes "\<forall>row \<in> set g. length row = n" and "r < length g" and "c < n"
  shows "concat (g[r := (g ! r)[c := x]]) = (concat g)[r * n + c := x]"
  using assms
proof (induction g arbitrary: r)
  case Nil
  then show ?case by simp
next
  case (Cons row g)
  show ?case
  proof (cases r)
    case 0
    with Cons.prems show ?thesis by (simp add: list_update_append1)
  next
    case (Suc r')
    with Cons.prems have "concat (g[r' := (g ! r')[c := x]]) = (concat g)[r' * n + c := x]"
      by (intro Cons.IH) auto
    with Suc Cons.prems show ?thesis
      by (simp add: list_update_append add.assoc)
  qed
qed

lemma is_grid_nested_update [simp]:
  "is_grid n g \<Longrightarrow> is_grid n (g[r := (g ! r)[c := x]])"
proof (cases "r < length g")
  case True
  assume "is_grid n g"
  with True show ?thesis
    by (auto simp: is_grid_def dest!: set_update_subset_insert [THEN subsetD])
next
  case False
  assume "is_grid n g"
  with False show ?thesis by (simp add: list_update_beyond)
qed

lemma length_filter_update:
  "i < length xs \<Longrightarrow>
     length (filter P (xs[i := x])) + (if P (xs ! i) then 1 else 0) =
     length (filter P xs) + (if P x then 1 else 0)"
proof (induction xs arbitrary: i)
  case Nil
  then show ?case by simp
next
  case (Cons a xs)
  show ?case
  proof (cases i)
    case 0
    then show ?thesis by simp
  next
    case (Suc j)
    with Cons.prems Cons.IH [of j] show ?thesis by (cases "P a") simp_all
  qed
qed

lemma count_cells_Cons: "count_cells P (r # g) = length (filter P r) + count_cells P g"
  by (simp add: count_cells_def)

text \<open>Changing one cell of a grid changes a count by what the old and the new cell contribute.\<close>

lemma count_cells_update:
  assumes "r < length g" and "c < length (g ! r)"
  shows "count_cells P (g[r := (g ! r)[c := x]]) + (if P (g ! r ! c) then 1 else 0) =
         count_cells P g + (if P x then 1 else 0)"
  using assms
proof (induction g arbitrary: r)
  case Nil
  then show ?case by simp
next
  case (Cons row g)
  show ?case
  proof (cases r)
    case 0
    with Cons.prems length_filter_update [of c row P x] show ?thesis
      by (simp add: count_cells_Cons)
  next
    case (Suc r')
    with Cons.prems Cons.IH [of r'] show ?thesis
      by (simp add: count_cells_Cons)
  qed
qed

lemma count_cells_map_map:
  "count_cells P (map (map f) g) = count_cells (P \<circ> f) g"
  by (simp add: count_cells_def filter_map map_concat [symmetric])


subsection \<open>Numbers as JavaScript prints them\<close>

text \<open>\<open>String(n)\<close> and a template literal print a whole number in decimal, without leading
  zeros and with a minus sign when negative; \<open>Math.round\<close> rounds half up;
  \<open>x.toFixed(f)\<close> takes the integer \<open>n\<close> nearest to \<open>|x| * 10^f\<close> (the larger of two),
  pads its digits with zeros to at least \<open>f + 1\<close> of them, puts a point before the last
  \<open>f\<close>, and prefixes a minus sign when \<open>x < 0\<close> (numbers below \<open>10^21\<close>, the only ones the
  page prints).\<close>

definition digit_char :: "nat \<Rightarrow> char" where
  "digit_char d = char_of (48 + d)"

fun nat_str :: "nat \<Rightarrow> string" where
  "nat_str n = (if n < 10 then [digit_char n] else nat_str (n div 10) @ [digit_char (n mod 10)])"

declare nat_str.simps [simp del]

definition int_str :: "int \<Rightarrow> string" where
  "int_str i = (if i < 0 then ''-'' @ nat_str (nat (- i)) else nat_str (nat i))"

definition js_round :: "real \<Rightarrow> int" where
  "js_round x = \<lfloor>x + 1 / 2\<rfloor>"

definition toFixed :: "real \<Rightarrow> nat \<Rightarrow> string" where
  "toFixed x f =
     (let n = nat \<lfloor>\<bar>x\<bar> * 10 ^ f + 1 / 2\<rfloor>;
          m = nat_str n;
          z = (if length m \<le> f then replicate (f + 1 - length m) (CHR ''0'') @ m else m);
          digits = (if f = 0 then z else take (length z - f) z @ ''.'' @ drop (length z - f) z)
      in if x < 0 then ''-'' @ digits else digits)"

lemma nat_str_less10: "n < 10 \<Longrightarrow> nat_str n = [digit_char n]"
  by (simp add: nat_str.simps [of n])

lemma nat_str_ge10: "10 \<le> n \<Longrightarrow> nat_str n = nat_str (n div 10) @ [digit_char (n mod 10)]"
  by (simp add: nat_str.simps [of n])

lemma nat_str_not_Nil [simp]: "nat_str n \<noteq> []"
  by (simp add: nat_str.simps [of n])

lemma digit_char_0: "digit_char 0 = CHR ''0''"
proof -
  have "char_of (of_char (CHR ''0'') :: nat) = CHR ''0''" by (rule char_of_char)
  then show ?thesis by (simp add: digit_char_def)
qed

lemma toFixed_2:
  assumes "0 \<le> x" and "nat \<lfloor>x * 100 + 1 / 2\<rfloor> = n"
  shows "toFixed x 2 =
    (let z = (if length (nat_str n) \<le> 2 then replicate (3 - length (nat_str n)) (CHR ''0'') @ nat_str n
              else nat_str n)
     in take (length z - 2) z @ ''.'' @ drop (length z - 2) z)"
  using assms by (simp add: toFixed_def Let_def)

lemma toFixed_cents:
  assumes "0 \<le> c"
  shows "toFixed (real_of_int c / 100) 2 =
           nat_str (nat c div 100) @ ''.'' @ [digit_char (nat c div 10 mod 10), digit_char (nat c mod 10)]"
proof -
  have t: "toFixed (real_of_int c / 100) 2 =
    (let z = (if length (nat_str (nat c)) \<le> 2 then replicate (3 - length (nat_str (nat c))) (CHR ''0'') @ nat_str (nat c)
              else nat_str (nat c))
     in take (length z - 2) z @ ''.'' @ drop (length z - 2) z)"
    using assms by (intro toFixed_2) simp_all
  consider "nat c < 10" | "10 \<le> nat c" "nat c < 100" | "100 \<le> nat c" by linarith
  then show ?thesis
  proof cases
    case 1
    then have "nat_str (nat c) = [digit_char (nat c)]" "nat c div 100 = 0" "nat c div 10 = 0"
      by (simp_all add: nat_str_less10)
    then show ?thesis using 1 by (simp add: t nat_str_less10 digit_char_0 numeral_3_eq_3)
  next
    case 2
    then have "nat_str (nat c) = [digit_char (nat c div 10), digit_char (nat c mod 10)]"
        "nat c div 100 = 0" "nat c div 10 mod 10 = nat c div 10"
      by (simp_all add: nat_str_ge10 [of "nat c"] nat_str_less10)
    then show ?thesis by (simp add: t nat_str_less10 digit_char_0 numeral_3_eq_3)
  next
    case 3
    have "nat c div 10 div 10 = nat c div 100" by (simp add: div_mult2_eq [symmetric])
    with 3 have "nat_str (nat c) =
        nat_str (nat c div 100) @ [digit_char (nat c div 10 mod 10), digit_char (nat c mod 10)]"
      by (simp add: nat_str_ge10 [of "nat c"] nat_str_ge10 [of "nat c div 10"])
    then show ?thesis using 3 by (simp add: t)
  qed
qed

subsection \<open>Numbers as JavaScript computes them\<close>

text \<open>A JavaScript number is an IEEE 754 binary64 double, and each arithmetic operation
  rounds its exact result to the nearest double, a tie going to the one with an even
  significand. \<open>dbl\<close> is that rounding on the reals: \<open>ilog2 x\<close> is \<open>\<lfloor>log\<^sub>2 x\<rfloor>\<close>
  computed with \<open>bitlen\<close>, \<open>fexp x\<close> the exponent of the last of the 53 significant bits
  (never below \<open>-1074\<close>, where subnormal numbers end), and the quotient by \<open>2 powi fexp x\<close>
  is rounded to an integer by \<open>round_even\<close>. Overflow to \<open>Infinity\<close> (results beyond
  \<open>2 ^ 1024\<close>) is not modelled: the page divides numbers below \<open>10 ^ 6\<close>. A JavaScript
  \<open>a / b\<close> on integers is \<open>dbl (a / b)\<close>, \<open>a - b\<close> on doubles \<open>dbl (a - b)\<close>.\<close>

definition round_even :: "real \<Rightarrow> int" where
  "round_even m = (let f = \<lfloor>m\<rfloor>; d = m - of_int f in
     if d < 1/2 then f else if 1/2 < d then f + 1 else if even f then f else f + 1)"

definition ilog2 :: "real \<Rightarrow> int" where
  "ilog2 x = (if 1 \<le> x then bitlen \<lfloor>x\<rfloor> - 1 else - bitlen (\<lceil>inverse x\<rceil> - 1))"

definition fexp :: "real \<Rightarrow> int" where
  "fexp x = max (ilog2 x - 52) (-1074)"

definition dbl_pos :: "real \<Rightarrow> real" where
  "dbl_pos x = of_int (round_even (x / 2 powi fexp x)) * 2 powi fexp x"

definition dbl :: "real \<Rightarrow> real" where
  "dbl x = (if 0 < x then dbl_pos x else if x < 0 then - dbl_pos (- x) else 0)"

text \<open>Rounding is monotone and leaves a double unchanged; so a bound that is itself a double
  carries over from an exact result to its rounding.\<close>

lemma round_even_bounds: "\<lfloor>m\<rfloor> \<le> round_even m \<and> round_even m \<le> \<lfloor>m\<rfloor> + 1"
  by (simp add: round_even_def Let_def)

lemma round_even_int [simp]: "round_even (of_int n) = n"
  by (simp add: round_even_def)

lemma round_even_mono:
  assumes "m \<le> m'"
  shows "round_even m \<le> round_even m'"
proof (cases "\<lfloor>m\<rfloor> = \<lfloor>m'\<rfloor>")
  case True
  then show ?thesis using assms by (simp add: round_even_def Let_def)
next
  case False
  then have "\<lfloor>m\<rfloor> + 1 \<le> \<lfloor>m'\<rfloor>" using floor_mono [OF assms] by simp
  then show ?thesis using round_even_bounds [of m] round_even_bounds [of m'] by simp
qed

lemma round_even_le: "m \<le> of_int n \<Longrightarrow> round_even m \<le> n"
  using round_even_mono [of m "of_int n"] by simp

lemma round_even_ge: "of_int n \<le> m \<Longrightarrow> n \<le> round_even m"
  using round_even_mono [of "of_int n" m] by simp

lemma two_powi_pos [simp]: "0 < (2::real) powi k"
  by simp

lemma two_powi_nat: "0 \<le> k \<Longrightarrow> (2::real) powi k = of_int (2 ^ nat k)"
  by (simp add: power_int_def)


lemma ilog2_bounds:
  assumes "0 < x"
  shows "2 powi ilog2 x \<le> x \<and> x < 2 powi (ilog2 x + 1)"
proof (cases "1 \<le> x")
  case True
  let ?n = "\<lfloor>x\<rfloor>"
  have n: "0 < ?n" using True by simp
  have b: "1 \<le> bitlen ?n" using n by (simp add: bitlen_alt_def)
  have lo: "2 ^ nat (bitlen ?n - 1) \<le> ?n" and hi: "?n < 2 ^ nat (bitlen ?n)"
    using bitlen_bounds [OF n] by simp_all
  have "(2::real) powi (bitlen ?n - 1) = of_int (2 ^ nat (bitlen ?n - 1))"
    using b by (simp add: two_powi_nat)
  also have "\<dots> \<le> x" using lo by (meson floor_le_iff le_floor_iff)
  finally have 1: "(2::real) powi (bitlen ?n - 1) \<le> x" .
  have "?n + 1 \<le> 2 ^ nat (bitlen ?n)" using hi by simp
  then have "x < of_int (2 ^ nat (bitlen ?n))" by linarith
  also have "\<dots> = (2::real) powi bitlen ?n" using b by (simp add: two_powi_nat)
  finally show ?thesis using 1 True by (simp add: ilog2_def)
next
  case False
  let ?m = "\<lceil>inverse x\<rceil> - 1"
  have y: "1 < inverse x" using False assms by (simp add: one_less_inverse)
  then have m: "0 < ?m" by linarith
  have b: "1 \<le> bitlen ?m" using m by (simp add: bitlen_alt_def)
  have lo: "2 ^ nat (bitlen ?m - 1) \<le> ?m" and hi: "?m < 2 ^ nat (bitlen ?m)"
    using bitlen_bounds [OF m] by simp_all
  have p: "0 < inverse x" using assms by simp
  have "inverse x \<le> of_int (2 ^ nat (bitlen ?m))" using hi by linarith
  then have "inverse (of_int (2 ^ nat (bitlen ?m))) \<le> inverse (inverse x)"
    using p by (rule le_imp_inverse_le)
  moreover have "(2::real) powi (- bitlen ?m) = inverse (of_int (2 ^ nat (bitlen ?m)))"
    using b by (simp only: power_int_minus two_powi_nat)
  ultimately have 1: "(2::real) powi (- bitlen ?m) \<le> x" by simp
  have "of_int (2 ^ nat (bitlen ?m - 1)) < inverse x" using lo by linarith
  then have "inverse (inverse x) < inverse (of_int (2 ^ nat (bitlen ?m - 1)) :: real)"
    by (rule less_imp_inverse_less) simp
  moreover have "(2::real) powi (- bitlen ?m + 1) = inverse (of_int (2 ^ nat (bitlen ?m - 1)))"
  proof -
    have "- bitlen ?m + 1 = - (bitlen ?m - 1)" by simp
    then show ?thesis using b by (simp only: power_int_minus two_powi_nat)
  qed
  ultimately have 2: "x < (2::real) powi (- bitlen ?m + 1)" by simp
  show ?thesis using 1 2 False by (simp add: ilog2_def)
qed

lemma two_powi_le_iff [simp]: "(2::real) powi m \<le> 2 powi n \<longleftrightarrow> m \<le> n"
proof
  assume a: "(2::real) powi m \<le> 2 powi n"
  show "m \<le> n"
  proof (rule ccontr)
    assume "\<not> m \<le> n"
    then have "(2::real) powi n < 2 powi m" by (intro power_int_strict_increasing) simp_all
    with a show False by simp
  qed
next
  assume "m \<le> n"
  then show "(2::real) powi m \<le> 2 powi n" by (rule power_int_increasing) simp
qed

lemma two_powi_less_iff [simp]: "(2::real) powi m < 2 powi n \<longleftrightarrow> m < n"
  by (meson not_le two_powi_le_iff)

lemma two_powi_add: "(2::real) powi (m + n) = 2 powi m * 2 powi n"
  by (simp add: power_int_add)

lemma ilog2_unique:
  assumes lo: "2 powi k \<le> x" and hi: "x < 2 powi (k + 1)"
  shows "ilog2 x = k"
proof -
  have "0 < x" using lo two_powi_pos [of k] by linarith
  note b = ilog2_bounds [OF this]
  have "(2::real) powi k < 2 powi (ilog2 x + 1)" using lo b by linarith
  moreover have "(2::real) powi ilog2 x < 2 powi (k + 1)" using hi b by linarith
  ultimately show ?thesis by simp
qed

lemma ilog2_mono:
  assumes "0 < x" and "x \<le> y"
  shows "ilog2 x \<le> ilog2 y"
proof -
  have y: "0 < y" using assms by linarith
  have "(2::real) powi ilog2 x < 2 powi (ilog2 y + 1)"
    using ilog2_bounds [OF assms(1)] ilog2_bounds [OF y] assms(2) by linarith
  then show ?thesis by simp
qed

lemma fexp_mono: "0 < x \<Longrightarrow> x \<le> y \<Longrightarrow> fexp x \<le> fexp y"
  using ilog2_mono [of x y] by (simp add: fexp_def)

lemma scaled_below:
  assumes "0 < x"
  shows "x / 2 powi fexp x < 2 powi 53"
proof -
  have "x < 2 powi (ilog2 x + 1)" using ilog2_bounds [OF assms] by simp
  also have "\<dots> \<le> 2 powi (53 + fexp x)" by (simp add: fexp_def)
  finally show ?thesis by (simp add: two_powi_add divide_less_eq)
qed

lemma scaled_above:
  assumes "0 < x" and "fexp x = ilog2 x - 52"
  shows "2 powi 52 \<le> x / 2 powi fexp x"
proof -
  have "2 powi (52 + fexp x) \<le> x" using ilog2_bounds [OF assms(1)] assms(2) by simp
  then show ?thesis by (simp add: two_powi_add le_divide_eq)
qed

lemma dbl_pos_le:
  assumes "0 < x"
  shows "dbl_pos x \<le> 2 powi (fexp x + 53)"
proof -
  have "round_even (x / 2 powi fexp x) \<le> 2 ^ 53"
    using scaled_below [OF assms] by (intro round_even_le) (simp add: two_powi_nat)
  then have "of_int (round_even (x / 2 powi fexp x)) \<le> (2::real) powi 53"
    by (simp add: two_powi_nat)
  then show ?thesis by (simp add: dbl_pos_def two_powi_add mult.commute)
qed

lemma dbl_pos_ge:
  assumes "0 < x" and "fexp x = ilog2 x - 52"
  shows "2 powi ilog2 x \<le> dbl_pos x"
proof -
  have "2 ^ 52 \<le> round_even (x / 2 powi fexp x)"
    using scaled_above [OF assms] by (intro round_even_ge) (simp add: two_powi_nat)
  then have "(2::real) powi 52 \<le> of_int (round_even (x / 2 powi fexp x))"
    by (simp add: two_powi_nat)
  then have "2 powi 52 * 2 powi fexp x \<le> dbl_pos x"
    by (simp add: dbl_pos_def)
  moreover have "ilog2 x = 52 + fexp x" using assms(2) by simp
  ultimately show ?thesis by (simp only: two_powi_add)
qed

lemma dbl_pos_mono:
  assumes x: "0 < x" and xy: "x \<le> y"
  shows "dbl_pos x \<le> dbl_pos y"
proof (cases "fexp x = fexp y")
  case True
  have "x / 2 powi fexp x \<le> y / 2 powi fexp x" using xy by (simp add: divide_right_mono)
  then have "round_even (x / 2 powi fexp x) \<le> round_even (y / 2 powi fexp y)"
    using True by (simp add: round_even_mono)
  then show ?thesis using True by (simp add: dbl_pos_def)
next
  case False
  have y: "0 < y" using x xy by linarith
  have lt: "fexp x < fexp y" using False fexp_mono [OF x xy] by simp
  then have n: "fexp y = ilog2 y - 52" by (auto simp: fexp_def max_def split: if_splits)
  have "dbl_pos x \<le> 2 powi (fexp x + 53)" by (rule dbl_pos_le [OF x])
  also have "\<dots> \<le> 2 powi ilog2 y" using lt n by simp
  also have "\<dots> \<le> dbl_pos y" by (rule dbl_pos_ge [OF y n])
  finally show ?thesis .
qed

lemma dbl_pos_nonneg: "0 < x \<Longrightarrow> 0 \<le> dbl_pos x"
  using round_even_ge [of 0 "x / 2 powi fexp x"] by (simp add: dbl_pos_def)

lemma dbl_mono:
  assumes "x \<le> y"
  shows "dbl x \<le> dbl y"
proof -
  consider "0 < x" | "x \<le> 0" "0 < y" | "x \<le> 0" "y \<le> 0" by linarith
  then show ?thesis
  proof cases
    case 1
    then show ?thesis using assms dbl_pos_mono [OF 1 assms] by (simp add: dbl_def)
  next
    case 2
    then show ?thesis using dbl_pos_nonneg [of "- x"] dbl_pos_nonneg [of y] by (auto simp: dbl_def)
  next
    case 3
    then show ?thesis using assms dbl_pos_mono [of "- y" "- x"] dbl_pos_nonneg [of "- x"]
      by (auto simp: dbl_def)
  qed
qed

text \<open>A value with at most 53 significant bits and an exponent in range is a double.\<close>

lemma dbl_exact:
  assumes n: "0 < n" "n < 2 ^ 53" and e: "-1074 \<le> e"
  shows "dbl (of_int n * 2 powi e) = of_int n * 2 powi e"
proof -
  define x where "x = of_int n * (2::real) powi e"
  have x: "0 < x" using n by (simp add: x_def)
  have "x < 2 powi 53 * 2 powi e"
    using n by (simp add: x_def two_powi_nat del: of_int_power)
  moreover have "(2::real) powi (e + 53) = 2 powi 53 * 2 powi e" by (simp only: two_powi_add mult.commute)
  ultimately have "(2::real) powi ilog2 x < 2 powi (e + 53)"
    using ilog2_bounds [OF x] by linarith
  then have le: "fexp x \<le> e" using e by (simp add: fexp_def)
  define f where "f = fexp x"
  define d where "d = e - f"
  have d: "0 \<le> d" using le by (simp add: d_def f_def)
  have "x = of_int n * 2 powi (d + f)" by (simp add: x_def d_def)
  then have xe: "x = of_int n * 2 powi d * 2 powi f" by (simp add: two_powi_add)
  have q: "x / 2 powi f = of_int (n * 2 ^ nat d)" using d by (simp add: xe two_powi_nat)
  have "dbl_pos x = of_int (round_even (x / 2 powi f)) * 2 powi f" by (simp add: dbl_pos_def f_def)
  also have "\<dots> = of_int (n * 2 ^ nat d) * 2 powi f" by (simp only: q round_even_int)
  also have "\<dots> = x" using d by (simp add: xe two_powi_nat)
  finally have "dbl_pos x = x" .
  then show ?thesis using x by (simp add: dbl_def x_def)
qed

lemma dbl_int: "0 < n \<Longrightarrow> n < 2 ^ 53 \<Longrightarrow> dbl (of_int n) = of_int n"
  using dbl_exact [of n 0] by simp

lemma dbl_below: "x \<le> r \<Longrightarrow> dbl r = r \<Longrightarrow> dbl x \<le> r"
  using dbl_mono [of x r] by simp

lemma dbl_above: "r \<le> x \<Longrightarrow> dbl r = r \<Longrightarrow> r \<le> dbl x"
  using dbl_mono [of r x] by simp

text \<open>The rounding error: for a normal double (at least \<open>2 powi -1022\<close>) rounding moves a
  value by at most half a unit in its last place, a relative error of \<open>2 powi -53\<close>.\<close>

lemma round_even_near: "\<bar>of_int (round_even m) - m\<bar> \<le> 1/2"
proof -
  have "of_int \<lfloor>m\<rfloor> \<le> m" "m < of_int \<lfloor>m\<rfloor> + 1" by linarith+
  then show ?thesis by (auto simp: round_even_def Let_def)
qed

lemma dbl_rel:
  assumes x: "2 powi (-1022) \<le> x"
  shows "\<bar>dbl x - x\<bar> \<le> x * 2 powi (-53)"
proof -
  have x0: "0 < x" using x two_powi_pos [of "-1022"] by linarith
  note b = ilog2_bounds [OF x0]
  have "(2::real) powi (-1022) < 2 powi (ilog2 x + 1)" using x b by linarith
  then have "-1022 < ilog2 x + 1" by (simp only: two_powi_less_iff)
  then have f: "fexp x = ilog2 x - 52" by (simp add: fexp_def)
  define f' where "f' = fexp x"
  have "dbl x - x = (of_int (round_even (x / 2 powi f')) - x / 2 powi f') * 2 powi f'"
    using x0 by (simp add: dbl_def dbl_pos_def f'_def left_diff_distrib)
  then have "\<bar>dbl x - x\<bar> = \<bar>of_int (round_even (x / 2 powi f')) - x / 2 powi f'\<bar> * 2 powi f'"
    by (simp add: abs_mult)
  also have "\<dots> \<le> 1/2 * 2 powi f'" using round_even_near by (intro mult_right_mono) simp_all
  also have "1/2 * 2 powi f' = (2::real) powi (f' + 52) * 2 powi (-53)"
    by (simp add: two_powi_add [symmetric] power_int_minus field_simps power_int_add)
  also have "\<dots> \<le> x * 2 powi (-53)" using b f by (simp add: f'_def)
  finally show ?thesis .
qed

lemma abs_le_rel:
  fixes d x u :: real
  assumes "\<bar>d - x\<bar> \<le> x * u"
  shows "x * (1 - u) \<le> d \<and> d \<le> x * (1 + u)"
proof -
  have "d - x \<le> x * u \<and> - (d - x) \<le> x * u" using assms by (simp only: abs_le_iff)
  then show ?thesis by (simp add: algebra_simps)
qed

lemma dbl_bounds:
  assumes "2 powi (-30) \<le> x"
  shows "x * (1 - 2 powi (-53)) \<le> dbl x \<and> dbl x \<le> x * (1 + 2 powi (-53))"
proof -
  define u where "u = (2::real) powi (-53)"
  have "(2::real) powi (-1022) \<le> 2 powi (-30)" by (simp only: two_powi_le_iff)
  then have "\<bar>dbl x - x\<bar> \<le> x * u" unfolding u_def using assms by (intro dbl_rel) linarith
  then show ?thesis unfolding u_def [symmetric] by (rule abs_le_rel)
qed

end
