(* ===== verification/Game_Types.thy ===== *)
theory Game_Types
  imports Prelude
begin

text \<open>
  The game's configuration (\<open>src/src/utils/constants.ts\<close>, \<open>GAME_CONFIG\<close>) and its data
  types (\<open>src/src/types/game.ts\<close>): a cell, the board a provider returns, the hook's
  \<open>GameState\<close>, the \<open>GameStatus\<close> enumeration, a cell position and the \<open>SessionStats\<close>.
  \<open>API_DELAY_MS\<close>, \<open>CELL_STATES\<close> and \<open>ANIMATION_DURATION\<close> are stated as the code gives
  them; no code reads the last two, and the models are not timed, so none of the three occurs in
  a lemma.
\<close>

subsection \<open>\<open>GAME_CONFIG\<close>\<close>

definition BOARD_SIZE :: nat where "BOARD_SIZE = 3"
definition MIN_MINES :: nat where "MIN_MINES = 1"
definition MAX_MINES :: nat where "MAX_MINES = 4"
definition BASE_AMOUNT_PER_WIN :: coins where "BASE_AMOUNT_PER_WIN = 10"
definition MIN_BET :: coins where "MIN_BET = 10"
definition MAX_BET :: coins where "MAX_BET = 1000"
definition STARTING_BALANCE :: coins where "STARTING_BALANCE = 100"
definition DEFAULT_BET :: coins where "DEFAULT_BET = 25"

definition API_DELAY_MS :: nat where "API_DELAY_MS = 800"

datatype cellState = HIDDEN | REVEALED_WIN | REVEALED_MINE

definition CELL_STATES :: "cellState \<Rightarrow> string" where
  "CELL_STATES st = (case st of HIDDEN \<Rightarrow> ''hidden'' | REVEALED_WIN \<Rightarrow> ''revealed_win''
                                | REVEALED_MINE \<Rightarrow> ''revealed_mine'')"

record animationDuration =
  CARD_FLIP :: nat
  CELL_ENTRANCE :: nat
  CELEBRATION :: nat

definition ANIMATION_DURATION :: animationDuration where
  "ANIMATION_DURATION = \<lparr>CARD_FLIP = 400, CELL_ENTRANCE = 100, CELEBRATION = 1500\<rparr>"

lemmas game_config [game_simps] =
  BOARD_SIZE_def MIN_MINES_def MAX_MINES_def BASE_AMOUNT_PER_WIN_def
  MIN_BET_def MAX_BET_def STARTING_BALANCE_def DEFAULT_BET_def

subsection \<open>Types\<close>

text \<open>
  A cell's \<open>id\<close> is the string \<open>cell-${rowIndex}-${colIndex}\<close>; the string is an injective
  encoding of the two indices, so the model keeps the indices.
\<close>

datatype cell_id = CellId nat nat

record cell =
  isWinning :: bool
  isRevealed :: bool
  cellId :: cell_id

text \<open>The provider's answer, \<open>Game\<close>: a grid of \<open>{isWinning}\<close> objects and the reward.\<close>

record game =
  game_board :: "bool list list"
  game_amountPerWin :: coins

datatype gameStatus = IDLE | PLAYING | WON | LOST | CASHED_OUT

record gameState =
  board :: "cell list list"
  currentCoins :: coins
  gameStatus :: gameStatus
  amountPerWin :: coins
  isLoading :: bool
  sessionBalance :: coins
  currentBet :: coins
  roundWinnings :: coins

text \<open>A \<open>CellPosition\<close> holds two JavaScript numbers; integers cover every index and every
  out-of-range index the hook can be handed.\<close>

record cellPosition =
  row :: int
  col :: int

record sessionStats =
  totalCashedOut :: coins
  gamesPlayed :: nat
  totalWins :: nat
  biggestWin :: coins
  currentStreak :: nat

text \<open>The exception the hook can raise: reading \<open>isRevealed\<close> of \<open>undefined\<close>.\<close>

datatype js_error = TypeError

end
