(* ===== verification/Game_Api.thy ===== *)
theory Game_Api
  imports Game_Types
begin

text \<open>
  The board provider, \<open>src/src/api/gameApi.ts\<close>. Every call of \<open>Math.random()\<close> consumes
  one element of the draw stream, in the order the source makes the calls: the mine count,
  then the positions loop, then the reward. \<open>generateRandomPositions\<close> loops until it has
  drawn enough distinct positions; nothing bounds the number of draws, so the loop is a
  \<^theory_text>\<open>partial_function (option)\<close> whose \<open>None\<close> is a loop that never ends.
  The simulated latency (\<open>setTimeout\<close>) is the asynchrony the session model adds.
\<close>

subsection \<open>\<open>generateRandomPositions\<close>\<close>

partial_function (option) positions_loop ::
  "nat \<Rightarrow> nat \<Rightarrow> nat list \<Rightarrow> draws \<Rightarrow> (nat list \<times> draws) option" where
  "positions_loop totalPositions count positions rs =
     (if length positions < count then
        (case floor_draw totalPositions rs of
           (randomPosition, rs') \<Rightarrow>
             positions_loop totalPositions count (set_add positions randomPosition) rs')
      else Some (positions, rs))"

definition generateRandomPositions :: "nat \<Rightarrow> nat \<Rightarrow> draws \<Rightarrow> (nat list \<times> draws) option" where
  "generateRandomPositions totalPositions count rs = positions_loop totalPositions count [] rs"

subsection \<open>\<open>generateRandomBoard\<close>\<close>

text \<open>\<open>board[row][col] = {isWinning: false}\<close> for one mine position.\<close>

definition place_mine :: "nat \<Rightarrow> bool list list \<Rightarrow> bool list list" where
  "place_mine position b =
     (let r = position div BOARD_SIZE; c = position mod BOARD_SIZE
      in b[r := (b ! r)[c := False]])"

definition mine_count_of :: "nat \<Rightarrow> nat" where
  "mine_count_of d = d + MIN_MINES"

definition generateRandomBoard :: "draws \<Rightarrow> (bool list list \<times> draws) option" where
  "generateRandomBoard rs =
     (let size = BOARD_SIZE;
          board0 = replicate size (replicate size True);
          totalCells = size * size;
          maxPossibleMines = min MAX_MINES (totalCells - 1);
          (d, rs1) = floor_draw (maxPossibleMines - MIN_MINES + 1) rs;
          mineCount = mine_count_of d
      in case generateRandomPositions totalCells mineCount rs1 of
           None \<Rightarrow> None
         | Some (positions, rs2) \<Rightarrow> Some (fold place_mine positions board0, rs2))"

subsection \<open>\<open>generateRandomWinAmount\<close> and \<open>fetchBoard\<close>\<close>

definition generateRandomWinAmount :: "draws \<Rightarrow> coins \<times> draws" where
  "generateRandomWinAmount rs =
     (let base = BASE_AMOUNT_PER_WIN;
          (d, rs') = floor_draw 5 rs;
          variation = int d + 1
      in (base + variation, rs'))"

definition fetchBoard :: "draws \<Rightarrow> (game \<times> draws) option" where
  "fetchBoard rs =
     (case generateRandomBoard rs of
        None \<Rightarrow> None
      | Some (b, rs1) \<Rightarrow>
          (case generateRandomWinAmount rs1 of
             (amount, rs2) \<Rightarrow>
               Some (\<lparr>game_board = b, game_amountPerWin = amount\<rparr>, rs2)))"

subsection \<open>Auxiliary notions and the provider's contract\<close>

text \<open>The position a draw \<open>u\<close> yields, \<open>Math.floor(u * totalPositions)\<close>.\<close>

definition draw_positions :: "nat \<Rightarrow> real list \<Rightarrow> nat list" where
  "draw_positions tot us = map (\<lambda>u. nat \<lfloor>u * real tot\<rfloor>) us"

definition grid_mines :: "bool list list \<Rightarrow> nat" where
  "grid_mines b = count_cells Not b"

definition board0 :: "bool list list" where
  "board0 = replicate BOARD_SIZE (replicate BOARD_SIZE True)"

text \<open>What a board source promises the session engine: a square grid of \<open>BOARD_SIZE\<close> with
  between \<open>MIN_MINES\<close> and \<open>MAX_MINES\<close> mines, and a reward of \<open>BASE_AMOUNT_PER_WIN\<close> plus 1 to 5.\<close>

definition provider_ok :: "game \<Rightarrow> bool" where
  "provider_ok g \<longleftrightarrow>
     is_grid BOARD_SIZE (game_board g) \<and>
     MIN_MINES \<le> grid_mines (game_board g) \<and> grid_mines (game_board g) \<le> MAX_MINES \<and>
     BASE_AMOUNT_PER_WIN + 1 \<le> game_amountPerWin g \<and> game_amountPerWin g \<le> BASE_AMOUNT_PER_WIN + 5"

subsection \<open>The positions loop\<close>

lemma positions_loop_unfold:
  "positions_loop tot cnt ps rs =
     (if length ps < cnt then positions_loop tot cnt (set_add ps (fst (floor_draw tot rs))) (stl rs)
      else Some (ps, rs))"
  by (subst positions_loop.simps) (simp add: floor_draw_def)

text \<open>Guarded forms of the equation, for evaluation on concrete draws: the guard is decided
  before the loop is unfolded.\<close>

lemma positions_loop_step:
  "length ps < cnt \<Longrightarrow>
     positions_loop tot cnt ps (u ## s) = positions_loop tot cnt (set_add ps (nat \<lfloor>u * real tot\<rfloor>)) s"
  by (simp add: positions_loop_unfold [of tot cnt ps] floor_draw_def)

lemma positions_loop_stop:
  "\<not> length ps < cnt \<Longrightarrow> positions_loop tot cnt ps rs = Some (ps, rs)"
  by (simp add: positions_loop_unfold [of tot cnt ps])

text \<open>Partial correctness: whatever the loop returns holds distinct in-range positions, as
  many as were asked for, each a draw's position or one the loop started with.\<close>

lemma positions_loop_correct:
  assumes ret: "positions_loop tot cnt ps rs = Some res"
  shows "0 < tot \<longrightarrow> distinct ps \<longrightarrow> set ps \<subseteq> {..<tot} \<longrightarrow> length ps \<le> cnt \<longrightarrow> valid_draws rs \<longrightarrow>
           distinct (fst res) \<and> set (fst res) \<subseteq> {..<tot} \<and> length (fst res) = cnt \<and>
           valid_draws (snd res) \<and>
           set (fst res) \<subseteq> set ps \<union> (\<lambda>u. nat \<lfloor>u * real tot\<rfloor>) ` sset rs"
proof (rule positions_loop.raw_induct [where P = "\<lambda>tot cnt ps rs res.
    0 < tot \<longrightarrow> distinct ps \<longrightarrow> set ps \<subseteq> {..<tot} \<longrightarrow> length ps \<le> cnt \<longrightarrow> valid_draws rs \<longrightarrow>
      distinct (fst res) \<and> set (fst res) \<subseteq> {..<tot} \<and> length (fst res) = cnt \<and>
      valid_draws (snd res) \<and>
      set (fst res) \<subseteq> set ps \<union> (\<lambda>u. nat \<lfloor>u * real tot\<rfloor>) ` sset rs", OF _ ret])
  fix f :: "nat \<Rightarrow> nat \<Rightarrow> nat list \<Rightarrow> draws \<Rightarrow> (nat list \<times> draws) option"
    and tot cnt ps rs res
  assume IH: "\<And>tot cnt ps rs res. f tot cnt ps rs = Some res \<Longrightarrow>
    0 < tot \<longrightarrow> distinct ps \<longrightarrow> set ps \<subseteq> {..<tot} \<longrightarrow> length ps \<le> cnt \<longrightarrow> valid_draws rs \<longrightarrow>
      distinct (fst res) \<and> set (fst res) \<subseteq> {..<tot} \<and> length (fst res) = cnt \<and>
      valid_draws (snd res) \<and>
      set (fst res) \<subseteq> set ps \<union> (\<lambda>u. nat \<lfloor>u * real tot\<rfloor>) ` sset rs"
    and eq: "(if length ps < cnt then
        (case floor_draw tot rs of (randomPosition, rs') \<Rightarrow>
           f tot cnt (set_add ps randomPosition) rs')
      else Some (ps, rs)) = Some res"
  show "0 < tot \<longrightarrow> distinct ps \<longrightarrow> set ps \<subseteq> {..<tot} \<longrightarrow> length ps \<le> cnt \<longrightarrow> valid_draws rs \<longrightarrow>
      distinct (fst res) \<and> set (fst res) \<subseteq> {..<tot} \<and> length (fst res) = cnt \<and>
      valid_draws (snd res) \<and>
      set (fst res) \<subseteq> set ps \<union> (\<lambda>u. nat \<lfloor>u * real tot\<rfloor>) ` sset rs"
  proof (intro impI)
    assume tot: "0 < tot" and dist: "distinct ps" and rng: "set ps \<subseteq> {..<tot}"
      and len: "length ps \<le> cnt" and vd: "valid_draws rs"
    show "distinct (fst res) \<and> set (fst res) \<subseteq> {..<tot} \<and> length (fst res) = cnt \<and>
      valid_draws (snd res) \<and>
      set (fst res) \<subseteq> set ps \<union> (\<lambda>u. nat \<lfloor>u * real tot\<rfloor>) ` sset rs"
    proof (cases "length ps < cnt")
      case True
      let ?p = "nat \<lfloor>shd rs * real tot\<rfloor>"
      from True eq have rec: "f tot cnt (set_add ps ?p) (stl rs) = Some res"
        by (simp add: floor_draw_def)
      have p: "?p < tot"
        using floor_draw_bound [OF vd tot] by (simp add: floor_draw_def)
      have "length (set_add ps ?p) \<le> cnt"
        using True by (simp add: set_add_def)
      with IH [OF rec] tot dist rng p vd have post: "distinct (fst res) \<and> set (fst res) \<subseteq> {..<tot} \<and>
          length (fst res) = cnt \<and> valid_draws (snd res) \<and>
          set (fst res) \<subseteq> insert ?p (set ps) \<union> (\<lambda>u. nat \<lfloor>u * real tot\<rfloor>) ` sset (stl rs)"
        by simp
      have "insert ?p (set ps) \<union> (\<lambda>u. nat \<lfloor>u * real tot\<rfloor>) ` sset (stl rs)
          \<subseteq> set ps \<union> (\<lambda>u. nat \<lfloor>u * real tot\<rfloor>) ` sset rs"
        by (auto simp: shd_sset stl_sset)
      with post show ?thesis by blast
    next
      case False
      with eq len vd dist rng show ?thesis by auto
    qed
  qed
qed

text \<open>Termination: the loop returns as soon as the draws read so far hold enough distinct
  positions. Nothing else bounds it.\<close>

lemma positions_loop_returns:
  "distinct ps \<Longrightarrow> cnt \<le> card (set ps \<union> set (draw_positions tot us)) \<Longrightarrow>
     \<exists>res. positions_loop tot cnt ps (us @- s) = Some res"
proof (induction us arbitrary: ps)
  case Nil
  then have "\<not> length ps < cnt" by (simp add: draw_positions_def distinct_card)
  then show ?case by (simp add: positions_loop_unfold [of tot cnt ps])
next
  case (Cons u us)
  show ?case
  proof (cases "length ps < cnt")
    case True
    let ?ps' = "set_add ps (nat \<lfloor>u * real tot\<rfloor>)"
    have "set ?ps' \<union> set (draw_positions tot us) = set ps \<union> set (draw_positions tot (u # us))"
      by (auto simp: draw_positions_def)
    with Cons.prems have "\<exists>res. positions_loop tot cnt ?ps' (us @- s) = Some res"
      by (intro Cons.IH) simp_all
    with True show ?thesis by (simp add: positions_loop_unfold [of tot cnt ps] floor_draw_def)
  next
    case False
    then show ?thesis by (simp add: positions_loop_unfold [of tot cnt ps])
  qed
qed

lemma positions_loop_diverges:
  assumes "tot < cnt" and "0 < tot" and "valid_draws rs"
  shows "positions_loop tot cnt [] rs = None"
proof (rule ccontr)
  assume "positions_loop tot cnt [] rs \<noteq> None"
  then obtain res where "positions_loop tot cnt [] rs = Some res" by blast
  from positions_loop_correct [OF this] assms
  have "distinct (fst res)" and "set (fst res) \<subseteq> {..<tot}" and "length (fst res) = cnt"
    by simp_all
  then have "cnt \<le> card {..<tot}"
    by (metis card_mono distinct_card finite_lessThan)
  with assms(1) show False by simp
qed

subsection \<open>Placing the mines\<close>

lemma concat_board0: "concat board0 = replicate (BOARD_SIZE * BOARD_SIZE) True"
  by (simp add: board0_def BOARD_SIZE_def eval_nat_numeral)

lemma board0_eq: "board0 = [[True, True, True], [True, True, True], [True, True, True]]"
  by (simp add: board0_def BOARD_SIZE_def numeral_3_eq_3)

lemma place_mine_flat:
  assumes "is_grid BOARD_SIZE b" and "p < BOARD_SIZE * BOARD_SIZE"
  shows "is_grid BOARD_SIZE (place_mine p b) \<and> concat (place_mine p b) = (concat b)[p := False]"
proof -
  have rows: "\<forall>row \<in> set b. length row = BOARD_SIZE"
    using assms(1) by (simp add: is_grid_def)
  have "p div BOARD_SIZE < length b" and "p mod BOARD_SIZE < BOARD_SIZE"
    using assms by (auto simp: is_grid_def BOARD_SIZE_def)
  from concat_nested_update [OF rows this, of False]
  have "concat (place_mine p b) = (concat b)[p := False]"
    by (simp add: place_mine_def Let_def)
  with is_grid_nested_update [OF assms(1)] show ?thesis
    by (simp add: place_mine_def Let_def)
qed

lemma fold_place_mine_flat:
  "is_grid BOARD_SIZE b \<Longrightarrow> set ps \<subseteq> {..<BOARD_SIZE * BOARD_SIZE} \<Longrightarrow>
     is_grid BOARD_SIZE (fold place_mine ps b) \<and>
     concat (fold place_mine ps b) = fold (\<lambda>p xs. xs[p := False]) ps (concat b)"
  by (induction ps arbitrary: b) (simp_all add: place_mine_flat)

lemma nth_fold_clear:
  "i < length xs \<Longrightarrow> fold (\<lambda>p xs. xs[p := False]) ps xs ! i = (i \<notin> set ps \<and> xs ! i)"
proof (induction ps arbitrary: xs)
  case Nil
  then show ?case by simp
next
  case (Cons a ps)
  then have "fold (\<lambda>p xs. xs[p := False]) ps (xs[a := False]) ! i = (i \<notin> set ps \<and> xs[a := False] ! i)"
    by simp
  with Cons.prems show ?case by (cases "a = i") simp_all
qed

text \<open>The mines of the generated grid are exactly the positions drawn.\<close>

lemma mines_of_positions:
  assumes "set ps \<subseteq> {..<BOARD_SIZE * BOARD_SIZE}"
  shows "is_grid BOARD_SIZE (fold place_mine ps board0) \<and>
         {i. i < BOARD_SIZE * BOARD_SIZE \<and> \<not> concat (fold place_mine ps board0) ! i} = set ps \<and>
         grid_mines (fold place_mine ps board0) = card (set ps)"
proof -
  let ?b = "fold place_mine ps board0"
  have g0: "is_grid BOARD_SIZE board0" by (simp add: board0_def)
  from fold_place_mine_flat [OF g0 assms]
  have g: "is_grid BOARD_SIZE ?b" and flat: "concat ?b = fold (\<lambda>p xs. xs[p := False]) ps (concat board0)"
    by simp_all
  have len: "length (concat ?b) = BOARD_SIZE * BOARD_SIZE"
    using g by (rule length_concat_grid)
  have at: "\<And>i. i < BOARD_SIZE * BOARD_SIZE \<Longrightarrow> concat ?b ! i = (i \<notin> set ps)"
    by (simp add: flat nth_fold_clear concat_board0)
  have mines: "{i. i < BOARD_SIZE * BOARD_SIZE \<and> \<not> concat ?b ! i} = set ps"
    using assms by (auto simp: at)
  have "grid_mines ?b = card {i. i < length (concat ?b) \<and> \<not> concat ?b ! i}"
    by (simp add: grid_mines_def count_cells_def length_filter_conv_card)
  with len mines have "grid_mines ?b = card (set ps)" by simp
  with g mines show ?thesis by simp
qed

lemma generateRandomBoard_eq:
  "generateRandomBoard rs =
     (case positions_loop 9 (mine_count_of (nat \<lfloor>shd rs * 4\<rfloor>)) [] (stl rs) of
        None \<Rightarrow> None
      | Some (ps, rs2) \<Rightarrow> Some (fold place_mine ps board0, rs2))"
  unfolding generateRandomBoard_def generateRandomPositions_def floor_draw_def board0_def game_config
  by simp

lemma mine_draw_bound: "valid_draws rs \<Longrightarrow> nat \<lfloor>shd rs * 4\<rfloor> < 4"
  using floor_mult_below [OF valid_draws_shd, of rs 4] by simp

lemma generateRandomBoard_correct:
  assumes ret: "generateRandomBoard rs = Some (b, rs')" and vd: "valid_draws rs"
  shows "is_grid BOARD_SIZE b \<and> grid_mines b = mine_count_of (nat \<lfloor>shd rs * 4\<rfloor>) \<and>
         MIN_MINES \<le> grid_mines b \<and> grid_mines b \<le> MAX_MINES \<and>
         grid_mines b < BOARD_SIZE * BOARD_SIZE \<and> valid_draws rs'"
proof -
  let ?c = "mine_count_of (nat \<lfloor>shd rs * 4\<rfloor>)"
  from ret obtain ps where pos: "positions_loop 9 ?c [] (stl rs) = Some (ps, rs')"
    and b: "b = fold place_mine ps board0"
    by (auto simp: generateRandomBoard_eq split: option.splits)
  from positions_loop_correct [OF pos] vd
  have "distinct ps" and sub: "set ps \<subseteq> {..<BOARD_SIZE * BOARD_SIZE}" and "length ps = ?c"
    and "valid_draws rs'"
    by (simp_all add: BOARD_SIZE_def)
  with mines_of_positions [OF sub] b have "is_grid BOARD_SIZE b" and "grid_mines b = ?c"
    by (simp_all add: distinct_card)
  moreover have "?c < 5" and "1 \<le> ?c"
    using mine_draw_bound [OF vd] by (simp_all add: mine_count_of_def MIN_MINES_def)
  ultimately show ?thesis
    using \<open>valid_draws rs'\<close> by (simp add: game_config)
qed

lemma generateRandomWinAmount_bounds:
  assumes "valid_draws rs"
  shows "BASE_AMOUNT_PER_WIN + 1 \<le> fst (generateRandomWinAmount rs) \<and>
         fst (generateRandomWinAmount rs) \<le> BASE_AMOUNT_PER_WIN + 5 \<and>
         snd (generateRandomWinAmount rs) = stl rs"
proof -
  have "nat \<lfloor>shd rs * real 5\<rfloor> < 5"
    using floor_mult_below [OF valid_draws_shd [OF assms], of 5] by simp
  with valid_draws_shd [OF assms] show ?thesis
    by (simp add: generateRandomWinAmount_def floor_draw_def Let_def random_draw_def)
qed

lemma positions_loop_stuck:
  assumes "valid_draws rs" and "0 < tot"
    and "card ((\<lambda>u. nat \<lfloor>u * real tot\<rfloor>) ` sset rs) < cnt"
  shows "positions_loop tot cnt [] rs = None"
proof (rule ccontr)
  assume "positions_loop tot cnt [] rs \<noteq> None"
  then obtain res where "positions_loop tot cnt [] rs = Some res" by blast
  from positions_loop_correct [OF this] assms(1,2)
  have "distinct (fst res)" and "length (fst res) = cnt"
    and sub: "set (fst res) \<subseteq> (\<lambda>u. nat \<lfloor>u * real tot\<rfloor>) ` sset rs"
    by simp_all
  have "(\<lambda>u. nat \<lfloor>u * real tot\<rfloor>) ` sset rs \<subseteq> {..<tot}"
    using assms(1,2) by (auto intro: floor_mult_below simp: valid_draws_def)
  then have "finite ((\<lambda>u. nat \<lfloor>u * real tot\<rfloor>) ` sset rs)"
    by (rule finite_subset) simp
  from this sub have "card (set (fst res)) \<le> card ((\<lambda>u. nat \<lfloor>u * real tot\<rfloor>) ` sset rs)"
    by (rule card_mono)
  with \<open>distinct (fst res)\<close> \<open>length (fst res) = cnt\<close> assms(3) show False
    by (simp add: distinct_card)
qed

lemma fetchBoard_correct:
  assumes "fetchBoard rs = Some (g, rs')" and "valid_draws rs"
  shows "provider_ok g \<and> valid_draws rs'"
proof -
  from assms(1) obtain b rs1 where gb: "generateRandomBoard rs = Some (b, rs1)"
    and g: "g = \<lparr>game_board = b, game_amountPerWin = fst (generateRandomWinAmount rs1)\<rparr>"
    and rs': "rs' = snd (generateRandomWinAmount rs1)"
    by (auto simp: fetchBoard_def split: option.splits prod.splits)
  from generateRandomBoard_correct [OF gb assms(2)]
  have board: "is_grid BOARD_SIZE b \<and> MIN_MINES \<le> grid_mines b \<and> grid_mines b \<le> MAX_MINES"
    and vd1: "valid_draws rs1" by simp_all
  from generateRandomWinAmount_bounds [OF vd1] board g rs' vd1 show ?thesis
    by (simp add: provider_ok_def)
qed


subsection \<open>Properties of the provider\<close>

text \<open>
  The mine-layout invariant: every grid \<open>generateRandomBoard\<close> returns is a
  \<open>BOARD_SIZE\<close> by \<open>BOARD_SIZE\<close> grid whose number of mines is exactly the drawn
  \<open>mineCount\<close>, between \<open>MIN_MINES\<close> and \<open>MAX_MINES\<close> and below the number of cells.
\<close>

theorem generateRandomBoard_ok:
  assumes "generateRandomBoard rs = Some (b, rs')" and "valid_draws rs"
  shows "is_grid BOARD_SIZE b \<and> grid_mines b = mine_count_of (nat \<lfloor>shd rs * 4\<rfloor>) \<and>
         MIN_MINES \<le> grid_mines b \<and> grid_mines b \<le> MAX_MINES \<and>
         grid_mines b < BOARD_SIZE * BOARD_SIZE"
  using generateRandomBoard_correct [OF assms] by simp

text \<open>Claim C8. The provider meets its contract: every board \<open>fetchBoard\<close> returns on a valid random source satisfies \<open>provider_ok\<close> (a 3 by 3 grid with 1 to 4 mines, a reward of 11 to 15), and the rest of the source stays valid.\<close>

theorem fetchBoard_ok:
  assumes "fetchBoard rs = Some (g, rs')" and "valid_draws rs"
  shows "provider_ok g \<and> valid_draws rs'"
  using fetchBoard_correct [OF assms] .

text \<open>Claim C30. Termination of the provider: \<open>fetchBoard\<close> returns as soon as the draws after the mine-count draw hold as many distinct positions as mines were drawn.\<close>

theorem fetchBoard_returns:
  assumes "mine_count_of (nat \<lfloor>u * 4\<rfloor>) \<le> card (set (draw_positions 9 us))"
  shows "\<exists>g rs'. fetchBoard (u ## (us @- s)) = Some (g, rs')"
proof -
  from assms positions_loop_returns [of "[]" "mine_count_of (nat \<lfloor>u * 4\<rfloor>)" 9 us s]
  obtain res where "positions_loop 9 (mine_count_of (nat \<lfloor>u * 4\<rfloor>)) [] (us @- s) = Some res"
    by auto
  then show ?thesis
    by (auto simp: fetchBoard_def generateRandomBoard_eq split: prod.splits)
qed

text \<open>Claim C31. The provider has no bound on its loop: on a random source that always yields the same value it never returns (the spec imposes no timeout).\<close>

theorem fetchBoard_hangs_on_stuck_random:
  "fetchBoard (sconst (1 / 2)) = None"
proof -
  have "positions_loop 9 (mine_count_of (nat \<lfloor>shd (sconst (1 / 2 :: real)) * 4\<rfloor>)) [] (stl (sconst (1 / 2)))
        = None"
    by (rule positions_loop_stuck) (simp_all add: random_draw_def mine_count_of_def MIN_MINES_def)
  then show ?thesis by (simp add: fetchBoard_def generateRandomBoard_eq)
qed

end
