(* ===== verification/Use_Game.thy ===== *)
theory Use_Game
  imports Game_Api
begin

text \<open>
  The session engine, the hook \<open>useGame\<close> of \<open>src/src/hooks/useGame.ts\<close>. The hook keeps
  three pieces of React state (\<open>gameState\<close>, \<open>showCashOutModal\<close>, \<open>sessionStats\<close>);
  the model keeps them in one record and writes every callback as a function from the state
  before to the state after. A \<open>setGameState(prev => ...)\<close> updater is applied to the
  latest state; a \<open>setSessionStats\<close> call made inside an updater takes effect with it.
  \<open>flipCell\<close> can throw (it reads a property of \<open>undefined\<close> for a position outside the
  board): its result is \<open>js_error + hookState\<close>, and a thrown updater commits nothing.
  \<open>initializeGame\<close> is asynchronous: its synchronous first update, the update after a
  board arrives and the update after the provider fails are three functions here; the
  session theories compose them with the provider.
\<close>

record hookState =
  gameState :: gameState
  showCashOutModal :: bool
  sessionStats :: sessionStats

subsection \<open>Initial state\<close>

definition initialGameState :: gameState where
  "initialGameState =
     \<lparr>board = [], currentCoins = 0, gameStatus = IDLE, amountPerWin = BASE_AMOUNT_PER_WIN,
      isLoading = False, sessionBalance = STARTING_BALANCE, currentBet = DEFAULT_BET,
      roundWinnings = 0\<rparr>"

definition initialStats :: sessionStats where
  "initialStats =
     \<lparr>totalCashedOut = 0, gamesPlayed = 0, totalWins = 0, biggestWin = 0, currentStreak = 0\<rparr>"

definition initialHook :: hookState where
  "initialHook = \<lparr>gameState = initialGameState, showCashOutModal = False, sessionStats = initialStats\<rparr>"

subsection \<open>Derived state\<close>

definition canAffordBet :: "gameState \<Rightarrow> bool" where
  "canAffordBet gs \<longleftrightarrow> currentBet gs \<le> sessionBalance gs"

definition canCashOut :: "gameState \<Rightarrow> bool" where
  "canCashOut gs \<longleftrightarrow> gameStatus gs = PLAYING \<and> 0 < roundWinnings gs"

subsection \<open>Board helpers\<close>

definition createGameBoard :: "bool list list \<Rightarrow> cell list list" where
  "createGameBoard apiBoard =
     mapi (\<lambda>rowIndex r. mapi (\<lambda>colIndex w.
       \<lparr>isWinning = w, isRevealed = False, cellId = CellId rowIndex colIndex\<rparr>) r) apiBoard"

definition revealAllCells :: "cell list list \<Rightarrow> cell list list" where
  "revealAllCells b = map (map (\<lambda>c. c\<lparr>isRevealed := True\<rparr>)) b"

text \<open>The \<open>newBoard\<close> of \<open>flipCell\<close>: the cell at the position revealed, every other kept.\<close>

definition revealCellAt :: "cellPosition \<Rightarrow> cell list list \<Rightarrow> cell list list" where
  "revealCellAt position b =
     mapi (\<lambda>rowIndex r. mapi (\<lambda>colIndex c.
       if int rowIndex = row position \<and> int colIndex = col position
       then c\<lparr>isRevealed := True\<rparr> else c) r) b"

text \<open>\<open>prev.board[position.row][position.col]\<close>: \<open>None\<close> when either index is outside the
  board, where the source goes on to read a property of \<open>undefined\<close> and throws.\<close>

definition cell_at :: "cell list list \<Rightarrow> cellPosition \<Rightarrow> cell option" where
  "cell_at b position =
     (case js_index b (row position) of None \<Rightarrow> None | Some r \<Rightarrow> js_index r (col position))"

text \<open>Two views of a board used by the lemmas: the layout of winning cells, and whether
  every cell is revealed.\<close>

definition layout :: "cell list list \<Rightarrow> bool list list" where
  "layout b = map (map isWinning) b"

definition all_revealed :: "cell list list \<Rightarrow> bool" where
  "all_revealed b \<longleftrightarrow> (\<forall>r \<in> set b. \<forall>c \<in> set r. isRevealed c)"

text \<open>The footer's \<open>foundWinningCells\<close> (\<open>GameFooter.tsx\<close>): the safe cells revealed so far.\<close>

definition found_safe :: "cell list list \<Rightarrow> nat" where
  "found_safe b = count_cells (\<lambda>c. isWinning c \<and> isRevealed c) b"

text \<open>The footer's \<open>totalWinningCells\<close>: the safe cells of the board.\<close>

definition safe_cells :: "cell list list \<Rightarrow> nat" where
  "safe_cells b = count_cells isWinning b"

subsection \<open>The callbacks\<close>

definition setBetAmount :: "coins \<Rightarrow> hookState \<Rightarrow> hookState" where
  "setBetAmount amount hs =
     (let prev = gameState hs;
          clampedAmount = max MIN_BET (min MAX_BET (min amount (sessionBalance prev)))
      in hs\<lparr>gameState := prev\<lparr>currentBet := clampedAmount\<rparr>\<rparr>)"

text \<open>The first, synchronous update of \<open>initializeGame\<close>. When the bankroll cannot cover the
  bet it restores the starting bankroll and the default bet, and nothing else: the function
  does not return there, and goes on to await the provider.\<close>

definition initializeGame_begin :: "hookState \<Rightarrow> hookState" where
  "initializeGame_begin hs =
     (let prev = gameState hs
      in if sessionBalance prev < currentBet prev
         then hs\<lparr>gameState := prev\<lparr>sessionBalance := STARTING_BALANCE, currentBet := DEFAULT_BET\<rparr>\<rparr>
         else hs\<lparr>gameState := prev\<lparr>isLoading := True, gameStatus := IDLE, currentCoins := 0,
                                    roundWinnings := 0\<rparr>\<rparr>)"

definition initializeGame_success :: "game \<Rightarrow> hookState \<Rightarrow> hookState" where
  "initializeGame_success gameData hs =
     (let prev = gameState hs; newBoard = createGameBoard (game_board gameData)
      in hs\<lparr>gameState := prev\<lparr>board := newBoard, gameStatus := PLAYING,
              amountPerWin := game_amountPerWin gameData, isLoading := False,
              sessionBalance := sessionBalance prev - currentBet prev,
              currentCoins := 0, roundWinnings := 0\<rparr>\<rparr>)"

definition initializeGame_failure :: "hookState \<Rightarrow> hookState" where
  "initializeGame_failure hs =
     (let prev = gameState hs in hs\<lparr>gameState := prev\<lparr>isLoading := False, gameStatus := IDLE\<rparr>\<rparr>)"

definition flipCell :: "cellPosition \<Rightarrow> hookState \<Rightarrow> js_error + hookState" where
  "flipCell position hs =
     (let prev = gameState hs; stats = sessionStats hs
      in if gameStatus prev \<noteq> PLAYING then Inr hs
         else case cell_at (board prev) position of
             None \<Rightarrow> Inl TypeError
           | Some cell \<Rightarrow>
               if isRevealed cell then Inr hs
               else let newBoard = revealCellAt position (board prev)
                    in if isWinning cell then
                         (let winAmount = amountPerWin prev;
                              newRoundWinnings = roundWinnings prev + winAmount
                          in Inr (hs\<lparr>gameState := prev\<lparr>board := newBoard,
                                       currentCoins := currentCoins prev + winAmount,
                                       roundWinnings := newRoundWinnings\<rparr>,
                                     sessionStats := stats\<lparr>totalWins := totalWins stats + 1\<rparr>\<rparr>))
                       else Inr (hs\<lparr>gameState := prev\<lparr>board := revealAllCells newBoard,
                                     gameStatus := LOST, currentCoins := 0, roundWinnings := 0\<rparr>,
                                   sessionStats := stats\<lparr>gamesPlayed := gamesPlayed stats + 1,
                                     currentStreak := 0\<rparr>\<rparr>))"

definition initiateCashOut :: "hookState \<Rightarrow> hookState" where
  "initiateCashOut hs = (if \<not> canCashOut (gameState hs) then hs else hs\<lparr>showCashOutModal := True\<rparr>)"

definition confirmCashOut :: "hookState \<Rightarrow> hookState" where
  "confirmCashOut hs =
     (let prev = gameState hs; stats = sessionStats hs;
          totalWin = currentBet prev + roundWinnings prev
      in hs\<lparr>gameState := prev\<lparr>board := revealAllCells (board prev), gameStatus := CASHED_OUT,
                               sessionBalance := sessionBalance prev + totalWin\<rparr>,
            sessionStats := stats\<lparr>totalCashedOut := totalCashedOut stats + totalWin,
                                  gamesPlayed := gamesPlayed stats + 1,
                                  biggestWin := max (biggestWin stats) totalWin,
                                  currentStreak := currentStreak stats + 1\<rparr>,
            showCashOutModal := False\<rparr>)"

definition cancelCashOut :: "hookState \<Rightarrow> hookState" where
  "cancelCashOut hs = hs\<lparr>showCashOutModal := False\<rparr>"

text \<open>\<open>startNewRound\<close> closes the modal and schedules \<open>initializeGame\<close> 200 ms later; the
  scheduled call is the session model's business.\<close>

definition startNewRound :: "hookState \<Rightarrow> hookState" where
  "startNewRound hs = hs\<lparr>showCashOutModal := False\<rparr>"

definition resetGame :: "hookState \<Rightarrow> hookState" where
  "resetGame hs = hs\<lparr>gameState := initialGameState, sessionStats := initialStats\<rparr>"

subsection \<open>Board lemmas\<close>

lemma cell_at_Some:
  "cell_at b p = Some c \<longleftrightarrow>
     0 \<le> row p \<and> nat (row p) < length b \<and> 0 \<le> col p \<and> nat (col p) < length (b ! nat (row p)) \<and>
     b ! nat (row p) ! nat (col p) = c"
  by (auto simp: cell_at_def js_index_def split: option.splits)

lemma cell_at_None_grid:
  "is_grid n b \<Longrightarrow> cell_at b p = None \<longleftrightarrow> row p < 0 \<or> int n \<le> row p \<or> col p < 0 \<or> int n \<le> col p"
  by (auto simp: cell_at_def js_index_def is_grid_def split: option.splits)

lemma cell_at_eq:
  "cell_at b q =
     (if 0 \<le> row q \<and> row q < int (length b) \<and> 0 \<le> col q \<and> col q < int (length (b ! nat (row q)))
      then Some (b ! nat (row q) ! nat (col q)) else None)"
  by (simp add: cell_at_def js_index_def)

lemma length_revealCellAt [simp]: "length (revealCellAt p b) = length b"
  by (simp add: revealCellAt_def)

lemma length_row_revealCellAt [simp]:
  "i < length b \<Longrightarrow> length (revealCellAt p b ! i) = length (b ! i)"
  by (simp add: revealCellAt_def)

lemma nth_revealCellAt:
  "i < length b \<Longrightarrow> j < length (b ! i) \<Longrightarrow>
     revealCellAt p b ! i ! j =
       (if int i = row p \<and> int j = col p then (b ! i ! j)\<lparr>isRevealed := True\<rparr> else b ! i ! j)"
  by (simp add: revealCellAt_def)

lemma shape_revealCellAt [simp]: "map length (revealCellAt p b) = map length b"
  by (rule nth_equalityI) simp_all

lemma layout_revealCellAt [simp]: "layout (revealCellAt p b) = layout b"
  by (rule nth_equalityI) (auto simp: layout_def nth_revealCellAt intro!: nth_equalityI split: if_splits)

lemma layout_revealAllCells [simp]: "layout (revealAllCells b) = layout b"
  by (simp add: layout_def revealAllCells_def comp_def)

lemma shape_revealAllCells [simp]: "map length (revealAllCells b) = map length b"
  by (simp add: revealAllCells_def comp_def)

lemma all_revealed_revealAllCells [simp]: "all_revealed (revealAllCells b)"
  by (simp add: all_revealed_def revealAllCells_def)

lemma cellPosition_eq_iff: "(q :: cellPosition) = p \<longleftrightarrow> row q = row p \<and> col q = col p"
  by (cases p, cases q) simp

lemma cell_at_revealCellAt:
  "cell_at (revealCellAt p b) q =
     (if q = p then map_option (\<lambda>c. c\<lparr>isRevealed := True\<rparr>) (cell_at b q) else cell_at b q)"
proof (cases "0 \<le> row q \<and> row q < int (length b) \<and> 0 \<le> col q \<and> col q < int (length (b ! nat (row q)))")
  case True
  then have i: "nat (row q) < length b" and j: "nat (col q) < length (b ! nat (row q))"
    by linarith+
  from True have "revealCellAt p b ! nat (row q) ! nat (col q) =
      (if q = p then (b ! nat (row q) ! nat (col q))\<lparr>isRevealed := True\<rparr> else b ! nat (row q) ! nat (col q))"
    by (auto simp: nth_revealCellAt [OF i j] cellPosition_eq_iff)
  moreover have "length (revealCellAt p b ! nat (row q)) = length (b ! nat (row q))"
    using i by simp
  ultimately show ?thesis
    using True by (cases "q = p") (simp_all add: cell_at_eq)
next
  case out: False
  show ?thesis
  proof (cases "0 \<le> row q \<and> row q < int (length b)")
    case True
    then have "nat (row q) < length b" by linarith
    then have "length (revealCellAt p b ! nat (row q)) = length (b ! nat (row q))" by simp
    with out True have "cell_at (revealCellAt p b) q = None" and "cell_at b q = None"
      by (simp_all only: cell_at_eq length_revealCellAt if_False)
    then show ?thesis by auto
  next
    case False
    then have "cell_at (revealCellAt p b) q = None" and "cell_at b q = None"
      by (auto simp: cell_at_eq)
    then show ?thesis by auto
  qed
qed

lemma revealCellAt_update:
  assumes "cell_at b p = Some c"
  shows "revealCellAt p b = b[nat (row p) := (b ! nat (row p))[nat (col p) := c\<lparr>isRevealed := True\<rparr>]]"
proof -
  from assms have r: "nat (row p) < length b" and cl: "nat (col p) < length (b ! nat (row p))"
    and c: "b ! nat (row p) ! nat (col p) = c" and nn: "0 \<le> row p" "0 \<le> col p"
    by (auto simp: cell_at_Some)
  show ?thesis
  proof (rule nth_equalityI)
    fix i assume i: "i < length (revealCellAt p b)"
    show "revealCellAt p b ! i = b[nat (row p) := (b ! nat (row p))[nat (col p) := c\<lparr>isRevealed := True\<rparr>]] ! i"
    proof (rule nth_equalityI)
      fix j assume "j < length (revealCellAt p b ! i)"
      with i r cl c nn show "revealCellAt p b ! i ! j =
          b[nat (row p) := (b ! nat (row p))[nat (col p) := c\<lparr>isRevealed := True\<rparr>]] ! i ! j"
        by (auto simp: nth_revealCellAt nth_list_update)
    qed (use i r in \<open>simp add: nth_list_update\<close>)
  qed simp
qed

lemma found_safe_revealCellAt:
  assumes "cell_at b p = Some c" and "\<not> isRevealed c" and "isWinning c"
  shows "found_safe (revealCellAt p b) = found_safe b + 1"
proof -
  from assms(1) have "nat (row p) < length b" and "nat (col p) < length (b ! nat (row p))"
    and "b ! nat (row p) ! nat (col p) = c"
    by (auto simp: cell_at_Some)
  with count_cells_update [of "nat (row p)" b "nat (col p)" "\<lambda>c. isWinning c \<and> isRevealed c"
      "c\<lparr>isRevealed := True\<rparr>"] assms(2,3)
  show ?thesis by (simp add: found_safe_def revealCellAt_update [OF assms(1)])
qed

lemma safe_cells_layout: "safe_cells b = count_cells (\<lambda>w. w) (layout b)"
  by (simp add: safe_cells_def layout_def count_cells_map_map comp_def)

lemma found_le_safe: "found_safe b \<le> safe_cells b"
  unfolding found_safe_def safe_cells_def count_cells_def by (metis filter_filter length_filter_le)

lemma unrevealed_createGameBoard:
  "r \<in> set (createGameBoard g) \<Longrightarrow> c \<in> set r \<Longrightarrow> \<not> isRevealed c"
  by (auto simp: createGameBoard_def in_set_conv_nth)

lemma found_safe_createGameBoard [simp]: "found_safe (createGameBoard g) = 0"
  by (auto simp: found_safe_def count_cells_def filter_empty_conv dest: unrevealed_createGameBoard)

lemma cell_at_revealAllCells:
  "cell_at (revealAllCells b) q = map_option (\<lambda>c. c\<lparr>isRevealed := True\<rparr>) (cell_at b q)"
  by (auto simp: cell_at_def js_index_def revealAllCells_def split: option.splits)

lemma layout_createGameBoard [simp]: "layout (createGameBoard b) = b"
  by (rule nth_equalityI) (auto simp: layout_def createGameBoard_def intro!: nth_equalityI)

lemma none_revealed_createGameBoard:
  "cell_at (createGameBoard b) p = Some c \<Longrightarrow> \<not> isRevealed c"
  by (auto simp: cell_at_Some createGameBoard_def)

lemma is_grid_cells:
  "is_grid n (layout b) \<longleftrightarrow> is_grid n b"
  by (simp add: is_grid_def layout_def)

subsection \<open>Frame lemmas of the callbacks\<close>

lemma setBetAmount_state:
  "gameState (setBetAmount a hs) =
     (gameState hs)\<lparr>currentBet := max MIN_BET (min MAX_BET (min a (sessionBalance (gameState hs))))\<rparr>"
  "showCashOutModal (setBetAmount a hs) = showCashOutModal hs"
  "sessionStats (setBetAmount a hs) = sessionStats hs"
  by (simp_all add: setBetAmount_def Let_def)

lemma flipCell_not_playing:
  "gameStatus (gameState hs) \<noteq> PLAYING \<Longrightarrow> flipCell p hs = Inr hs"
  by (simp add: flipCell_def)

lemma flipCell_safe_eq:
  assumes "gameStatus (gameState hs) = PLAYING" and "cell_at (board (gameState hs)) p = Some c"
    and "\<not> isRevealed c" and "isWinning c"
  shows "flipCell p hs = Inr (hs\<lparr>gameState := (gameState hs)\<lparr>
            board := revealCellAt p (board (gameState hs)),
            currentCoins := currentCoins (gameState hs) + amountPerWin (gameState hs),
            roundWinnings := roundWinnings (gameState hs) + amountPerWin (gameState hs)\<rparr>,
          sessionStats := (sessionStats hs)\<lparr>totalWins := totalWins (sessionStats hs) + 1\<rparr>\<rparr>)"
  using assms by (simp add: flipCell_def Let_def)

lemma flipCell_mine_eq:
  assumes "gameStatus (gameState hs) = PLAYING" and "cell_at (board (gameState hs)) p = Some c"
    and "\<not> isRevealed c" and "\<not> isWinning c"
  shows "flipCell p hs = Inr (hs\<lparr>gameState := (gameState hs)\<lparr>
            board := revealAllCells (revealCellAt p (board (gameState hs))),
            gameStatus := LOST, currentCoins := 0, roundWinnings := 0\<rparr>,
          sessionStats := (sessionStats hs)\<lparr>gamesPlayed := gamesPlayed (sessionStats hs) + 1,
            currentStreak := 0\<rparr>\<rparr>)"
  using assms by (simp add: flipCell_def Let_def)

lemma flipCell_cases:
  assumes "flipCell p hs = Inr hs'"
  obtains (same) "hs' = hs"
  | (safe) c where "gameStatus (gameState hs) = PLAYING" "cell_at (board (gameState hs)) p = Some c"
      "\<not> isRevealed c" "isWinning c"
      "hs' = hs\<lparr>gameState := (gameState hs)\<lparr>
            board := revealCellAt p (board (gameState hs)),
            currentCoins := currentCoins (gameState hs) + amountPerWin (gameState hs),
            roundWinnings := roundWinnings (gameState hs) + amountPerWin (gameState hs)\<rparr>,
          sessionStats := (sessionStats hs)\<lparr>totalWins := totalWins (sessionStats hs) + 1\<rparr>\<rparr>"
  | (mine) c where "gameStatus (gameState hs) = PLAYING" "cell_at (board (gameState hs)) p = Some c"
      "\<not> isRevealed c" "\<not> isWinning c"
      "hs' = hs\<lparr>gameState := (gameState hs)\<lparr>
            board := revealAllCells (revealCellAt p (board (gameState hs))),
            gameStatus := LOST, currentCoins := 0, roundWinnings := 0\<rparr>,
          sessionStats := (sessionStats hs)\<lparr>gamesPlayed := gamesPlayed (sessionStats hs) + 1,
            currentStreak := 0\<rparr>\<rparr>"
  using assms by (auto simp: flipCell_def Let_def split: if_splits option.splits)

subsection \<open>Properties of the callbacks\<close>

text \<open>Bet clamping keeps the bet within its limits: whatever amount is requested, \<open>setBetAmount\<close> leaves a bet between \<open>MIN_BET\<close> and \<open>MAX_BET\<close>.\<close>

theorem setBetAmount_bounds:
  "MIN_BET \<le> currentBet (gameState (setBetAmount a hs)) \<and>
   currentBet (gameState (setBetAmount a hs)) \<le> MAX_BET"
  by (simp add: setBetAmount_state game_config)

text \<open>Bet clamping is idempotent: requesting the bet \<open>setBetAmount\<close> has just set changes nothing.\<close>

theorem setBetAmount_idem:
  "setBetAmount (currentBet (gameState (setBetAmount a hs))) (setBetAmount a hs) = setBetAmount a hs"
  by (simp add: setBetAmount_def Let_def game_config)

text \<open>When the bankroll is at least \<open>MIN_BET\<close>, the clamped bet never exceeds the bankroll.\<close>

theorem setBetAmount_within_bankroll:
  "MIN_BET \<le> sessionBalance (gameState hs) \<Longrightarrow>
     currentBet (gameState (setBetAmount a hs)) \<le> sessionBalance (gameState hs)"
  by (simp add: setBetAmount_state game_config)

text \<open>Claim C19. When the bankroll is below \<open>MIN_BET\<close>, \<open>setBetAmount\<close> sets the bet to \<open>MIN_BET\<close>, above the bankroll: the lower clamp is applied last, so the bankroll cap does not hold (the spec asks for the bankroll cap last).\<close>

theorem setBetAmount_exceeds_bankroll:
  "sessionBalance (gameState hs) < MIN_BET \<Longrightarrow>
     currentBet (gameState (setBetAmount a hs)) = MIN_BET \<and>
     sessionBalance (gameState hs) < currentBet (gameState (setBetAmount a hs))"
  by (simp add: setBetAmount_state game_config)

text \<open>Reveal idempotence: flipping a cell that is already revealed changes nothing, in any status (winnings, bankroll, board and statistics stay as they are).\<close>

theorem flipCell_revealed_idem:
  "cell_at (board (gameState hs)) p = Some c \<Longrightarrow> isRevealed c \<Longrightarrow> flipCell p hs = Inr hs"
  by (simp add: flipCell_def Let_def)

text \<open>Claim C20. Flipping a position outside the board while playing throws a \<open>TypeError\<close> (the source reads \<open>isRevealed\<close> of \<open>undefined\<close>); the spec says such a call is silently ignored.\<close>

theorem flipCell_outside_board:
  assumes "gameStatus (gameState hs) = PLAYING" and "is_grid BOARD_SIZE (board (gameState hs))"
    and "row p < 0 \<or> int BOARD_SIZE \<le> row p \<or> col p < 0 \<or> int BOARD_SIZE \<le> col p"
  shows "flipCell p hs = Inl TypeError"
proof -
  from assms(2,3) have "cell_at (board (gameState hs)) p = None"
    by (simp add: cell_at_None_grid)
  with assms(1) show ?thesis by (simp add: flipCell_def Let_def)
qed

text \<open>Claim C5. Revealing a hidden safe cell while playing credits \<open>amountPerWin\<close> to the round winnings and the coins, keeps the bankroll and the status, reveals exactly that cell, keeps the layout and counts one more win.\<close>

theorem flipCell_safe:
  assumes "gameStatus (gameState hs) = PLAYING" and "cell_at (board (gameState hs)) p = Some c"
    and "\<not> isRevealed c" and "isWinning c"
  shows "\<exists>hs'. flipCell p hs = Inr hs' \<and>
     roundWinnings (gameState hs') = roundWinnings (gameState hs) + amountPerWin (gameState hs) \<and>
     currentCoins (gameState hs') = currentCoins (gameState hs) + amountPerWin (gameState hs) \<and>
     sessionBalance (gameState hs') = sessionBalance (gameState hs) \<and>
     gameStatus (gameState hs') = PLAYING \<and>
     cell_at (board (gameState hs')) p = Some (c\<lparr>isRevealed := True\<rparr>) \<and>
     (\<forall>q. q \<noteq> p \<longrightarrow> cell_at (board (gameState hs')) q = cell_at (board (gameState hs)) q) \<and>
     layout (board (gameState hs')) = layout (board (gameState hs)) \<and>
     totalWins (sessionStats hs') = totalWins (sessionStats hs) + 1"
  using assms by (simp add: flipCell_safe_eq cell_at_revealCellAt)

text \<open>Claim C4. Loss resets round state: revealing a hidden mine while playing ends the round as \<open>LOST\<close> with winnings and coins reset to 0 and every cell revealed; the bankroll keeps the forfeited bet, the layout is unchanged, one more game is counted and the streak is reset.\<close>

theorem flipCell_mine:
  assumes "gameStatus (gameState hs) = PLAYING" and "cell_at (board (gameState hs)) p = Some c"
    and "\<not> isRevealed c" and "\<not> isWinning c"
  shows "\<exists>hs'. flipCell p hs = Inr hs' \<and>
     gameStatus (gameState hs') = LOST \<and>
     roundWinnings (gameState hs') = 0 \<and> currentCoins (gameState hs') = 0 \<and>
     all_revealed (board (gameState hs')) \<and>
     layout (board (gameState hs')) = layout (board (gameState hs)) \<and>
     sessionBalance (gameState hs') = sessionBalance (gameState hs) \<and>
     gamesPlayed (sessionStats hs') = gamesPlayed (sessionStats hs) + 1 \<and>
     currentStreak (sessionStats hs') = 0"
  using assms by (simp add: flipCell_mine_eq)

text \<open>Claim C3. Cash-out accounting: \<open>confirmCashOut\<close> credits the bet plus the round winnings to the bankroll, ends the round as \<open>CASHED_OUT\<close> with every cell revealed and the layout kept, closes the modal and updates the statistics.\<close>

theorem confirmCashOut_pays:
  "sessionBalance (gameState (confirmCashOut hs)) =
     sessionBalance (gameState hs) + currentBet (gameState hs) + roundWinnings (gameState hs) \<and>
   gameStatus (gameState (confirmCashOut hs)) = CASHED_OUT \<and>
   all_revealed (board (gameState (confirmCashOut hs))) \<and>
   layout (board (gameState (confirmCashOut hs))) = layout (board (gameState hs)) \<and>
   \<not> showCashOutModal (confirmCashOut hs) \<and>
   totalCashedOut (sessionStats (confirmCashOut hs)) =
     totalCashedOut (sessionStats hs) + currentBet (gameState hs) + roundWinnings (gameState hs) \<and>
   gamesPlayed (sessionStats (confirmCashOut hs)) = gamesPlayed (sessionStats hs) + 1 \<and>
   biggestWin (sessionStats (confirmCashOut hs)) =
     max (biggestWin (sessionStats hs)) (currentBet (gameState hs) + roundWinnings (gameState hs)) \<and>
   currentStreak (sessionStats (confirmCashOut hs)) = currentStreak (sessionStats hs) + 1"
  by (simp add: confirmCashOut_def Let_def)

text \<open>Claim C24. \<open>confirmCashOut\<close> has no guard on the status: a second call credits the bet and the winnings a second time.\<close>

theorem confirmCashOut_twice:
  "sessionBalance (gameState (confirmCashOut (confirmCashOut hs))) =
     sessionBalance (gameState hs) + 2 * (currentBet (gameState hs) + roundWinnings (gameState hs))"
  by (simp add: confirmCashOut_def Let_def)

text \<open>\<open>initiateCashOut\<close> changes no game state and opens the confirmation only when \<open>canCashOut\<close> holds (playing, with positive winnings).\<close>

theorem initiateCashOut_guard:
  "gameState (initiateCashOut hs) = gameState hs \<and>
   (showCashOutModal (initiateCashOut hs) \<longleftrightarrow> showCashOutModal hs \<or> canCashOut (gameState hs))"
  by (auto simp: initiateCashOut_def)

text \<open>When the bankroll cannot cover the bet, the first update of \<open>initializeGame\<close> restores the starting bankroll and the default bet and changes nothing else.\<close>

theorem initializeGame_begin_broke:
  "sessionBalance (gameState hs) < currentBet (gameState hs) \<Longrightarrow>
     gameState (initializeGame_begin hs) =
       (gameState hs)\<lparr>sessionBalance := STARTING_BALANCE, currentBet := DEFAULT_BET\<rparr>"
  by (simp add: initializeGame_begin_def Let_def)

text \<open>When a board arrives, \<open>initializeGame\<close> debits the bet from the bankroll and starts the round: status \<open>PLAYING\<close>, not loading, winnings 0, the provider's layout and reward.\<close>

theorem initializeGame_success_debits:
  "sessionBalance (gameState (initializeGame_success g hs)) =
     sessionBalance (gameState hs) - currentBet (gameState hs) \<and>
   currentBet (gameState (initializeGame_success g hs)) = currentBet (gameState hs) \<and>
   gameStatus (gameState (initializeGame_success g hs)) = PLAYING \<and>
   \<not> isLoading (gameState (initializeGame_success g hs)) \<and>
   roundWinnings (gameState (initializeGame_success g hs)) = 0 \<and>
   layout (board (gameState (initializeGame_success g hs))) = game_board g \<and>
   amountPerWin (gameState (initializeGame_success g hs)) = game_amountPerWin g"
  by (simp add: initializeGame_success_def Let_def)

text \<open>When the provider fails, \<open>initializeGame\<close> returns to \<open>IDLE\<close>, clears the loading flag and changes neither the bankroll nor the bet.\<close>

theorem initializeGame_failure_keeps_bankroll:
  "sessionBalance (gameState (initializeGame_failure hs)) = sessionBalance (gameState hs) \<and>
   currentBet (gameState (initializeGame_failure hs)) = currentBet (gameState hs) \<and>
   gameStatus (gameState (initializeGame_failure hs)) = IDLE \<and>
   \<not> isLoading (gameState (initializeGame_failure hs))"
  by (simp add: initializeGame_failure_def Let_def)

text \<open>\<open>resetGame\<close> reinitialises the game state and the statistics to their initial values.\<close>

theorem resetGame_initial:
  "gameState (resetGame hs) = initialGameState \<and> sessionStats (resetGame hs) = initialStats"
  by (simp add: resetGame_def)

end
