(* ===== verification/Session.thy ===== *)
theory Session
  imports Use_Game
begin

text \<open>
  The session as the UI drives it one operation at a time: the hook's callbacks composed
  with the board provider. \<open>initializeGame\<close> runs its first update, awaits
  \<open>fetchBoard\<close> on the session's random source and applies the success update; while no
  other callback runs in between (the sequential use this theory models), the three
  updates are one step. The provider's \<open>None\<close> (its loop never ends) freezes the page: the
  step has no result. The spec's \<open>ProviderUnavailable\<close> is the \<open>catch\<close> branch,
  \<open>StartRoundUnavailable\<close>. A \<open>TypeError\<close> thrown by \<open>flipCell\<close> ends the run.
  \<open>startNewRound\<close> closes the modal and then starts a round.

  The reachable states are those of runs from the initial state on a valid random source.
  Their invariant \<open>session_inv\<close> is proved one operation at a time
  (\<open>hook_inv_*\<close>, then \<open>session_step_inv\<close>) and lifted by rule induction.
\<close>

record session =
  hook :: hookState
  rng :: draws

datatype session_op =
    SetBet coins
  | StartRound
  | StartRoundUnavailable
  | Flip cellPosition
  | InitiateCashOut
  | ConfirmCashOut
  | CancelCashOut
  | StartNewRound
  | ResetSession

definition initialSession :: "draws \<Rightarrow> session" where
  "initialSession rs = \<lparr>hook = initialHook, rng = rs\<rparr>"

definition initializeGame :: "session \<Rightarrow> session option" where
  "initializeGame s =
     (let hs = initializeGame_begin (hook s)
      in case fetchBoard (rng s) of
           None \<Rightarrow> None
         | Some (gameData, rs') \<Rightarrow> Some \<lparr>hook = initializeGame_success gameData hs, rng = rs'\<rparr>)"

definition initializeGame_unavailable :: "session \<Rightarrow> session" where
  "initializeGame_unavailable s = s\<lparr>hook := initializeGame_failure (initializeGame_begin (hook s))\<rparr>"

fun session_step :: "session \<Rightarrow> session_op \<Rightarrow> (js_error + session) option" where
  "session_step s (SetBet amount) = Some (Inr (s\<lparr>hook := setBetAmount amount (hook s)\<rparr>))"
| "session_step s StartRound = map_option Inr (initializeGame s)"
| "session_step s StartRoundUnavailable = Some (Inr (initializeGame_unavailable s))"
| "session_step s (Flip position) =
     Some (case flipCell position (hook s) of Inl e \<Rightarrow> Inl e | Inr hs \<Rightarrow> Inr (s\<lparr>hook := hs\<rparr>))"
| "session_step s InitiateCashOut = Some (Inr (s\<lparr>hook := initiateCashOut (hook s)\<rparr>))"
| "session_step s ConfirmCashOut = Some (Inr (s\<lparr>hook := confirmCashOut (hook s)\<rparr>))"
| "session_step s CancelCashOut = Some (Inr (s\<lparr>hook := cancelCashOut (hook s)\<rparr>))"
| "session_step s StartNewRound = map_option Inr (initializeGame (s\<lparr>hook := startNewRound (hook s)\<rparr>))"
| "session_step s ResetSession = Some (Inr (s\<lparr>hook := resetGame (hook s)\<rparr>))"

fun session_run :: "session \<Rightarrow> session_op list \<Rightarrow> (js_error + session) option" where
  "session_run s [] = Some (Inr s)"
| "session_run s (op # ops) =
     (case session_step s op of
        None \<Rightarrow> None
      | Some (Inl e) \<Rightarrow> Some (Inl e)
      | Some (Inr s') \<Rightarrow> session_run s' ops)"

inductive reachable :: "session \<Rightarrow> bool" where
  init: "valid_draws rs \<Longrightarrow> reachable (initialSession rs)"
| step: "reachable s \<Longrightarrow> session_step s op = Some (Inr s') \<Longrightarrow> reachable s'"

subsection \<open>The invariant\<close>

text \<open>A board is empty (before the first round) or a grid the provider's contract allows.\<close>

definition board_ok :: "cell list list \<Rightarrow> bool" where
  "board_ok b \<longleftrightarrow> b = [] \<or>
     (is_grid BOARD_SIZE (layout b) \<and>
      MIN_MINES \<le> grid_mines (layout b) \<and> grid_mines (layout b) \<le> MAX_MINES)"

definition hook_inv :: "hookState \<Rightarrow> bool" where
  "hook_inv hs \<longleftrightarrow>
     (let gs = gameState hs in
      MIN_BET \<le> currentBet gs \<and> currentBet gs \<le> MAX_BET \<and>
      0 \<le> sessionBalance gs \<and>
      currentCoins gs = roundWinnings gs \<and> 0 \<le> roundWinnings gs \<and>
      gameStatus gs \<noteq> WON \<and> \<not> isLoading gs \<and>
      BASE_AMOUNT_PER_WIN \<le> amountPerWin gs \<and> amountPerWin gs \<le> BASE_AMOUNT_PER_WIN + 5 \<and>
      board_ok (board gs) \<and>
      roundWinnings gs \<le> amountPerWin gs * int (safe_cells (board gs)) \<and>
      (gameStatus gs = PLAYING \<longrightarrow>
         board gs \<noteq> [] \<and> roundWinnings gs = amountPerWin gs * int (found_safe (board gs))) \<and>
      (gameStatus gs = LOST \<or> gameStatus gs = CASHED_OUT \<longrightarrow> all_revealed (board gs)))"

definition session_inv :: "session \<Rightarrow> bool" where
  "session_inv s \<longleftrightarrow> hook_inv (hook s) \<and> valid_draws (rng s)"

subsection \<open>Each operation keeps the invariant\<close>

lemma layout_Nil_iff [simp]: "layout b = [] \<longleftrightarrow> b = []"
  by (simp add: layout_def)

lemma board_ok_layout: "layout b = layout b' \<Longrightarrow> board_ok b = board_ok b'"
  unfolding board_ok_def by (metis layout_Nil_iff)

lemma board_ok_createGameBoard:
  assumes "provider_ok g"
  shows "board_ok (createGameBoard (game_board g))" and "createGameBoard (game_board g) \<noteq> []"
proof -
  from assms have "is_grid BOARD_SIZE (game_board g)" by (simp add: provider_ok_def)
  then have "game_board g \<noteq> []" by (auto simp: is_grid_def BOARD_SIZE_def)
  then show "createGameBoard (game_board g) \<noteq> []"
    by (metis layout_Nil_iff layout_createGameBoard)
  from assms show "board_ok (createGameBoard (game_board g))"
    by (simp add: board_ok_def provider_ok_def)
qed

lemma winnings_nonneg_bound: "0 \<le> a \<Longrightarrow> (0::int) \<le> a * int n"
  by simp

lemma hook_inv_initialHook: "hook_inv initialHook"
  by (simp add: hook_inv_def initialHook_def initialGameState_def board_ok_def safe_cells_def
      count_cells_def game_config)

lemma hook_inv_setBetAmount: "hook_inv hs \<Longrightarrow> hook_inv (setBetAmount a hs)"
  by (simp add: hook_inv_def setBetAmount_state Let_def game_config)

text \<open>The state after a round start: the first update and the success update together.\<close>

lemma initializeGame_state:
  "gameState (initializeGame_success g (initializeGame_begin hs)) =
     (let gs = gameState hs; broke = sessionBalance gs < currentBet gs in
      gs\<lparr>board := createGameBoard (game_board g), currentCoins := 0, gameStatus := PLAYING,
         amountPerWin := game_amountPerWin g, isLoading := False,
         sessionBalance := (if broke then STARTING_BALANCE - DEFAULT_BET else sessionBalance gs - currentBet gs),
         currentBet := (if broke then DEFAULT_BET else currentBet gs), roundWinnings := 0\<rparr>)"
  by (simp add: initializeGame_begin_def initializeGame_success_def Let_def)

lemma hook_inv_initializeGame:
  assumes inv: "hook_inv hs" and ok: "provider_ok g"
  shows "hook_inv (initializeGame_success g (initializeGame_begin hs))"
proof -
  from ok have amt: "BASE_AMOUNT_PER_WIN \<le> game_amountPerWin g"
    "game_amountPerWin g \<le> BASE_AMOUNT_PER_WIN + 5"
    by (simp_all add: provider_ok_def)
  note b = board_ok_createGameBoard [OF ok]
  show ?thesis
  proof (cases "sessionBalance (gameState hs) < currentBet (gameState hs)")
    case True
    with amt b show ?thesis
      by (simp add: hook_inv_def initializeGame_state winnings_nonneg_bound game_config)
  next
    case False
    with inv amt b show ?thesis
      by (simp add: hook_inv_def initializeGame_state Let_def winnings_nonneg_bound game_config)
  qed
qed

lemma hook_inv_initializeGame_failure:
  assumes inv: "hook_inv hs"
  shows "hook_inv (initializeGame_failure (initializeGame_begin hs))"
proof (cases "sessionBalance (gameState hs) < currentBet (gameState hs)")
  case True
  with inv show ?thesis
    by (simp add: hook_inv_def initializeGame_begin_def initializeGame_failure_def Let_def game_config)
next
  case False
  with inv show ?thesis
    by (simp add: hook_inv_def initializeGame_begin_def initializeGame_failure_def Let_def
        winnings_nonneg_bound game_config)
qed

lemma hook_inv_flipCell:
  assumes inv: "hook_inv hs" and flip: "flipCell p hs = Inr hs'"
  shows "hook_inv hs'"
  using flip
proof (cases rule: flipCell_cases)
  case same
  with inv show ?thesis by simp
next
  case (safe c)
  have found: "found_safe (revealCellAt p (board (gameState hs))) = found_safe (board (gameState hs)) + 1"
    using safe(2-4) by (rule found_safe_revealCellAt)
  have ok: "board_ok (revealCellAt p (board (gameState hs))) = board_ok (board (gameState hs))"
    by (rule board_ok_layout) simp
  have "0 < length (board (gameState hs))"
    using safe(2) by (auto simp: cell_at_Some)
  then have ne: "revealCellAt p (board (gameState hs)) \<noteq> []"
    by (metis length_greater_0_conv length_revealCellAt)
  from inv safe(1) have "roundWinnings (gameState hs) =
      amountPerWin (gameState hs) * int (found_safe (board (gameState hs)))"
    and "BASE_AMOUNT_PER_WIN \<le> amountPerWin (gameState hs)"
    by (simp_all add: hook_inv_def Let_def)
  have "int (found_safe (board (gameState hs)) + 1) \<le> int (safe_cells (board (gameState hs)))"
    using found_le_safe [of "revealCellAt p (board (gameState hs))"] found
    by (simp add: safe_cells_layout)
  then have "amountPerWin (gameState hs) * int (found_safe (board (gameState hs)) + 1) \<le>
      amountPerWin (gameState hs) * int (safe_cells (board (gameState hs)))"
    using \<open>BASE_AMOUNT_PER_WIN \<le> amountPerWin (gameState hs)\<close>
    by (intro mult_left_mono) (simp_all add: game_config)
  moreover have "safe_cells (revealCellAt p (board (gameState hs))) = safe_cells (board (gameState hs))"
    by (simp add: safe_cells_layout)
  ultimately show ?thesis using found ok ne inv safe(1,5)
    by (simp add: hook_inv_def Let_def distrib_left game_config)
next
  case (mine c)
  have "board_ok (revealAllCells (revealCellAt p (board (gameState hs)))) = board_ok (board (gameState hs))"
    by (rule board_ok_layout) simp
  with inv mine(5) show ?thesis
    by (simp add: hook_inv_def Let_def winnings_nonneg_bound game_config)
qed

lemma hook_inv_initiateCashOut: "hook_inv hs \<Longrightarrow> hook_inv (initiateCashOut hs)"
  by (simp add: hook_inv_def initiateCashOut_def)

lemma hook_inv_confirmCashOut:
  assumes inv: "hook_inv hs"
  shows "hook_inv (confirmCashOut hs)"
proof -
  have "board_ok (revealAllCells (board (gameState hs))) = board_ok (board (gameState hs))"
    by (rule board_ok_layout) simp
  moreover have "safe_cells (revealAllCells (board (gameState hs))) = safe_cells (board (gameState hs))"
    by (simp add: safe_cells_layout)
  ultimately show ?thesis using inv
    by (simp add: hook_inv_def confirmCashOut_def Let_def game_config)
qed

lemma hook_inv_cancelCashOut: "hook_inv hs \<Longrightarrow> hook_inv (cancelCashOut hs)"
  by (simp add: hook_inv_def cancelCashOut_def)

lemma hook_inv_startNewRound: "hook_inv hs \<Longrightarrow> hook_inv (startNewRound hs)"
  by (simp add: hook_inv_def startNewRound_def)

lemma hook_inv_resetGame: "hook_inv (resetGame hs)"
  by (simp add: hook_inv_def resetGame_def initialGameState_def board_ok_def safe_cells_def
      count_cells_def game_config)

lemma initializeGame_Some:
  "initializeGame s = Some s' \<longleftrightarrow>
     (\<exists>g. fetchBoard (rng s) = Some (g, rng s') \<and>
          hook s' = initializeGame_success g (initializeGame_begin (hook s)))"
  by (cases s') (auto simp: initializeGame_def Let_def split: option.splits)

lemma session_inv_initializeGame:
  assumes "session_inv s" and "initializeGame s = Some s'"
  shows "session_inv s'"
proof -
  from assms(2) obtain g where f: "fetchBoard (rng s) = Some (g, rng s')"
    and h: "hook s' = initializeGame_success g (initializeGame_begin (hook s))"
    by (auto simp: initializeGame_Some)
  from assms(1) have "valid_draws (rng s)" by (simp add: session_inv_def)
  from fetchBoard_correct [OF f this] have "provider_ok g" and "valid_draws (rng s')" by simp_all
  with assms(1) h show ?thesis
    by (simp add: session_inv_def hook_inv_initializeGame)
qed

lemma session_step_inv:
  assumes inv: "session_inv s" and st: "session_step s op = Some (Inr s')"
  shows "session_inv s'"
proof (cases op)
  case StartRound
  with inv st show ?thesis by (auto intro: session_inv_initializeGame)
next
  case StartNewRound
  with st have "initializeGame (s\<lparr>hook := startNewRound (hook s)\<rparr>) = Some s'" by auto
  moreover from inv have "session_inv (s\<lparr>hook := startNewRound (hook s)\<rparr>)"
    by (simp add: session_inv_def hook_inv_startNewRound)
  ultimately show ?thesis by (rule session_inv_initializeGame [rotated])
next
  case (Flip p)
  with inv st show ?thesis
    by (auto simp: session_inv_def split: sum.splits intro: hook_inv_flipCell)
qed (use inv st in \<open>auto simp: session_inv_def initializeGame_unavailable_def hook_inv_setBetAmount
      hook_inv_initializeGame_failure hook_inv_initiateCashOut hook_inv_confirmCashOut
      hook_inv_cancelCashOut hook_inv_resetGame\<close>)

lemma reachable_inv: "reachable s \<Longrightarrow> session_inv s"
proof (induction rule: reachable.induct)
  case (init rs)
  then show ?case by (simp add: session_inv_def initialSession_def hook_inv_initialHook)
next
  case (step s op s')
  then show ?case by (blast intro: session_step_inv)
qed

lemma initializeGame_broke:
  assumes "sessionBalance (gameState (hook s)) < currentBet (gameState (hook s))"
    and "fetchBoard (rng s) = Some (g, rs')"
  shows "initializeGame s = Some \<lparr>hook = initializeGame_success g (initializeGame_begin (hook s)), rng = rs'\<rparr>"
  using assms(2) by (simp add: initializeGame_def)

subsection \<open>Properties of the session\<close>

text \<open>Claim C1. The session invariant holds in every reachable state: the bet lies within its
  limits, the bankroll is never negative, the coins shown equal the round winnings, the status
  is never \<open>WON\<close> and the session is never left loading, the reward lies in its range, the
  board is empty or a grid the provider allows, the winnings never exceed the reward times the
  safe cells of the board, while playing they are the reward times the safe cells found, and
  a lost or cashed-out board is fully revealed.\<close>

theorem reachable_session_inv:
  assumes "reachable s"
  shows "session_inv s"
  using assms
proof induction
  case (init rs)
  then show ?case by (simp add: session_inv_def initialSession_def hook_inv_initialHook)
next
  case (step s op s')
  then show ?case by (blast intro: session_step_inv)
qed

text \<open>Claim C6. Cash-out accounting over a round: confirming the cash-out of a round in progress
  credits the bet plus the reward times the number of safe cells found.\<close>

theorem cashout_pays_found:
  assumes "reachable s" and "gameStatus (gameState (hook s)) = PLAYING"
  shows "\<exists>s'. session_step s ConfirmCashOut = Some (Inr s') \<and>
    sessionBalance (gameState (hook s')) =
      sessionBalance (gameState (hook s)) + currentBet (gameState (hook s)) +
      amountPerWin (gameState (hook s)) * int (found_safe (board (gameState (hook s)))) \<and>
    gameStatus (gameState (hook s')) = CASHED_OUT"
proof -
  from reachable_inv [OF assms(1)] assms(2)
  have "roundWinnings (gameState (hook s)) =
      amountPerWin (gameState (hook s)) * int (found_safe (board (gameState (hook s))))"
    by (simp add: session_inv_def hook_inv_def Let_def)
  then show ?thesis by (simp add: confirmCashOut_def Let_def)
qed

text \<open>Claim C21. Starting a round without the bankroll to cover the bet does not leave the
  session idle: the first update restores the starting bankroll and the default bet, the
  provider is still awaited, and the round starts with the default bet debited (bankroll
  \<open>STARTING_BALANCE - DEFAULT_BET\<close>, status \<open>PLAYING\<close>). The spec's table keeps the session
  idle with the bankroll restored.\<close>

theorem start_round_when_broke:
  assumes "sessionBalance (gameState (hook s)) < currentBet (gameState (hook s))"
    and "fetchBoard (rng s) = Some (g, rs')"
  shows "\<exists>s'. session_step s StartRound = Some (Inr s') \<and>
    gameStatus (gameState (hook s')) = PLAYING \<and>
    sessionBalance (gameState (hook s')) = STARTING_BALANCE - DEFAULT_BET \<and>
    currentBet (gameState (hook s')) = DEFAULT_BET \<and> rng s' = rs'"
  using initializeGame_broke [OF assms] assms(1) by (simp add: initializeGame_state)

end
