(* ===== verification/Animation.thy ===== *)
theory Animation
  imports Prelude
begin

text \<open>
  \<open>AnimatedNumber\<close> (\<open>src/src/components/AnimatedNumber/AnimatedNumber.tsx\<close>): the easing
  \<open>easeOutQuart\<close>, one call of \<open>animate\<close> as a function of the elapsed time
  (\<open>animate_frame\<close>), and the component's effect with the browser's frame queue. The record
  \<open>anim\<close> holds the displayed value, the props, the clock \<open>Date.now()\<close> reads and the queued
  \<open>requestAnimationFrame\<close> callbacks; \<open>frame\<close> runs the queued callbacks and the render that
  follows, \<open>setValue\<close> a new \<open>value\<close> from the parent. Because \<open>displayValue\<close> is a dependency
  of the effect, every displayed value re-runs it, and its cleanup cancels only the first frame
  it requested: the lemmas show that each frame displays a value between its start and the
  target, that a chain stops exactly when its duration has elapsed, and that each frame
  queues one more chain. Numbers are exact reals here: the easing is not rounded to
  doubles, which matters only once the displayed value is within rounding distance of
  its target. \<open>formattedValue\<close> prints the
  displayed value with the prelude's \<open>toFixed\<close> and \<open>js_round\<close>.
\<close>

definition easeOutQuart :: "real \<Rightarrow> real" where
  "easeOutQuart progress = 1 - (1 - progress) ^ 4"

text \<open>\<open>animate\<close> for a start value, a target, a duration and the elapsed time: the value
  displayed after the frame and whether another frame is requested.\<close>

definition animate_frame :: "real \<Rightarrow> real \<Rightarrow> real \<Rightarrow> real \<Rightarrow> real \<times> bool" where
  "animate_frame startValue target duration elapsed =
     (let difference = target - startValue;
          progress = min (elapsed / duration) 1;
          easedProgress = easeOutQuart progress;
          currentValue = startValue + difference * easedProgress
      in if progress < 1 then (currentValue, True) else (target, False))"

subsection \<open>The effect and its frames\<close>

text \<open>The component's state: the displayed value (\<open>useState\<close>), the props \<open>value\<close> and
  \<open>duration\<close>, the clock \<open>Date.now()\<close> reads (whole milliseconds), the frame id the
  effect's cleanup cancels, and the browser's queue of requested frame callbacks. A callback is
  the \<open>animate\<close> closure: its \<open>startValue\<close>, the \<open>value\<close> it animates to and its
  \<open>startTime\<close>.\<close>

type_synonym frame_cb = "real \<times> real \<times> nat"

record anim =
  displayValue :: real
  valueProp :: real
  durationProp :: real
  clock :: nat
  effectFrame :: "nat option"
  frames :: "(nat \<times> frame_cb) list"
  nextId :: nat

definition requestAnimationFrame :: "frame_cb \<Rightarrow> anim \<Rightarrow> anim" where
  "requestAnimationFrame cb a = a\<lparr>frames := frames a @ [(nextId a, cb)], nextId := Suc (nextId a)\<rparr>"

definition cancelAnimationFrame :: "nat \<Rightarrow> anim \<Rightarrow> anim" where
  "cancelAnimationFrame i a = a\<lparr>frames := filter (\<lambda>f. fst f \<noteq> i) (frames a)\<rparr>"

text \<open>The effect body: nothing (and no cleanup) when the displayed value is the target, else
  one frame requested for a closure started now, whose id the cleanup will cancel.\<close>

definition run_effect :: "anim \<Rightarrow> anim" where
  "run_effect a =
     (if displayValue a = valueProp a then a\<lparr>effectFrame := None\<rparr>
      else (requestAnimationFrame (displayValue a, valueProp a, clock a) a)\<lparr>effectFrame := Some (nextId a)\<rparr>)"

definition cleanup :: "anim \<Rightarrow> anim" where
  "cleanup a = (case effectFrame a of None \<Rightarrow> a | Some i \<Rightarrow> cancelAnimationFrame i a)"

text \<open>A render after a state or prop change: React re-runs the effect, cleanup first, when a
  dependency (\<open>value\<close> or \<open>displayValue\<close>) changed.\<close>

definition commit :: "real \<Rightarrow> real \<Rightarrow> anim \<Rightarrow> anim" where
  "commit oldDisplay oldValue a =
     (if displayValue a \<noteq> oldDisplay \<or> valueProp a \<noteq> oldValue then run_effect (cleanup a) else a)"

text \<open>One call of \<open>animate\<close>: set the displayed value and either request the same closure
  again or, once the duration has elapsed, set the target.\<close>

definition animate :: "frame_cb \<Rightarrow> anim \<Rightarrow> anim" where
  "animate cb a =
     (case cb of (startValue, target, startTime) \<Rightarrow>
        let r = animate_frame startValue target (durationProp a) (real (clock a) - real startTime)
        in if snd r then requestAnimationFrame cb (a\<lparr>displayValue := fst r\<rparr>)
           else a\<lparr>displayValue := fst r\<rparr>)"

text \<open>A browser frame \<open>dt\<close> milliseconds later runs every callback queued before it, in the
  order requested; the state updates are batched into one render.\<close>

definition frame :: "nat \<Rightarrow> anim \<Rightarrow> anim" where
  "frame dt a =
     (let a0 = a\<lparr>clock := clock a + dt\<rparr>;
          a1 = fold animate (map snd (frames a0)) (a0\<lparr>frames := []\<rparr>)
      in commit (displayValue a) (valueProp a) a1)"

text \<open>The parent renders a new \<open>value\<close> \<open>dt\<close> milliseconds later.\<close>

definition setValue :: "nat \<Rightarrow> real \<Rightarrow> anim \<Rightarrow> anim" where
  "setValue dt v a = commit (displayValue a) (valueProp a) (a\<lparr>clock := clock a + dt, valueProp := v\<rparr>)"

text \<open>Mounting: \<open>useState(value)\<close>, then the effect, which returns at once.\<close>

definition mount :: "real \<Rightarrow> real \<Rightarrow> nat \<Rightarrow> anim" where
  "mount v dur now =
     run_effect \<lparr>displayValue = v, valueProp = v, durationProp = dur, clock = now, effectFrame = None,
                 frames = [], nextId = 1\<rparr>"

text \<open>The rendered text: \<open>formattedValue\<close> prints the displayed value with \<open>toFixed\<close> when
  decimals are asked for and rounded otherwise; the component renders it in a \<open>span\<close>.\<close>

definition formattedValue :: "nat \<Rightarrow> real \<Rightarrow> string" where
  "formattedValue decimals x = (if 0 < decimals then toFixed x decimals else int_str (js_round x))"

definition animatedNumber :: "nat \<Rightarrow> anim \<Rightarrow> string" where
  "animatedNumber decimals a = formattedValue decimals (displayValue a)"

text \<open>An animation still chasing its target: the newest closure, last in the queue, starts
  from the displayed value at the current time.\<close>

definition chasing :: "anim \<Rightarrow> bool" where
  "chasing a \<longleftrightarrow> 0 < durationProp a \<and> displayValue a \<noteq> valueProp a \<and> frames a \<noteq> [] \<and>
     snd (last (frames a)) = (displayValue a, valueProp a, clock a)"

text \<open>Frame ids are fresh: every queued frame and the one the cleanup cancels were issued
  before the next id.\<close>

definition ids_fresh :: "anim \<Rightarrow> bool" where
  "ids_fresh a \<longleftrightarrow> (\<forall>f \<in> set (frames a). fst f < nextId a) \<and> (\<forall>i. effectFrame a = Some i \<longrightarrow> i < nextId a)"

lemma easeOutQuart_bounds:
  assumes "0 \<le> p" and "p \<le> 1"
  shows "0 \<le> easeOutQuart p" and "easeOutQuart p \<le> 1"
proof -
  from assms have "0 \<le> 1 - p" and "1 - p \<le> 1" by simp_all
  then have "0 \<le> (1 - p) ^ 4" and "(1 - p) ^ 4 \<le> 1" by (simp_all add: power_le_one)
  then show "0 \<le> easeOutQuart p" and "easeOutQuart p \<le> 1" by (simp_all add: easeOutQuart_def)
qed

lemma easeOutQuart_mono:
  assumes "0 \<le> p" and "p \<le> q" and "q \<le> 1"
  shows "easeOutQuart p \<le> easeOutQuart q"
proof -
  from assms have "(1 - q) ^ 4 \<le> (1 - p) ^ 4" by (intro power_mono) simp_all
  then show ?thesis by (simp add: easeOutQuart_def)
qed

lemma between_scaled:
  assumes "0 \<le> e" and "e \<le> (1::real)"
  shows "min s v \<le> s + (v - s) * e" and "s + (v - s) * e \<le> max s v"
proof -
  have "(v - s) * e \<le> max 0 (v - s)" and "min 0 (v - s) \<le> (v - s) * e"
    using assms by (cases "0 \<le> v - s"; simp add: mult_left_le mult_nonpos_nonneg mult_left_mono_neg)+
  then show "min s v \<le> s + (v - s) * e" and "s + (v - s) * e \<le> max s v" by linarith+
qed

text \<open>Claim C28. Each frame displays a value between the start value and the target: for a
  positive duration and a non-negative elapsed time the eased progress lies in \<open>[0, 1]\<close>.\<close>

theorem animate_frame_between:
  assumes "0 < duration" and "0 \<le> elapsed"
  shows "min startValue target \<le> fst (animate_frame startValue target duration elapsed) \<and>
         fst (animate_frame startValue target duration elapsed) \<le> max startValue target"
proof -
  let ?p = "min (elapsed / duration) 1"
  have p: "0 \<le> ?p" "?p \<le> 1" using assms by simp_all
  note e = easeOutQuart_bounds [OF p]
  show ?thesis
    using between_scaled [OF e, of startValue target]
    by (auto simp: animate_frame_def Let_def)
qed

text \<open>Claim C29. The frame chain settles on the target when the duration has elapsed: a frame
  requests another one exactly while less than the duration has elapsed, and the frame that
  stops shows the target itself; while it runs, a later frame is never farther from the
  target than an earlier one.\<close>

theorem animate_frame_settles:
  assumes "0 < duration" and "0 \<le> t1" and "t1 \<le> t2"
  shows "snd (animate_frame s v duration t2) = (t2 < duration) \<and>
    (duration \<le> t2 \<longrightarrow> fst (animate_frame s v duration t2) = v) \<and>
    \<bar>v - fst (animate_frame s v duration t2)\<bar> \<le> \<bar>v - fst (animate_frame s v duration t1)\<bar>"
proof -
  let ?p1 = "min (t1 / duration) 1" and ?p2 = "min (t2 / duration) 1"
  have d: "t1 / duration \<le> t2 / duration" using assms by (simp add: divide_right_mono)
  have p: "0 \<le> ?p1" "?p1 \<le> ?p2" "?p2 \<le> 1"
    using assms d by (auto simp: min_def)
  have e: "easeOutQuart ?p1 \<le> easeOutQuart ?p2" "easeOutQuart ?p2 \<le> 1"
    using easeOutQuart_mono [OF p] easeOutQuart_bounds(2) [OF order_trans [OF p(1,2)] p(3)] by simp_all
  have close: "\<bar>v - (s + (v - s) * easeOutQuart ?p2)\<bar> \<le> \<bar>v - (s + (v - s) * easeOutQuart ?p1)\<bar>"
  proof -
    have "v - (s + (v - s) * x) = (v - s) * (1 - x)" for x by (simp add: algebra_simps)
    moreover have "\<bar>1 - easeOutQuart ?p2\<bar> \<le> \<bar>1 - easeOutQuart ?p1\<bar>" using e by simp
    ultimately show ?thesis by (simp add: abs_mult mult_left_mono)
  qed
  have "?p2 < 1 \<longleftrightarrow> t2 < duration" using assms by (simp add: min_def divide_less_eq)
  moreover have "?p1 < 1 \<longleftrightarrow> t1 < duration" using assms by (simp add: min_def divide_less_eq)
  ultimately show ?thesis
    using close assms e by (auto simp: animate_frame_def Let_def)
qed

subsection \<open>Frames chase the target\<close>

lemma easeOutQuart_strict:
  assumes "0 < p" and "p < 1"
  shows "0 < easeOutQuart p" and "easeOutQuart p < 1"
proof -
  from assms have "0 < 1 - p" and "1 - p < 1" by simp_all
  then have "0 < (1 - p) ^ 4" and "(1 - p) ^ 4 < 1" by (simp_all add: power_less_one_iff)
  then show "0 < easeOutQuart p" and "easeOutQuart p < 1" by (simp_all add: easeOutQuart_def)
qed

lemma animate_fields [simp]:
  "valueProp (animate cb a) = valueProp a" "durationProp (animate cb a) = durationProp a"
  "clock (animate cb a) = clock a"
  by (simp_all add: animate_def requestAnimationFrame_def Let_def split: prod.splits)

lemma fold_animate_fields [simp]:
  "valueProp (fold animate cbs a) = valueProp a" "durationProp (fold animate cbs a) = durationProp a"
  "clock (fold animate cbs a) = clock a"
  by (induction cbs arbitrary: a) simp_all

lemma cleanup_fields [simp]:
  "displayValue (cleanup a) = displayValue a" "valueProp (cleanup a) = valueProp a"
  "durationProp (cleanup a) = durationProp a" "clock (cleanup a) = clock a"
  by (simp_all add: cleanup_def cancelAnimationFrame_def split: option.splits)

lemma run_effect_chasing:
  assumes "displayValue a \<noteq> valueProp a" and "0 < durationProp a"
  shows "chasing (run_effect a)"
  using assms by (simp add: run_effect_def requestAnimationFrame_def chasing_def)

lemma commit_fields [simp]:
  "valueProp (commit d v a) = valueProp a" "durationProp (commit d v a) = durationProp a"
  "clock (commit d v a) = clock a"
  by (simp_all add: commit_def run_effect_def requestAnimationFrame_def)

lemma frame_fields [simp]:
  "valueProp (frame dt a) = valueProp a" "durationProp (frame dt a) = durationProp a"
  "clock (frame dt a) = clock a + dt"
  by (simp_all add: frame_def Let_def)

text \<open>The newest closure runs last in a frame, one frame after it started: it moves the
  display strictly between its start and its target.\<close>

lemma animate_newest:
  assumes "clock b = t + dt" and "0 < dt" and "real dt < durationProp b"
  shows "displayValue (animate (d, v, t) b) = d + (v - d) * easeOutQuart (real dt / durationProp b)"
proof -
  have "0 < durationProp b" using assms by linarith
  then have "real dt / durationProp b < 1" using assms by simp
  then show ?thesis using assms
    by (simp add: animate_def animate_frame_def requestAnimationFrame_def Let_def)
qed

lemma frame_display:
  assumes c: "chasing a" and dt: "0 < dt" "real dt < durationProp a"
  shows "displayValue (fold animate (map snd (frames a)) (a\<lparr>clock := clock a + dt, frames := []\<rparr>))
           \<noteq> displayValue a \<and>
         displayValue (fold animate (map snd (frames a)) (a\<lparr>clock := clock a + dt, frames := []\<rparr>))
           \<noteq> valueProp a"
proof -
  let ?d = "displayValue a" and ?v = "valueProp a" and ?D = "durationProp a"
  obtain fs i where fs: "frames a = fs @ [(i, ?d, ?v, clock a)]"
    using c unfolding chasing_def by (metis append_butlast_last_id prod.collapse)
  let ?e = "easeOutQuart (real dt / ?D)"
  have D: "0 < ?D" using c by (simp add: chasing_def)
  have e: "0 < ?e" "?e < 1" using easeOutQuart_strict [of "real dt / ?D"] D dt by simp_all
  let ?b = "fold animate (map snd fs) (a\<lparr>clock := clock a + dt, frames := []\<rparr>)"
  have disp: "displayValue (animate (?d, ?v, clock a) ?b) = ?d + (?v - ?d) * ?e"
    using dt by (simp add: animate_newest)
  have ne: "?v - ?d \<noteq> 0" using c by (simp add: chasing_def)
  have "?d + (?v - ?d) * ?e - ?v = (?v - ?d) * (?e - 1)" by (simp add: algebra_simps)
  moreover have "(?v - ?d) * (?e - 1) \<noteq> 0" using e ne by simp
  ultimately have "?d + (?v - ?d) * ?e \<noteq> ?v" by auto
  moreover have "?d + (?v - ?d) * ?e \<noteq> ?d" using e ne by simp
  ultimately show ?thesis using disp by (simp add: fs)
qed

lemma chasing_frame:
  assumes c: "chasing a" and dt: "0 < dt" "real dt < durationProp a"
  shows "chasing (frame dt a)"
proof -
  have "0 < durationProp a" using c by (simp add: chasing_def)
  then show ?thesis
    using frame_display [OF assms] by (simp add: frame_def Let_def commit_def run_effect_chasing)
qed

lemma mount_fields [simp]:
  "displayValue (mount d dur t) = d" "valueProp (mount d dur t) = d" "durationProp (mount d dur t) = dur"
  by (simp_all add: mount_def run_effect_def)

subsection \<open>Frames multiply\<close>

lemma animate_frame_more: "0 < D \<Longrightarrow> snd (animate_frame s v D el) = (el < D)"
  by (simp add: animate_frame_def Let_def min_def divide_less_eq)

text \<open>While no closure has run for the whole duration, every callback of a frame requests
  itself again, under a fresh id.\<close>

lemma fold_animate_continue:
  assumes "0 < durationProp b" and "\<forall>(s, v, st) \<in> set cbs. real (clock b) - real st < durationProp b"
  shows "frames (fold animate cbs b) = frames b @ zip [nextId b..<nextId b + length cbs] cbs \<and>
         nextId (fold animate cbs b) = nextId b + length cbs \<and>
         effectFrame (fold animate cbs b) = effectFrame b"
  using assms
proof (induction cbs arbitrary: b)
  case Nil
  then show ?case by simp
next
  case (Cons cb cbs)
  obtain s v st where cb: "cb = (s, v, st)" by (cases cb) blast
  have "snd (animate_frame s v (durationProp b) (real (clock b) - real st))"
    using Cons.prems by (simp add: cb animate_frame_more)
  then have a: "animate cb b = requestAnimationFrame cb (b\<lparr>displayValue :=
      fst (animate_frame s v (durationProp b) (real (clock b) - real st))\<rparr>)"
    by (simp add: animate_def cb Let_def)
  have "[nextId b..<nextId b + length (cb # cbs)] = nextId b # [Suc (nextId b)..<Suc (nextId b) + length cbs]"
    by (subst upt_rec) simp
  then show ?case
    using Cons.IH [of "animate cb b"] Cons.prems by (simp add: a requestAnimationFrame_def)
qed

lemma filter_zip_fresh: "i < n \<Longrightarrow> filter (\<lambda>f. fst f \<noteq> i) (zip [n..<m] xs) = zip [n..<m] xs"
  by (rule filter_True) (auto dest: set_zip_leftD)

lemma frame_multiplies:
  assumes c: "chasing a" and fr: "ids_fresh a" and st: "\<forall>f \<in> set (frames a). tStart \<le> snd (snd (snd f))"
    and tStart: "tStart \<le> clock a" and dt: "0 < dt" and D: "real (clock a + dt) - real tStart < durationProp a"
  shows "chasing (frame dt a) \<and> ids_fresh (frame dt a) \<and>
         (\<forall>f \<in> set (frames (frame dt a)). tStart \<le> snd (snd (snd f))) \<and>
         length (frames (frame dt a)) = Suc (length (frames a))"
proof -
  let ?b = "a\<lparr>clock := clock a + dt, frames := []\<rparr>" and ?cbs = "map snd (frames a)"
  let ?a1 = "fold animate ?cbs ?b" and ?N = "nextId a" and ?n = "length (frames a)"
  have D0: "0 < durationProp a" using c by (simp add: chasing_def)
  have "\<forall>(s, v, st) \<in> set ?cbs. real (clock ?b) - real st < durationProp ?b"
    using st D by fastforce
  then have a1: "frames ?a1 = zip [?N..<?N + ?n] ?cbs" "nextId ?a1 = ?N + ?n" "effectFrame ?a1 = effectFrame a"
    using fold_animate_continue [of ?b ?cbs] D0 by simp_all
  have "real dt < durationProp a" using D tStart by simp
  then have disp: "displayValue ?a1 \<noteq> displayValue a" "displayValue ?a1 \<noteq> valueProp a"
    using frame_display [OF c dt] by simp_all
  have "cleanup ?a1 = ?a1"
    using fr a1 by (cases "effectFrame a") (simp_all add: cleanup_def cancelAnimationFrame_def
      ids_fresh_def filter_zip_fresh)
  then have f: "frame dt a = (requestAnimationFrame (displayValue ?a1, valueProp a, clock a + dt) ?a1)
      \<lparr>effectFrame := Some (nextId ?a1)\<rparr>"
    using disp by (simp add: frame_def Let_def commit_def run_effect_def)
  have "chasing (frame dt a)" using chasing_frame [OF c dt] \<open>real dt < durationProp a\<close> by simp
  moreover have "ids_fresh (frame dt a)"
    using a1 by (auto simp: f requestAnimationFrame_def ids_fresh_def dest: set_zip_leftD)
  moreover have "\<forall>f \<in> set (frames (frame dt a)). tStart \<le> snd (snd (snd f))"
    using a1 st tStart by (auto simp: f requestAnimationFrame_def dest!: set_zip_rightD; fastforce)
  moreover have "length (frames (frame dt a)) = Suc ?n"
    using a1 by (simp add: f requestAnimationFrame_def)
  ultimately show ?thesis by blast
qed

lemma fold_frame_multiplies:
  assumes "chasing a" and "ids_fresh a" and "\<forall>f \<in> set (frames a). tStart \<le> snd (snd (snd f))"
    and "tStart \<le> clock a" and "\<forall>dt \<in> set dts. 0 < dt"
    and "real (clock a + sum_list dts) - real tStart < durationProp a"
  shows "length (frames (fold frame dts a)) = length (frames a) + length dts"
  using assms
proof (induction dts arbitrary: a)
  case Nil
  then show ?case by simp
next
  case (Cons dt dts)
  have "real (clock a + dt) - real tStart < durationProp a" using Cons.prems(6) by simp
  with Cons.prems have m: "chasing (frame dt a) \<and> ids_fresh (frame dt a) \<and>
      (\<forall>f \<in> set (frames (frame dt a)). tStart \<le> snd (snd (snd f))) \<and>
      length (frames (frame dt a)) = Suc (length (frames a))"
    by (intro frame_multiplies) simp_all
  have "length (frames (fold frame dts (frame dt a))) = length (frames (frame dt a)) + length dts"
    using Cons.prems m by (intro Cons.IH) (simp_all add: add.assoc)
  then show ?case using m by simp
qed

text \<open>Claim C25. Each frame leaves one more animation chain queued: the frames \<open>animate\<close>
  requests itself are never cancelled, and every displayed value re-runs the effect, which
  starts a new chain. After \<open>k\<close> frames within the duration of a value change,
  \<open>k + 1\<close> callbacks are queued where one would do.\<close>

theorem anim_frames_multiply:
  assumes "0 < dur" and "v \<noteq> d" and "\<forall>dt \<in> set dts. 0 < dt" and "real (sum_list dts) < dur"
  shows "length (frames (fold frame dts (setValue 0 v (mount d dur t)))) = Suc (length dts)"
proof -
  have s: "setValue 0 v (mount d dur t) =
      \<lparr>displayValue = d, valueProp = v, durationProp = dur, clock = t, effectFrame = Some 1,
       frames = [(1, d, v, t)], nextId = 2\<rparr>"
    using assms(2) by (simp add: setValue_def mount_def commit_def run_effect_def cleanup_def
      requestAnimationFrame_def)
  have "length (frames (fold frame dts (setValue 0 v (mount d dur t)))) =
      length (frames (setValue 0 v (mount d dur t))) + length dts"
    using assms
    by (intro fold_frame_multiplies [where tStart = t]) (simp_all add: s chasing_def ids_fresh_def)
  then show ?thesis by (simp add: s)
qed

end
