(* ===== verification/Views.thy ===== *)
theory Views
  imports Session Animation
begin

text \<open>
  The presentation components as functions of the hook's state: what each one renders and
  which of its buttons are enabled. \<open>GameFooter\<close> derives a progress count and a
  next-prize label, \<open>GameControls\<close> the start and restart buttons, \<open>GameHeader\<close> the
  numbers it hands to its animated figures and its cash-out button (\<open>gameHeader\<close>),
  \<open>GameCell\<close> a cell's face, classes, label and click guard (\<open>gameCell\<close>), \<open>GameBoard\<close> the
  positions it hands to the cells. \<open>gameControlsComponent\<close> and \<open>gameFooterComponent\<close> are
  the whole components with their texts. Labels and emoji are kept as datatype constructors
  (one per distinct string the code builds); CSS class names as constructors of
  \<open>cellClass\<close>.
\<close>

subsection \<open>\<open>GameFooter\<close>\<close>

record progress =
  found :: nat
  total :: nat
  remaining :: int

definition gameProgress :: "gameStatus \<Rightarrow> cell list list \<Rightarrow> progress" where
  "gameProgress st b =
     (if st = IDLE \<or> length b = 0 then \<lparr>found = 0, total = 0, remaining = 0\<rparr>
      else let flatBoard = concat b;
               totalWinningCells = length (filter isWinning flatBoard);
               foundWinningCells = length (filter (\<lambda>c. isWinning c \<and> isRevealed c) flatBoard);
               rem = int totalWinningCells - int foundWinningCells
           in \<lparr>found = foundWinningCells, total = totalWinningCells, remaining = max 0 rem\<rparr>)"

record coinTier =
  tier_amount :: int
  tier_coins :: string

definition COIN_TIERS :: "coinTier list" where
  "COIN_TIERS = [\<lparr>tier_amount = 75, tier_coins = ''2M''\<rparr>, \<lparr>tier_amount = 100, tier_coins = ''2M''\<rparr>,
                 \<lparr>tier_amount = 250, tier_coins = ''5M''\<rparr>]"

text \<open>The label and value pair \<open>nextPrizeInfo\<close> builds, one constructor per branch:
  \<open>NextPrize a\<close> is \<open>NEXT PRIZE / $a\<close>, \<open>NextTier a w\<close> is \<open>NEXT: $a / w\<close> with a clover,
  \<open>Progress f t\<close> is \<open>PROGRESS / f/t\<close>, \<open>NoPrize\<close> the fallback \<open>NEXT PRIZE / --\<close>.\<close>

datatype prizeInfo =
    NextPrize int
  | GameOver
  | CashedOutPrize
  | AllFound
  | NextTier int int
  | Progress nat nat
  | NoPrize

text \<open>\<open>currentCoins / 100\<close>, the coins as dollars: a double, so the quotient is rounded.\<close>

definition currentDollars :: "coins \<Rightarrow> real" where
  "currentDollars c = dbl (real_of_int c / 100)"

definition nextTier :: "coins \<Rightarrow> coinTier option" where
  "nextTier c = find (\<lambda>tier. currentDollars c < real_of_int (tier_amount tier)) COIN_TIERS"

text \<open>\<open>Math.ceil((nextTier.amount - currentDollars) / (amountPerWin / 100))\<close>: the
  difference, the reward in dollars and their quotient are each rounded to a double, and
  \<open>Math.ceil\<close> is exact.\<close>

definition coinsNeeded :: "int \<Rightarrow> coins \<Rightarrow> coins \<Rightarrow> int" where
  "coinsNeeded amount c apw =
     \<lceil>dbl (dbl (real_of_int amount - currentDollars c) / dbl (real_of_int apw / 100))\<rceil>"

text \<open>\<open>Math.min(coinsNeeded, remaining)\<close>. With a reward of 0 JavaScript divides a positive
  distance by 0 to \<open>Infinity\<close>, and the minimum is \<open>remaining\<close>.\<close>

definition winsNeeded :: "int \<Rightarrow> coins \<Rightarrow> coins \<Rightarrow> int \<Rightarrow> int" where
  "winsNeeded amount c apw rem = (if apw = 0 then rem else min (coinsNeeded amount c apw) rem)"

definition nextPrizeInfo :: "gameStatus \<Rightarrow> progress \<Rightarrow> coins \<Rightarrow> coins \<Rightarrow> prizeInfo" where
  "nextPrizeInfo st prog c apw =
     (if st = IDLE then NextPrize (tier_amount (hd COIN_TIERS))
      else if st = LOST then GameOver
      else if st = CASHED_OUT then CashedOutPrize
      else if st = PLAYING then
        (if remaining prog = 0 \<and> 0 < total prog then AllFound
         else case nextTier c of
             Some tier \<Rightarrow>
               if 0 < remaining prog
               then NextTier (tier_amount tier) (winsNeeded (tier_amount tier) c apw (remaining prog))
               else Progress (found prog) (total prog)
           | None \<Rightarrow> Progress (found prog) (total prog))
      else NoPrize)"

definition tierAchievements :: "coins \<Rightarrow> bool list" where
  "tierAchievements c = map (\<lambda>tier. tier_amount tier * 100 \<le> c) COIN_TIERS"

text \<open>The footer as \<open>App\<close> wires it: its props are fields of the game state.\<close>

definition gameFooter :: "gameState \<Rightarrow> bool list \<times> prizeInfo" where
  "gameFooter gs =
     (let prog = gameProgress (gameStatus gs) (board gs)
      in (tierAchievements (currentCoins gs),
          nextPrizeInfo (gameStatus gs) prog (currentCoins gs) (amountPerWin gs)))"

text \<open>The component as rendered from its props: each tier with its marker, its dollar amount
  printed by \<open>toFixed(2)\<close> and its coin label, and the next-prize label.\<close>

definition footerTiers :: "coins \<Rightarrow> (bool \<times> string \<times> string) list" where
  "footerTiers c =
     map2 (\<lambda>tier achieved. (achieved, toFixed (real_of_int (tier_amount tier)) 2, tier_coins tier))
       COIN_TIERS (tierAchievements c)"

definition gameFooterComponent ::
  "coins \<Rightarrow> cell list list \<Rightarrow> gameStatus \<Rightarrow> coins \<Rightarrow> (bool \<times> string \<times> string) list \<times> prizeInfo" where
  "gameFooterComponent c b st apw = (footerTiers c, nextPrizeInfo st (gameProgress st b) c apw)"

subsection \<open>\<open>GameControls\<close>\<close>

definition showStartButton :: "gameStatus \<Rightarrow> bool" where
  "showStartButton st \<longleftrightarrow> st = IDLE"

definition showResetButton :: "gameStatus \<Rightarrow> bool" where
  "showResetButton st \<longleftrightarrow> st \<noteq> IDLE \<and> st \<noteq> PLAYING"

definition startButtonText :: "bool \<Rightarrow> string" where
  "startButtonText loading = (if loading then ''Loading...'' else ''START GAME'')"

datatype control = StartButton | RestartButton

text \<open>The buttons rendered, each with whether it is enabled (\<open>disabled={isLoading}\<close>).\<close>

definition gameControls :: "gameStatus \<Rightarrow> bool \<Rightarrow> (control \<times> bool) list" where
  "gameControls st loading =
     (if showStartButton st then [(StartButton, \<not> loading)] else []) @
     (if showResetButton st then [(RestartButton, \<not> loading)] else [])"

text \<open>The component as rendered: each button with its text and whether it is enabled.\<close>

definition gameControlsComponent :: "gameStatus \<Rightarrow> bool \<Rightarrow> (control \<times> string \<times> bool) list" where
  "gameControlsComponent st loading =
     (if showStartButton st then [(StartButton, startButtonText loading, \<not> loading)] else []) @
     (if showResetButton st then [(RestartButton, ''RESTART'', \<not> loading)] else [])"

subsection \<open>\<open>GameHeader\<close>\<close>

definition header_canCashOut :: "gameStatus \<Rightarrow> coins \<Rightarrow> bool" where
  "header_canCashOut st c \<longleftrightarrow> st = PLAYING \<and> 0 < c"

definition dollarValue :: "coins \<Rightarrow> real" where
  "dollarValue c = real_of_int c / 100"

text \<open>The cash-out button: \<open>None\<close> when it is not rendered, else whether it is enabled.\<close>

definition cashOutButton :: "gameStatus \<Rightarrow> coins \<Rightarrow> bool \<Rightarrow> bool option" where
  "cashOutButton st c loading = (if header_canCashOut st c then Some (\<not> loading) else None)"

text \<open>The header as rendered: the numbers handed to its two \<open>AnimatedNumber\<close>s (dollars with
  two decimals, coins rounded), the static maximum prize, and the cash-out button.\<close>

record headerView =
  balanceDollars :: real
  balanceCoins :: real
  maxPrize :: "string \<times> string"
  headerCashOut :: "bool option"

definition gameHeader :: "coins \<Rightarrow> gameStatus \<Rightarrow> bool \<Rightarrow> headerView" where
  "gameHeader c st loading =
     \<lparr>balanceDollars = dollarValue c, balanceCoins = real_of_int c, maxPrize = (''2.50K'', ''50M''),
      headerCashOut = cashOutButton st c loading\<rparr>"

subsection \<open>\<open>GameCell\<close>\<close>

text \<open>\<open>handleClick\<close>: the position handed to \<open>onCellClick\<close>, if any.\<close>

definition handleClick :: "cell \<Rightarrow> cellPosition \<Rightarrow> bool \<Rightarrow> cellPosition option" where
  "handleClick c p isGameActive = (if \<not> isRevealed c \<and> isGameActive then Some p else None)"

definition cellDisabled :: "cell \<Rightarrow> bool \<Rightarrow> bool" where
  "cellDisabled c isGameActive \<longleftrightarrow> isRevealed c \<or> \<not> isGameActive"

datatype cellClass = ClassCell | ClassRevealed | ClassWin | ClassMine | ClassInner | ClassFlipped

definition cellClasses :: "cell \<Rightarrow> cellClass list" where
  "cellClasses c =
     ClassCell # (if isRevealed c then ClassRevealed # (if isWinning c then [ClassWin] else [ClassMine])
                  else [])"

definition cellInnerClasses :: "cell \<Rightarrow> cellClass list" where
  "cellInnerClasses c = ClassInner # (if isRevealed c then [ClassFlipped] else [])"

datatype cellFace = FaceBlank | FaceClover | FaceBomb

definition backContent :: "cell \<Rightarrow> cellFace" where
  "backContent c = (if \<not> isRevealed c then FaceBlank else if isWinning c then FaceClover else FaceBomb)"

definition animationDelay :: "cellPosition \<Rightarrow> real" where
  "animationDelay p = real_of_int (row p * 3 + col p) * (1 / 10)"

text \<open>A cell as rendered: its button's classes, click handler, disabled flag, label and
  animation delay, and the classes and faces of the flipping inner element.\<close>

record cellView =
  cellButtonClasses :: "cellClass list"
  cellOnClick :: "cellPosition option"
  cellButtonDisabled :: bool
  ariaLabel :: string
  cellDelay :: real
  cellInner :: "cellClass list"
  cellFront :: cellFace
  cellBack :: cellFace

definition gameCell :: "cell \<Rightarrow> cellPosition \<Rightarrow> bool \<Rightarrow> cellView" where
  "gameCell c p isGameActive =
     \<lparr>cellButtonClasses = cellClasses c, cellOnClick = handleClick c p isGameActive,
      cellButtonDisabled = cellDisabled c isGameActive,
      ariaLabel = ''Cell at row '' @ int_str (row p + 1) @ '', column '' @ int_str (col p + 1),
      cellDelay = animationDelay p, cellInner = cellInnerClasses c, cellFront = FaceBlank,
      cellBack = backContent c\<rparr>"

subsection \<open>\<open>GameBoard\<close>\<close>

definition boardCells :: "cell list list \<Rightarrow> (cellPosition \<times> cell) list" where
  "boardCells b =
     concat (mapi (\<lambda>rowIndex r. mapi (\<lambda>colIndex c.
       (\<lparr>row = int rowIndex, col = int colIndex\<rparr>, c)) r) b)"

datatype boardView = EmptyBoard | BoardGrid "(cellPosition \<times> cell) list"

definition gameBoard :: "cell list list \<Rightarrow> boardView" where
  "gameBoard b = (if length b = 0 then EmptyBoard else BoardGrid (boardCells b))"

text \<open>\<open>App\<close>'s derived flag, handed to the board as \<open>isGameActive\<close>.\<close>

definition isGameActive :: "gameState \<Rightarrow> bool" where
  "isGameActive gs \<longleftrightarrow> gameStatus gs = PLAYING"

subsection \<open>Lemmas\<close>

lemma gameControlsComponent_buttons:
  "map (\<lambda>(b, text, enabled). (b, enabled)) (gameControlsComponent st loading) = gameControls st loading"
  by (simp add: gameControlsComponent_def gameControls_def)

lemma gameFooterComponent_gameFooter:
  "map fst (fst (gameFooterComponent (currentCoins gs) (board gs) (gameStatus gs) (amountPerWin gs))) =
     fst (gameFooter gs) \<and>
   snd (gameFooterComponent (currentCoins gs) (board gs) (gameStatus gs) (amountPerWin gs)) = snd (gameFooter gs)"
  by (simp add: gameFooterComponent_def gameFooter_def footerTiers_def tierAchievements_def COIN_TIERS_def
      Let_def)


lemma in_set_mapi: "x \<in> set (mapi f xs) \<longleftrightarrow> (\<exists>i < length xs. x = f i (xs ! i))"
  by (auto simp: in_set_conv_nth)

lemma in_set_concat_mapi:
  "y \<in> set (concat (mapi f xs)) \<longleftrightarrow> (\<exists>i < length xs. y \<in> set (f i (xs ! i)))"
  by (auto simp: in_set_mapi) (metis length_mapi nth_mapi nth_mem)

lemma set_boardCells:
  "(p, c) \<in> set (boardCells b) \<longleftrightarrow>
     (\<exists>i j. i < length b \<and> j < length (b ! i) \<and> p = \<lparr>row = int i, col = int j\<rparr> \<and> c = b ! i ! j)"
  unfolding boardCells_def in_set_concat_mapi by (auto simp: in_set_mapi)

lemma boardCells_cell_at: "(p, c) \<in> set (boardCells b) \<longleftrightarrow> cell_at b p = Some c"
proof
  assume "(p, c) \<in> set (boardCells b)"
  then show "cell_at b p = Some c" by (auto simp: set_boardCells cell_at_def)
next
  assume a: "cell_at b p = Some c"
  then have "0 \<le> row p" "nat (row p) < length b" "0 \<le> col p"
    "nat (col p) < length (b ! nat (row p))" "c = b ! nat (row p) ! nat (col p)"
    by (auto simp: cell_at_def js_index_Some split: option.splits)
  then show "(p, c) \<in> set (boardCells b)"
    unfolding set_boardCells by (intro exI [of _ "nat (row p)"] exI [of _ "nat (col p)"]) simp
qed

text \<open>Dollars against a whole tier: rounding \<open>currentCoins / 100\<close> to a double never moves
  it across a whole number of dollars, so the footer's comparison is the exact one on coins.\<close>

lemma currentDollars_less_iff:
  assumes "0 < a" and "a < 2 ^ 40"
  shows "currentDollars c < real_of_int a \<longleftrightarrow> c < 100 * a"
proof
  assume lt: "currentDollars c < real_of_int a"
  show "c < 100 * a"
  proof (rule ccontr)
    assume "\<not> c < 100 * a"
    then have "real_of_int a \<le> real_of_int c / 100" by simp
    then have "real_of_int a \<le> currentDollars c"
      unfolding currentDollars_def by (rule dbl_above) (use assms in \<open>simp add: dbl_int\<close>)
    with lt show False by simp
  qed
next
  assume "c < 100 * a"
  then have "real_of_int c / 100 \<le> of_int (128 * a - 1) * 2 powi (-7)"
    by (simp add: power_int_minus field_simps)
  moreover have "dbl (of_int (128 * a - 1) * 2 powi (-7)) = of_int (128 * a - 1) * 2 powi (-7)"
    using assms by (intro dbl_exact) simp_all
  ultimately have "currentDollars c \<le> of_int (128 * a - 1) * 2 powi (-7)"
    unfolding currentDollars_def by (rule dbl_below)
  also have "\<dots> < real_of_int a" by (simp add: power_int_minus)
  finally show "currentDollars c < real_of_int a" .
qed

lemma nextTier_coins: "nextTier c = find (\<lambda>tier. c < 100 * tier_amount tier) COIN_TIERS"
  using currentDollars_less_iff [of 75 c] currentDollars_less_iff [of 100 c] currentDollars_less_iff [of 250 c]
  by (simp add: nextTier_def COIN_TIERS_def)

lemma coinsNeeded_round_bound:
  assumes c: "0 \<le> c" "c \<le> 120" and apw: "10 \<le> apw" "apw \<le> 15"
  shows "292 \<le> coinsNeeded 75 c apw"
proof -
  let ?N = "dbl (75 - currentDollars c)" and ?D = "dbl (real_of_int apw / 100)"
  have "currentDollars c \<le> 2"
    unfolding currentDollars_def using c dbl_int [of 2] by (intro dbl_below) simp_all
  then have n: "73 \<le> ?N"
    using dbl_int [of 73] by (intro dbl_above) simp_all
  have d: "?D \<le> 1/4"
    using apw dbl_exact [of 1 "-2"] by (intro dbl_below) (simp_all add: power_int_minus)
  have d0: "1/16 \<le> ?D"
    using apw dbl_exact [of 1 "-4"] by (intro dbl_above) (simp_all add: power_int_minus)
  have "292 * ?D \<le> ?N" using n d by linarith
  then have "292 \<le> ?N / ?D" using d0 by (simp add: le_divide_eq)
  then have "292 \<le> dbl (?N / ?D)"
    using dbl_int [of 292] by (intro dbl_above) simp_all
  then show ?thesis by (simp add: coinsNeeded_def le_ceiling_iff)
qed

text \<open>The error of the wins-needed quotient: the two roundings of its operands, of their
  difference and of the quotient keep the quotient times the reward within one coin of the
  exact distance to the tier.\<close>

lemma quotient_error:
  fixes N C W x2 x3 q u :: real
  assumes u: "u = 1 / 9007199254740992" and N: "1 \<le> N" "N \<le> 10 ^ 8" and C: "0 \<le> C" "C \<le> 10 ^ 8"
    and W: "1 \<le> W"
    and y: "(N - C * u) / 100 * (1 - u) \<le> x2" "x2 \<le> (N + C * u) / 100 * (1 + u)"
    and r: "W / 100 * (1 - u) \<le> x3" "x3 \<le> W / 100 * (1 + u)"
    and q: "x2 / x3 * (1 - u) \<le> q" "q \<le> x2 / x3 * (1 + u)"
  shows "N - 1 < q * W \<and> q * W < N + 1"
proof -
  have u0: "0 < u" "u < 1" using u by simp_all
  have "C * u < 1" unfolding u using C by simp
  then have ylo0: "0 < (N - C * u) / 100 * (1 - u)" using u0 N by simp
  have r0: "0 < W / 100 * (1 - u)" using u0 W by simp
  have "x2 / x3 \<le> (N + C * u) / 100 * (1 + u) / (W / 100 * (1 - u))"
    using y r ylo0 r0 by (intro frac_le) linarith+
  then have "q \<le> (N + C * u) / 100 * (1 + u) / (W / 100 * (1 - u)) * (1 + u)"
    using q(2) u0 by (meson less_eq_real_def mult_right_mono order_trans add_pos_pos zero_less_one)
  also have "\<dots> = (N + C * u) * (1 + u) * (1 + u) / (1 - u) / W"
    using u0 W by (simp add: field_simps)
  finally have "q * W \<le> (N + C * u) * (1 + u) * (1 + u) / (1 - u) / W * W"
    using W by (intro mult_right_mono) simp_all
  then have hi: "q * W \<le> (N + C * u) * (1 + u) * (1 + u) / (1 - u)" using W by simp
  have "(N - C * u) / 100 * (1 - u) / (W / 100 * (1 + u)) \<le> x2 / x3"
    using y r ylo0 r0 u0 W by (intro frac_le) linarith+
  then have "(N - C * u) / 100 * (1 - u) / (W / 100 * (1 + u)) * (1 - u) \<le> q"
    using q(1) u0 by (meson less_eq_real_def mult_right_mono order_trans diff_gt_0_iff_gt)
  moreover have "(N - C * u) / 100 * (1 - u) / (W / 100 * (1 + u)) * (1 - u) =
      (N - C * u) * (1 - u) * (1 - u) / (1 + u) / W"
  proof -
    have "W \<noteq> 0" "1 + u \<noteq> 0" using u0 W by simp_all
    then show ?thesis by (simp add: divide_simps)
  qed
  ultimately have "(N - C * u) * (1 - u) * (1 - u) / (1 + u) / W * W \<le> q * W"
    using W by (intro mult_right_mono) (simp_all add: ac_simps)
  then have lo: "(N - C * u) * (1 - u) * (1 - u) / (1 + u) \<le> q * W" using W by simp
  have "(N + C * u) * (1 + u) * (1 + u) / (1 - u) < N + 1"
    unfolding u using N C by (simp add: field_simps)
  moreover have "N - 1 < (N - C * u) * (1 - u) * (1 - u) / (1 + u)"
    unfolding u using N C by (simp add: field_simps)
  ultimately show ?thesis using hi lo by linarith
qed

lemma coinsNeeded_quotient:
  assumes c: "0 \<le> c" "c < 100 * amount" "amount \<le> 10 ^ 6" and w: "0 < apw" "apw \<le> 10 ^ 6"
  defines "q \<equiv> dbl (dbl (real_of_int amount - currentDollars c) / dbl (real_of_int apw / 100))"
  shows "real_of_int (100 * amount - c) - 1 < q * apw \<and> q * apw < real_of_int (100 * amount - c) + 1"
proof -
  define u where "u = (2::real) powi (-53)"
  have u: "u = 1 / 9007199254740992" by (simp add: u_def power_int_minus)
  have p30: "(2::real) powi (-30) = 1 / 1073741824" by (simp add: power_int_minus)
  define N where "N = real_of_int (100 * amount - c)"
  define y where "y = real_of_int amount - currentDollars c"
  define r3 where "r3 = real_of_int apw / 100"
  have N: "1 \<le> N" "N \<le> 10 ^ 8" using c by (simp_all add: N_def)
  have cr: "0 \<le> real_of_int c" "real_of_int c \<le> 10 ^ 8" using c by simp_all
  have wr: "1 \<le> real_of_int apw" "real_of_int apw \<le> 10 ^ 6" using w by simp_all
  have x1: "real_of_int c / 100 * (1 - u) \<le> currentDollars c \<and> currentDollars c \<le> real_of_int c / 100 * (1 + u)"
  proof (cases "c = 0")
    case True
    then show ?thesis by (simp add: currentDollars_def dbl_def)
  next
    case False
    then have "2 powi (-30) \<le> real_of_int c / 100" using c by (simp add: p30)
    then show ?thesis unfolding currentDollars_def u_def by (rule dbl_bounds)
  qed
  have "(N - real_of_int c * u) / 100 = real_of_int amount - real_of_int c / 100 * (1 + u)"
    "(N + real_of_int c * u) / 100 = real_of_int amount - real_of_int c / 100 * (1 - u)"
    by (simp_all add: N_def field_simps)
  then have y: "(N - real_of_int c * u) / 100 \<le> y" "y \<le> (N + real_of_int c * u) / 100"
    using x1 unfolding y_def by linarith+
  have "2 powi (-30) \<le> y" using y(1) N cr by (simp add: p30 u)
  note x2 = dbl_bounds [OF this, folded u_def]
  have "2 powi (-30) \<le> r3" using wr by (simp add: p30 r3_def)
  note x3 = dbl_bounds [OF this, folded u_def]
  have u0: "0 < u" "u < 1 / 10 ^ 15" by (simp_all add: u)
  have "(N - real_of_int c * u) / 100 * (1 - u) \<le> y * (1 - u)" using y(1) u0 by (intro mult_right_mono) simp_all
  moreover have "y * (1 + u) \<le> (N + real_of_int c * u) / 100 * (1 + u)" using y(2) u0 by (intro mult_right_mono) simp_all
  ultimately have x2': "(N - real_of_int c * u) / 100 * (1 - u) \<le> dbl y" "dbl y \<le> (N + real_of_int c * u) / 100 * (1 + u)"
    using x2 by linarith+
  have "1 / 200 \<le> (N - real_of_int c * u) / 100 * (1 - u)" unfolding u using N cr by (simp add: field_simps)
  then have "1 / 200 \<le> dbl y" using x2' by linarith
  moreover have "r3 * (1 + u) \<le> 2 * 10 ^ 4" "0 < r3 * (1 - u)" unfolding u r3_def using wr by simp_all
  then have "dbl r3 \<le> 2 * 10 ^ 4" "0 < dbl r3" using x3 by linarith+
  ultimately have "1 / 200 / (2 * 10 ^ 4) \<le> dbl y / dbl r3" by (intro frac_le) simp_all
  then have "2 powi (-30) \<le> dbl y / dbl r3" by (simp add: p30)
  note x4 = dbl_bounds [OF this, folded u_def]
  have x3': "real_of_int apw / 100 * (1 - u) \<le> dbl r3" "dbl r3 \<le> real_of_int apw / 100 * (1 + u)"
    using x3 by (simp_all add: r3_def)
  have "q = dbl (dbl y / dbl r3)" by (simp add: q_def y_def r3_def)
  moreover have "N - 1 < dbl (dbl y / dbl r3) * real_of_int apw \<and> dbl (dbl y / dbl r3) * real_of_int apw < N + 1"
    by (rule quotient_error [OF u N cr wr(1) x2' x3' x4 [THEN conjunct1] x4 [THEN conjunct2]])
  ultimately have "N - 1 < q * real_of_int apw \<and> q * real_of_int apw < N + 1" by simp
  then show ?thesis by (simp add: N_def)
qed

lemma count_cells_compl:
  "count_cells P g + count_cells (\<lambda>x. \<not> P x) g = length (concat g)"
  by (simp add: count_cells_def sum_length_filter_compl)

lemma board_ok_safe_cells:
  assumes "board_ok b" and "b \<noteq> []"
  shows "safe_cells b = 9 - grid_mines (layout b)" and "5 \<le> safe_cells b" and "safe_cells b \<le> 8"
proof -
  from assms have g: "is_grid 3 (layout b)" and m: "1 \<le> grid_mines (layout b)" "grid_mines (layout b) \<le> 4"
    by (simp_all add: board_ok_def game_config)
  have "safe_cells b + grid_mines (layout b) = 9"
    using count_cells_compl [of "\<lambda>w. w" "layout b"] length_concat_grid [OF g]
    by (simp add: safe_cells_layout grid_mines_def)
  with m show "safe_cells b = 9 - grid_mines (layout b)" and "5 \<le> safe_cells b" and "safe_cells b \<le> 8"
    by simp_all
qed

lemma gameProgress_playing:
  "b \<noteq> [] \<Longrightarrow> gameProgress PLAYING b =
     \<lparr>found = found_safe b, total = safe_cells b, remaining = max 0 (int (safe_cells b) - int (found_safe b))\<rparr>"
  by (simp add: gameProgress_def found_safe_def safe_cells_def count_cells_def Let_def)

lemma nextTier_below:
  "c < 7500 \<Longrightarrow> nextTier c = Some (hd COIN_TIERS)"
  by (simp add: nextTier_coins COIN_TIERS_def)

lemma reachable_hook_inv: "reachable s \<Longrightarrow> hook_inv (hook s)"
  using reachable_inv by (simp add: session_inv_def)

text \<open>The coins of a reachable state never exceed the largest reward times the most safe
  cells a board can have.\<close>

lemma hook_inv_coins:
  assumes "hook_inv hs"
  shows "0 \<le> currentCoins (gameState hs)" and "currentCoins (gameState hs) \<le> 120"
proof -
  let ?gs = "gameState hs"
  from assms have c: "currentCoins ?gs = roundWinnings ?gs" "0 \<le> roundWinnings ?gs"
    and w: "roundWinnings ?gs \<le> amountPerWin ?gs * int (safe_cells (board ?gs))"
    and a: "amountPerWin ?gs \<le> 15" and ok: "board_ok (board ?gs)"
    by (simp_all add: hook_inv_def Let_def game_config)
  have "safe_cells (board ?gs) \<le> 8"
    using ok board_ok_safe_cells(3) [OF ok] by (cases "board ?gs = []") (simp_all add: safe_cells_def count_cells_def)
  then have "amountPerWin ?gs * int (safe_cells (board ?gs)) \<le> 15 * 8"
    using a w c by (intro mult_mono) simp_all
  with c w show "0 \<le> currentCoins ?gs" and "currentCoins ?gs \<le> 120" by simp_all
qed

subsection \<open>Properties of the views\<close>

text \<open>Claim C10. The footer's progress agrees with the session: in every reachable state of a
  round in progress, the safe cells it counts as found times the reward are the coins shown,
  its total is the number of safe cells of the board (the 9 cells less the mines, 5 to 8),
  and the remaining count is the total less the found ones.\<close>

theorem footer_progress_consistent:
  assumes "reachable s" and "gameStatus (gameState (hook s)) = PLAYING"
  shows "let gs = gameState (hook s); prog = gameProgress (gameStatus gs) (board gs) in
     amountPerWin gs * int (found prog) = currentCoins gs \<and>
     total prog = BOARD_SIZE * BOARD_SIZE - grid_mines (layout (board gs)) \<and>
     5 \<le> total prog \<and> total prog \<le> 8 \<and> found prog \<le> total prog \<and>
     remaining prog = int (total prog) - int (found prog)"
proof -
  let ?gs = "gameState (hook s)"
  from reachable_hook_inv [OF assms(1)] assms(2)
  have ne: "board ?gs \<noteq> []" and ok: "board_ok (board ?gs)"
    and w: "currentCoins ?gs = amountPerWin ?gs * int (found_safe (board ?gs))"
    by (simp_all add: hook_inv_def Let_def)
  note sc = board_ok_safe_cells [OF ok ne]
  show ?thesis
    using w sc found_le_safe [of "board ?gs"] assms(2)
    by (simp add: gameProgress_playing [OF ne] Let_def BOARD_SIZE_def)
qed

text \<open>Claim C9. The footer never shows a tier's progress: coins are in cents of the tiers'
  dollars, and a round pays at most 120 coins, so in every reachable state of a round in
  progress the label is \<open>ALL FOUND!\<close> once every safe cell is revealed and otherwise
  \<open>NEXT: $75\<close> with the number of safe cells left, never a smaller count of wins needed.\<close>

theorem footer_playing_label:
  assumes "reachable s" and "gameStatus (gameState (hook s)) = PLAYING"
  shows "snd (gameFooter (gameState (hook s))) =
     (if found_safe (board (gameState (hook s))) = safe_cells (board (gameState (hook s))) then AllFound
      else NextTier 75 (int (safe_cells (board (gameState (hook s)))) -
                        int (found_safe (board (gameState (hook s))))))"
proof -
  let ?gs = "gameState (hook s)" and ?b = "board (gameState (hook s))"
  let ?c = "currentCoins ?gs" and ?apw = "amountPerWin ?gs"
  let ?rem = "int (safe_cells ?b) - int (found_safe ?b)"
  have inv: "hook_inv (hook s)" by (rule reachable_hook_inv [OF assms(1)])
  with assms(2) have ne: "?b \<noteq> []" and ok: "board_ok ?b" and apw: "10 \<le> ?apw" "?apw \<le> 15"
    by (simp_all add: hook_inv_def Let_def game_config)
  have c: "0 \<le> ?c" "?c \<le> 120" using hook_inv_coins [OF inv] by simp_all
  note sc = board_ok_safe_cells [OF ok ne]
  have fs: "found_safe ?b \<le> safe_cells ?b" by (rule found_le_safe)
  have tier: "nextTier ?c = Some (hd COIN_TIERS)" using c by (intro nextTier_below) simp
  have wins: "winsNeeded 75 ?c ?apw ?rem = ?rem" if "0 < ?rem"
  proof -
    have "?rem \<le> 292" using sc fs by simp
    also have "\<dots> \<le> coinsNeeded 75 ?c ?apw" using c apw by (rule coinsNeeded_round_bound)
    finally show ?thesis using apw by (simp add: winsNeeded_def)
  qed
  show ?thesis
    using sc fs tier wins assms(2)
    by (auto simp: gameFooter_def nextPrizeInfo_def gameProgress_playing [OF ne] Let_def COIN_TIERS_def)
qed

text \<open>Claim C22. No coin tier is ever marked achieved: in every reachable state the footer's
  three tier markers are all off.\<close>

theorem reachable_no_tier_achieved:
  assumes "reachable s"
  shows "fst (gameFooter (gameState (hook s))) = [False, False, False]"
  using hook_inv_coins [OF reachable_hook_inv [OF assms]]
  by (simp add: gameFooter_def tierAchievements_def COIN_TIERS_def Let_def)

text \<open>The next prize the footer announces is the first tier whose marker is off:
  \<open>COIN_TIERS.find\<close> on dollars selects tier \<open>i\<close> exactly when the coin comparison of
  \<open>tierAchievements\<close> leaves tier \<open>i\<close> unlit and every lower tier lit, and selects none
  when all are lit.\<close>

theorem nextTier_first_unlit:
  "(\<forall>i < length COIN_TIERS. nextTier c = Some (COIN_TIERS ! i) \<longleftrightarrow>
      \<not> tierAchievements c ! i \<and> (\<forall>j < i. tierAchievements c ! j)) \<and>
   (nextTier c = None \<longleftrightarrow> (\<forall>j < length COIN_TIERS. tierAchievements c ! j))"
  by (auto simp: nextTier_coins tierAchievements_def COIN_TIERS_def less_Suc_eq numeral_3_eq_3)

lemma js_round_int [simp]: "js_round (real_of_int i) = i"
  by (simp add: js_round_def)

text \<open>Claim C11. The footer's double arithmetic asks for the least number of rewards that
  lifts the coins to a tier or for one more, never fewer: for coins from 0 up to the tier, a
  positive reward (tiers and rewards up to a million), \<open>coinsNeeded\<close> rewards reach the tier
  and two fewer do not. The one more happens: at 24 coins, a reward of 12 and the $75 tier,
  623 rewards reach 7500 coins, but the rounded quotient lies above 623 and \<open>Math.ceil\<close>
  gives 624.\<close>

theorem coinsNeeded_within_one:
  assumes "0 \<le> c" "c < 100 * amount" "amount \<le> 10 ^ 6" "0 < apw" "apw \<le> 10 ^ 6"
  shows "100 * amount \<le> c + coinsNeeded amount c apw * apw \<and>
         c + (coinsNeeded amount c apw - 2) * apw < 100 * amount"
proof -
  define q where "q = dbl (dbl (real_of_int amount - currentDollars c) / dbl (real_of_int apw / 100))"
  define n where "n = coinsNeeded amount c apw"
  have n: "n = \<lceil>q\<rceil>" by (simp add: n_def q_def coinsNeeded_def)
  have b: "real_of_int (100 * amount - c) - 1 < q * real_of_int apw"
          "q * real_of_int apw < real_of_int (100 * amount - c) + 1"
    using coinsNeeded_quotient [OF assms] by (simp_all add: q_def)
  have w: "0 < real_of_int apw" "1 \<le> real_of_int apw" using assms by simp_all
  have "q * real_of_int apw \<le> real_of_int n * real_of_int apw"
    using w n by (intro mult_right_mono) simp_all
  then have "real_of_int (100 * amount - c - 1) < real_of_int (n * apw)" using b(1) by simp
  then have lo: "100 * amount \<le> c + n * apw" by linarith
  have "real_of_int (n - 2) < q - 1" using n by linarith
  then have "real_of_int (n - 2) * real_of_int apw < (q - 1) * real_of_int apw"
    using w by (intro mult_strict_right_mono) simp_all
  then have "real_of_int ((n - 2) * apw) < real_of_int (100 * amount - c)"
    using b(2) w by (simp add: algebra_simps)
  then have "c + (n - 2) * apw < 100 * amount" by linarith
  with lo show ?thesis by (simp add: n_def)
qed

text \<open>Claim C27. Once its numbers have settled, the header labelled BALANCE prints the round's
  coins, not the bankroll: in every reachable state the dollars read as the coins' whole
  hundreds, a point and two cent digits (at most 1.20, beside a MAX PRIZE of 2.50K), and the
  coins in decimal.\<close>

theorem header_balance_text:
  assumes "reachable s"
  shows "let c = currentCoins (gameState (hook s));
             h = gameHeader c (gameStatus (gameState (hook s))) (isLoading (gameState (hook s)))
         in formattedValue 2 (balanceDollars h) =
              nat_str (nat c div 100) @ ''.'' @ [digit_char (nat c div 10 mod 10), digit_char (nat c mod 10)] \<and>
            nat c div 100 \<le> 1 \<and> formattedValue 0 (balanceCoins h) = nat_str (nat c) \<and>
            maxPrize h = (''2.50K'', ''50M'')"
proof -
  let ?c = "currentCoins (gameState (hook s))"
  have c: "0 \<le> ?c" "?c \<le> 120"
    using hook_inv_coins [OF reachable_hook_inv [OF assms]] by simp_all
  then have "nat ?c div 100 \<le> 1" by simp
  with c show ?thesis
    by (simp add: gameHeader_def formattedValue_def dollarValue_def toFixed_cents int_str_def Let_def)
qed

text \<open>Claim C23. The header's cash-out button and the hook's \<open>canCashOut\<close> agree: the header
  tests \<open>currentCoins > 0\<close> and the hook \<open>roundWinnings > 0\<close>; in every reachable state
  the button is rendered exactly when \<open>canCashOut\<close> holds, and is then enabled.\<close>

theorem header_cashout_agrees:
  assumes "reachable s"
  shows "cashOutButton (gameStatus (gameState (hook s))) (currentCoins (gameState (hook s)))
           (isLoading (gameState (hook s))) =
         (if canCashOut (gameState (hook s)) then Some True else None)"
  using reachable_hook_inv [OF assms]
  by (auto simp: cashOutButton_def header_canCashOut_def canCashOut_def hook_inv_def Let_def)

end
