(* ===== verification/App.thy ===== *)
theory App
  imports Views
begin

text \<open>
  The page as \<open>App\<close> assembles it (\<open>src/src/App.tsx\<close>): the hook's session, the
  cash-out modal's own state (\<open>CashOutModal.tsx\<close>: its \<open>stage\<close> and the pending
  \<open>setTimeout\<close> callbacks of \<open>handleConfirm\<close>), and the user's clicks as events. A click
  reaches a callback only through a button that is rendered and enabled; a click on
  anything else does nothing. \<open>ui_step\<close> dispatches each event to the callback \<open>App\<close>
  wires to that button, so every step of the page is a step of the session machine of
  \<open>Session\<close> or leaves the session unchanged.

  Nothing in the components disables the board, the header or the controls while the modal
  is open, and no stylesheet is part of the sources, so the model lets every rendered, enabled
  button be activated (by pointer or by keyboard focus) whatever the modal shows. The
  2-second delay of \<open>handleConfirm\<close> is not timed: the pending callback may fire after any
  number of other events.
\<close>

subsection \<open>\<open>CashOutModal\<close>\<close>

datatype stage = Confirm | Celebrating | Complete

text \<open>What the modal renders: nothing when closed, else its stage's panel with the coins.\<close>

datatype modalView = ModalConfirm coins | ModalCelebrating coins | ModalComplete coins

definition cashOutModal :: "bool \<Rightarrow> stage \<Rightarrow> coins \<Rightarrow> modalView option" where
  "cashOutModal isOpen st c =
     (if \<not> isOpen then None
      else Some (case st of Confirm \<Rightarrow> ModalConfirm c | Celebrating \<Rightarrow> ModalCelebrating c
                          | Complete \<Rightarrow> ModalComplete c))"

text \<open>The amount every stage prints: the coins as dollars with two decimals.\<close>

definition dollarAmount :: "coins \<Rightarrow> string" where
  "dollarAmount c = toFixed (real_of_int c / 100) 2"

subsection \<open>The page\<close>

record ui =
  ses :: session
  stage :: stage
  timers :: nat

definition initialUi :: "draws \<Rightarrow> ui" where
  "initialUi rs = \<lparr>ses = initialSession rs, stage = Confirm, timers = 0\<rparr>"

datatype ui_event =
    ClickStart
  | ClickRestart
  | ClickCell cellPosition
  | ClickCashOut
  | ClickKeepPlaying
  | ClickConfirm
  | ConfirmTimeout
  | ClickPlayAgain

text \<open>The modal's effect on \<open>[isOpen]\<close>: when the modal opens, its stage returns to
  \<open>confirm\<close>. React runs it before the next event when the opening came from a click. The
  model applies it with the opening update, so the render before it, in which a reopened
  modal still shows its previous stage, is not a state of the model.\<close>

definition modal_effect :: "bool \<Rightarrow> ui \<Rightarrow> ui" where
  "modal_effect wasOpen u =
     (if \<not> wasOpen \<and> showCashOutModal (hook (ses u)) then u\<lparr>stage := Confirm\<rparr> else u)"

text \<open>A hook callback called from the page: the session step, then the modal's effect.\<close>

definition ui_session :: "ui \<Rightarrow> session_op \<Rightarrow> (js_error + ui) option" where
  "ui_session u op =
     map_option (map_sum id (\<lambda>s'. modal_effect (showCashOutModal (hook (ses u))) (u\<lparr>ses := s'\<rparr>)))
       (session_step (ses u) op)"

text \<open>Which events a rendered, enabled button offers.\<close>

definition ui_enabled :: "ui \<Rightarrow> ui_event \<Rightarrow> bool" where
  "ui_enabled u e =
     (let hs = hook (ses u); gs = gameState hs;
          modal = cashOutModal (showCashOutModal hs) (stage u) (currentCoins gs)
      in case e of
           ClickStart \<Rightarrow> (StartButton, True) \<in> set (gameControls (gameStatus gs) (isLoading gs))
         | ClickRestart \<Rightarrow> (RestartButton, True) \<in> set (gameControls (gameStatus gs) (isLoading gs))
         | ClickCell p \<Rightarrow>
             (case gameBoard (board gs) of
                EmptyBoard \<Rightarrow> False
              | BoardGrid cs \<Rightarrow> list_ex (\<lambda>(q, c). q = p \<and> \<not> cellDisabled c (isGameActive gs)) cs)
         | ClickCashOut \<Rightarrow> cashOutButton (gameStatus gs) (currentCoins gs) (isLoading gs) = Some True
         | ClickKeepPlaying \<Rightarrow> modal = Some (ModalConfirm (currentCoins gs))
         | ClickConfirm \<Rightarrow> modal = Some (ModalConfirm (currentCoins gs))
         | ConfirmTimeout \<Rightarrow> 0 < timers u
         | ClickPlayAgain \<Rightarrow> modal = Some (ModalComplete (currentCoins gs)))"

text \<open>The callback \<open>App\<close> wires to each button. A cell click goes through the cell's
  \<open>handleClick\<close> and the board's \<open>handleCellClick\<close> to \<open>flipCell\<close>; the modal's confirm
  button sets the stage to \<open>celebrating\<close> and schedules the timeout, which sets the stage
  to \<open>complete\<close> and calls \<open>confirmCashOut\<close>.\<close>

fun ui_dispatch :: "ui \<Rightarrow> ui_event \<Rightarrow> (js_error + ui) option" where
  "ui_dispatch u ClickStart = ui_session u StartRound"
| "ui_dispatch u ClickRestart = ui_session u ResetSession"
| "ui_dispatch u (ClickCell p) =
     (let gs = gameState (hook (ses u))
      in case find (\<lambda>(q, c). q = p) (boardCells (board gs)) of
           None \<Rightarrow> Some (Inr u)
         | Some (q, c) \<Rightarrow>
             (case handleClick c q (isGameActive gs) of
                None \<Rightarrow> Some (Inr u)
              | Some position \<Rightarrow> ui_session u (Flip position)))"
| "ui_dispatch u ClickCashOut = ui_session u InitiateCashOut"
| "ui_dispatch u ClickKeepPlaying = ui_session u CancelCashOut"
| "ui_dispatch u ClickConfirm = Some (Inr (u\<lparr>stage := Celebrating, timers := timers u + 1\<rparr>))"
| "ui_dispatch u ConfirmTimeout = ui_session (u\<lparr>stage := Complete, timers := timers u - 1\<rparr>) ConfirmCashOut"
| "ui_dispatch u ClickPlayAgain = ui_session u StartNewRound"

definition ui_step :: "ui \<Rightarrow> ui_event \<Rightarrow> (js_error + ui) option" where
  "ui_step u e = (if ui_enabled u e then ui_dispatch u e else Some (Inr u))"

fun ui_run :: "ui \<Rightarrow> ui_event list \<Rightarrow> (js_error + ui) option" where
  "ui_run u [] = Some (Inr u)"
| "ui_run u (e # es) =
     (case ui_step u e of
        None \<Rightarrow> None
      | Some (Inl err) \<Rightarrow> Some (Inl err)
      | Some (Inr u') \<Rightarrow> ui_run u' es)"

inductive ui_reachable :: "ui \<Rightarrow> bool" where
  init: "valid_draws rs \<Longrightarrow> ui_reachable (initialUi rs)"
| step: "ui_reachable u \<Longrightarrow> ui_step u e = Some (Inr u') \<Longrightarrow> ui_reachable u'"

subsection \<open>The page's invariant\<close>

text \<open>The page offers no bet control, so the bet stays \<open>DEFAULT_BET\<close>; it starts a round only
  from the idle state, which only the initial state and \<open>resetGame\<close> produce; and an open
  modal never shows its \<open>complete\<close> stage.\<close>

definition ui_hook_ok :: "hookState \<Rightarrow> bool" where
  "ui_hook_ok hs \<longleftrightarrow>
     (let gs = gameState hs in
      currentBet gs = DEFAULT_BET \<and>
      (gameStatus gs = IDLE \<longrightarrow> sessionBalance gs = STARTING_BALANCE) \<and>
      (gameStatus gs = PLAYING \<longrightarrow> sessionBalance gs = STARTING_BALANCE - DEFAULT_BET))"

definition modal_ok :: "ui \<Rightarrow> bool" where
  "modal_ok u \<longleftrightarrow> (showCashOutModal (hook (ses u)) \<longrightarrow> stage u \<noteq> Complete)"

definition ui_inv :: "ui \<Rightarrow> bool" where
  "ui_inv u \<longleftrightarrow> ui_hook_ok (hook (ses u)) \<and> modal_ok u"

subsection \<open>Every page step is a session step\<close>

lemma ses_modal_effect [simp]: "ses (modal_effect w u) = ses u"
  by (simp add: modal_effect_def)

lemma ui_session_Some:
  assumes "ui_session u op = Some r"
  obtains z where "session_step (ses u) op = Some z"
    and "r = map_sum id (\<lambda>s'. modal_effect (showCashOutModal (hook (ses u))) (u\<lparr>ses := s'\<rparr>)) z"
  using assms by (auto simp: ui_session_def)

lemma ui_session_Inr:
  assumes "ui_session u op = Some (Inr u')"
  shows "session_step (ses u) op = Some (Inr (ses u'))"
proof (rule ui_session_Some [OF assms])
  fix z assume "session_step (ses u) op = Some z"
    and "Inr u' = map_sum id (\<lambda>s'. modal_effect (showCashOutModal (hook (ses u))) (u\<lparr>ses := s'\<rparr>)) z"
  then show ?thesis by (cases z) auto
qed

lemma ui_session_Inl:
  assumes "ui_session u op = Some (Inl err)"
  shows "session_step (ses u) op = Some (Inl err)"
proof (rule ui_session_Some [OF assms])
  fix z assume "session_step (ses u) op = Some z"
    and "Inl err = map_sum id (\<lambda>s'. modal_effect (showCashOutModal (hook (ses u))) (u\<lparr>ses := s'\<rparr>)) z"
  then show ?thesis by (cases z) auto
qed

lemma ui_step_session:
  assumes "ui_step u e = Some (Inr u')"
  shows "ses u' = ses u \<or> (\<exists>op. session_step (ses u) op = Some (Inr (ses u')))"
  using assms
  by (cases e) (auto simp del: session_step.simps simp: ui_step_def Let_def
      split: if_splits option.splits prod.splits dest!: ui_session_Inr)

lemma session_step_Inl:
  "session_step s op = Some (Inl err) \<Longrightarrow> \<exists>p. op = Flip p \<and> flipCell p (hook s) = Inl err"
  by (cases op) (auto split: sum.splits)

lemma flipCell_Inl: "flipCell p hs = Inl err \<Longrightarrow> cell_at (board (gameState hs)) p = None"
  by (auto simp: flipCell_def Let_def split: if_splits option.splits)

lemma find_Some_set: "find P xs = Some x \<Longrightarrow> x \<in> set xs"
  by (auto simp: find_Some_iff)

lemma ui_session_InrE:
  assumes "ui_session u op = Some (Inr u')"
  shows "u' = modal_effect (showCashOutModal (hook (ses u))) (u\<lparr>ses := ses u'\<rparr>)"
proof (rule ui_session_Some [OF assms])
  fix z assume "session_step (ses u) op = Some z"
    and "Inr u' = map_sum id (\<lambda>s'. modal_effect (showCashOutModal (hook (ses u))) (u\<lparr>ses := s'\<rparr>)) z"
  then show ?thesis by (cases z) auto
qed

subsection \<open>The invariant is kept\<close>

lemma modal_ok_ui_session:
  assumes "modal_ok u" and "ui_session u op = Some (Inr u')"
  shows "modal_ok u'"
  using assms(1) ui_session_InrE [OF assms(2)]
  by (cases u') (auto simp: modal_ok_def modal_effect_def split: if_splits)

lemma modal_initializeGame_begin [simp]:
  "showCashOutModal (initializeGame_begin hs) = showCashOutModal hs"
  by (simp add: initializeGame_begin_def Let_def)

lemma modal_initializeGame_success [simp]:
  "showCashOutModal (initializeGame_success g hs) = showCashOutModal hs"
  by (simp add: initializeGame_success_def Let_def)

lemma initializeGame_modal:
  "initializeGame s = Some s' \<Longrightarrow> showCashOutModal (hook s') = showCashOutModal (hook s)"
  by (auto simp: initializeGame_Some)

lemma flipCell_frame:
  assumes "flipCell p hs = Inr hs'"
  shows "showCashOutModal hs' = showCashOutModal hs \<and> currentBet (gameState hs') = currentBet (gameState hs) \<and>
    sessionBalance (gameState hs') = sessionBalance (gameState hs) \<and>
    (gameStatus (gameState hs') = gameStatus (gameState hs) \<or> gameStatus (gameState hs') = LOST)"
  using assms by (cases rule: flipCell_cases) simp_all

lemma ui_hook_ok_initialHook: "ui_hook_ok initialHook"
  by (simp add: ui_hook_ok_def initialHook_def initialGameState_def)

lemma ui_hook_ok_start:
  assumes ok: "ui_hook_ok (hook s)" and idle: "gameStatus (gameState (hook s)) = IDLE"
    and st: "initializeGame s = Some s'"
  shows "ui_hook_ok (hook s')"
proof -
  from st obtain g where h: "hook s' = initializeGame_success g (initializeGame_begin (hook s))"
    by (auto simp: initializeGame_Some)
  from ok idle have "sessionBalance (gameState (hook s)) = STARTING_BALANCE"
    "currentBet (gameState (hook s)) = DEFAULT_BET"
    by (simp_all add: ui_hook_ok_def Let_def)
  then show ?thesis by (simp add: h ui_hook_ok_def initializeGame_state game_config)
qed

lemma ui_hook_ok_flip:
  "ui_hook_ok hs \<Longrightarrow> flipCell p hs = Inr hs' \<Longrightarrow> ui_hook_ok hs'"
  by (drule flipCell_frame) (auto simp: ui_hook_ok_def Let_def)

lemma ui_hook_ok_ops:
  "ui_hook_ok hs \<Longrightarrow> ui_hook_ok (initiateCashOut hs)"
  "ui_hook_ok hs \<Longrightarrow> ui_hook_ok (cancelCashOut hs)"
  "ui_hook_ok hs \<Longrightarrow> ui_hook_ok (confirmCashOut hs)"
  "ui_hook_ok (resetGame hs)"
  by (simp_all add: ui_hook_ok_def initiateCashOut_def cancelCashOut_def confirmCashOut_def resetGame_def
      initialGameState_def Let_def)

text \<open>The session operations the page calls keep \<open>ui_hook_ok\<close>; a round is started only
  from the idle state.\<close>

lemma ui_hook_ok_session_step:
  assumes ok: "ui_hook_ok (hook s)" and st: "session_step s op = Some (Inr s')"
    and op: "op \<in> {ResetSession, InitiateCashOut, CancelCashOut, ConfirmCashOut} \<or> (\<exists>p. op = Flip p) \<or>
             (op = StartRound \<and> gameStatus (gameState (hook s)) = IDLE)"
  shows "ui_hook_ok (hook s')"
  using op
proof (elim disjE exE conjE)
  fix p assume "op = Flip p"
  with st ok show ?thesis by (auto split: sum.splits intro: ui_hook_ok_flip)
next
  assume "op = StartRound" and "gameStatus (gameState (hook s)) = IDLE"
  with st ok show ?thesis by (auto intro: ui_hook_ok_start)
qed (use st ok in \<open>auto simp: ui_hook_ok_ops\<close>)

lemma ui_inv_ui_session:
  assumes "ui_inv u" and "ui_session u op = Some (Inr u')"
    and "op \<in> {ResetSession, InitiateCashOut, CancelCashOut} \<or> (\<exists>p. op = Flip p) \<or>
         (op = StartRound \<and> gameStatus (gameState (hook (ses u))) = IDLE)"
  shows "ui_inv u'"
  using assms ui_hook_ok_session_step [OF _ ui_session_Inr [OF assms(2)]] modal_ok_ui_session [OF _ assms(2)]
  by (auto simp: ui_inv_def)

lemma ui_enabled_start: "ui_enabled u ClickStart \<Longrightarrow> gameStatus (gameState (hook (ses u))) = IDLE"
  by (simp add: ui_enabled_def gameControls_def showStartButton_def showResetButton_def Let_def split: if_splits)

lemma ui_enabled_play_again:
  "ui_enabled u ClickPlayAgain \<Longrightarrow> showCashOutModal (hook (ses u)) \<and> stage u = Complete"
  by (auto simp: ui_enabled_def cashOutModal_def Let_def split: if_splits stage.splits)

lemma ui_dispatch_cell:
  assumes "ui_dispatch u (ClickCell p) = Some r"
  shows "r = Inr u \<or> (\<exists>q c. find (\<lambda>(q, c). q = p) (boardCells (board (gameState (hook (ses u))))) = Some (q, c) \<and>
            ui_session u (Flip q) = Some r)"
  using assms by (auto simp: Let_def handleClick_def split: option.splits if_splits)

lemma ui_inv_step:
  assumes inv: "ui_inv u" and st: "ui_step u e = Some (Inr u')"
  shows "ui_inv u'"
proof (cases "ui_enabled u e")
  case False
  with st inv show ?thesis by (simp add: ui_step_def)
next
  case en: True
  with st have d: "ui_dispatch u e = Some (Inr u')" by (simp add: ui_step_def)
  show ?thesis
  proof (cases e)
    case ClickStart
    with d en inv show ?thesis by (auto intro: ui_inv_ui_session dest: ui_enabled_start)
  next
    case (ClickCell p)
    from d ClickCell have "ui_dispatch u (ClickCell p) = Some (Inr u')" by (simp only:)
    from ui_dispatch_cell [OF this] inv show ?thesis by (auto intro: ui_inv_ui_session)
  next
    case ConfirmTimeout
    with d have "ses u' = (ses u)\<lparr>hook := confirmCashOut (hook (ses u))\<rparr>"
      by (auto dest!: ui_session_Inr)
    moreover from inv have "ui_hook_ok (confirmCashOut (hook (ses u)))"
      by (simp add: ui_inv_def ui_hook_ok_ops)
    moreover have "\<not> showCashOutModal (confirmCashOut (hook (ses u)))"
      by (simp add: confirmCashOut_def Let_def)
    ultimately show ?thesis by (simp add: ui_inv_def modal_ok_def)
  next
    case ClickPlayAgain
    with en inv show ?thesis by (auto simp: ui_inv_def modal_ok_def dest: ui_enabled_play_again)
  next
    case ClickConfirm
    with d inv show ?thesis by (auto simp: ui_inv_def modal_ok_def)
  qed (use d inv in \<open>auto intro: ui_inv_ui_session\<close>)
qed

lemma ui_inv_initialUi: "ui_inv (initialUi rs)"
  by (simp add: ui_inv_def modal_ok_def initialUi_def initialSession_def ui_hook_ok_def initialHook_def
      initialGameState_def)

lemma ui_reachable_inv: "ui_reachable u \<Longrightarrow> ui_inv u"
  by (induction rule: ui_reachable.induct) (auto intro: ui_inv_initialUi ui_inv_step)

lemma ui_step_Inl_cell:
  assumes "ui_step u e = Some (Inl err)"
  obtains p q c where "e = ClickCell p"
    and "find (\<lambda>(q, c). q = p) (boardCells (board (gameState (hook (ses u))))) = Some (q, c)"
    and "ui_session u (Flip q) = Some (Inl err)"
proof (cases e)
  case (ClickCell p)
  with assms have "ui_step u (ClickCell p) = Some (Inl err)" by (simp only:)
  then have "ui_dispatch u (ClickCell p) = Some (Inl err)" by (simp only: ui_step_def split: if_splits) simp
  from ui_dispatch_cell [OF this] ClickCell that show ?thesis by auto
qed (use assms in \<open>auto simp: ui_step_def split: if_splits dest!: ui_session_Inl session_step_Inl\<close>)

lemma ui_reachable_session: "ui_reachable u \<Longrightarrow> reachable (ses u)"
proof (induction rule: ui_reachable.induct)
  case (init rs)
  then show ?case by (simp add: initialUi_def reachable.init)
next
  case (step u e u')
  from ui_step_session [OF step.hyps(2)] step.IH show ?case by (auto intro: reachable.step)
qed

subsection \<open>Properties of the page\<close>

text \<open>Claim C2. No click throws: the board hands each cell its own position, a cell is
  clickable only where \<open>cell_at\<close> finds it, and \<open>flipCell\<close> throws only for a position
  where it finds no cell; the other callbacks never throw.\<close>

theorem ui_never_throws: "ui_step u e \<noteq> Some (Inl err)"
proof
  assume "ui_step u e = Some (Inl err)"
  then show False
  proof (rule ui_step_Inl_cell)
    fix p q c
    assume f: "find (\<lambda>(q, c). q = p) (boardCells (board (gameState (hook (ses u))))) = Some (q, c)"
      and s: "ui_session u (Flip q) = Some (Inl err)"
    from session_step_Inl [OF ui_session_Inl [OF s]] have "flipCell q (hook (ses u)) = Inl err" by simp
    moreover from find_Some_set [OF f] have "cell_at (board (gameState (hook (ses u)))) q = Some c"
      by (simp add: boardCells_cell_at)
    ultimately show False by (simp add: flipCell_Inl)
  qed
qed

text \<open>Claim C26. The modal announces one amount and the bankroll receives another: when the
  confirm stage is shown it prints the round's coins as dollars (the whole hundreds, a point
  and two cent digits, at most 1.20), but confirming and letting its timeout fire credits the
  bet \<open>DEFAULT_BET\<close> plus the coins to the bankroll.\<close>

theorem modal_amount_not_credited:
  assumes "ui_reachable u" and "ui_enabled u ClickConfirm"
  shows "let gs = gameState (hook (ses u)); c = currentCoins gs in
    cashOutModal (showCashOutModal (hook (ses u))) (stage u) c = Some (ModalConfirm c) \<and>
    dollarAmount c =
      nat_str (nat c div 100) @ ''.'' @ [digit_char (nat c div 10 mod 10), digit_char (nat c mod 10)] \<and>
    nat c div 100 \<le> 1 \<and>
    (\<exists>u'. ui_run u [ClickConfirm, ConfirmTimeout] = Some (Inr u') \<and>
       sessionBalance (gameState (hook (ses u'))) = sessionBalance gs + DEFAULT_BET + c)"
proof -
  let ?hs = "hook (ses u)"
  let ?gs = "gameState ?hs"
  let ?c = "currentCoins ?gs"
  have inv: "hook_inv ?hs" using reachable_hook_inv [OF ui_reachable_session [OF assms(1)]] .
  have c: "0 \<le> ?c" "?c \<le> 120" using hook_inv_coins [OF inv] by simp_all
  have w: "roundWinnings ?gs = ?c" using inv by (simp add: hook_inv_def Let_def)
  have b: "currentBet ?gs = DEFAULT_BET"
    using ui_reachable_inv [OF assms(1)] by (simp add: ui_inv_def ui_hook_ok_def Let_def)
  have m: "cashOutModal (showCashOutModal ?hs) (stage u) ?c = Some (ModalConfirm ?c)"
    using assms(2) by (simp add: ui_enabled_def Let_def)
  have run: "ui_run u [ClickConfirm, ConfirmTimeout] =
      Some (Inr (modal_effect (showCashOutModal ?hs)
        (u\<lparr>stage := Complete, timers := timers u, ses := (ses u)\<lparr>hook := confirmCashOut ?hs\<rparr>\<rparr>)))"
    using assms(2) by (simp add: ui_step_def ui_enabled_def ui_session_def Let_def)
  have "sessionBalance (gameState (confirmCashOut ?hs)) = sessionBalance ?gs + DEFAULT_BET + ?c"
    using w b by (simp add: confirmCashOut_def Let_def)
  moreover have "nat ?c div 100 \<le> 1" using c by simp
  ultimately show ?thesis
    using run m c by (simp add: dollarAmount_def toFixed_cents Let_def)
qed

end
