(* ===== verification/Async.thy ===== *)
theory Async
  imports Session
begin

text \<open>
  The hook with its asynchronous round start (\<open>initializeGame\<close> in
  \<open>src/src/hooks/useGame.ts\<close>). \<open>initializeGame\<close> applies its first update, then awaits
  \<open>fetchBoard\<close>, which waits \<open>API_DELAY_MS\<close> before drawing the board; only when the answer
  arrives does the success (or, on a rejection, the failure) update run, on whatever state
  the hook holds then. \<open>startNewRound\<close> closes the modal and schedules \<open>initializeGame\<close>
  200 ms later. In between, every other callback may run. The state counts the requests in
  flight and the scheduled starts; an answer is an event of its own, so any interleaving of
  callbacks and answers is a run. The draws for a board are taken when its answer arrives.
  Delays are not timed: any pending answer may arrive after any number of other events.
  The lemmas show that a loading hook ignores reveals and cash-out requests, and, as concrete traces, what
  the missing guards allow: repeated starts, a stale answer, a cash-out during a load.
\<close>

record async =
  ahook :: hookState
  arng :: draws
  inflight :: nat
  delayed :: nat

datatype async_event =
    Call session_op
  | DelayedStart
  | Answer
  | Reject

definition to_async :: "session \<Rightarrow> async" where
  "to_async s = \<lparr>ahook = hook s, arng = rng s, inflight = 0, delayed = 0\<rparr>"

definition async_session :: "async \<Rightarrow> session" where
  "async_session a = \<lparr>hook = ahook a, rng = arng a\<rparr>"

text \<open>\<open>initializeGame\<close> up to its \<open>await\<close>: the first update, and one more request in flight.\<close>

definition request :: "async \<Rightarrow> async" where
  "request a = a\<lparr>ahook := initializeGame_begin (ahook a), inflight := inflight a + 1\<rparr>"

text \<open>A synchronous callback other than a round start runs as in the session machine.
  \<open>StartRoundUnavailable\<close> is the same call as \<open>StartRound\<close>: only the provider's answer
  (a rejection) differs.\<close>

fun async_step :: "async \<Rightarrow> async_event \<Rightarrow> (js_error + async) option" where
  "async_step a (Call op) =
     (case op of
        StartRound \<Rightarrow> Some (Inr (request a))
      | StartRoundUnavailable \<Rightarrow> Some (Inr (request a))
      | StartNewRound \<Rightarrow> Some (Inr (a\<lparr>ahook := startNewRound (ahook a), delayed := delayed a + 1\<rparr>))
      | _ \<Rightarrow> map_option (map_sum id (\<lambda>s'. a\<lparr>ahook := hook s', arng := rng s'\<rparr>))
               (session_step (async_session a) op))"
| "async_step a DelayedStart =
     (if delayed a = 0 then Some (Inr a) else Some (Inr (request (a\<lparr>delayed := delayed a - 1\<rparr>))))"
| "async_step a Answer =
     (if inflight a = 0 then Some (Inr a)
      else case fetchBoard (arng a) of
             None \<Rightarrow> None
           | Some (gameData, rs') \<Rightarrow>
               Some (Inr (a\<lparr>ahook := initializeGame_success gameData (ahook a), arng := rs',
                           inflight := inflight a - 1\<rparr>)))"
| "async_step a Reject =
     (if inflight a = 0 then Some (Inr a)
      else Some (Inr (a\<lparr>ahook := initializeGame_failure (ahook a), inflight := inflight a - 1\<rparr>)))"

fun async_run :: "async \<Rightarrow> async_event list \<Rightarrow> (js_error + async) option" where
  "async_run a [] = Some (Inr a)"
| "async_run a (e # es) =
     (case async_step a e of
        None \<Rightarrow> None
      | Some (Inl err) \<Rightarrow> Some (Inl err)
      | Some (Inr a') \<Rightarrow> async_run a' es)"

inductive async_reachable :: "async \<Rightarrow> bool" where
  init: "valid_draws rs \<Longrightarrow> async_reachable (to_async (initialSession rs))"
| step: "async_reachable a \<Longrightarrow> async_step a e = Some (Inr a') \<Longrightarrow> async_reachable a'"

text \<open>While a request is loading, the status is idle or (after a cash-out confirmed meanwhile)
  cashed out, and a request is in flight.\<close>

definition loading_ok :: "async \<Rightarrow> bool" where
  "loading_ok a \<longleftrightarrow>
     (isLoading (gameState (ahook a)) \<longrightarrow>
        0 < inflight a \<and> gameStatus (gameState (ahook a)) \<in> {IDLE, CASHED_OUT})"

subsection \<open>The hook of a session\<close>

lemma async_session_to_async [simp]: "async_session (to_async s) = s"
  by (simp add: async_session_def to_async_def)

lemma to_async_update [simp]:
  "(to_async s)\<lparr>ahook := hook s', arng := rng s'\<rparr> = to_async s'"
  by (simp add: to_async_def)

subsection \<open>The loading invariant\<close>

lemma loading_ok_request: "loading_ok a \<Longrightarrow> loading_ok (request a)"
  by (simp add: loading_ok_def request_def initializeGame_begin_def Let_def)

lemma loading_ok_sync:
  assumes "loading_ok a" and "session_step (async_session a) op = Some (Inr s')"
    and "op \<notin> {StartRound, StartRoundUnavailable, StartNewRound}"
  shows "loading_ok (a\<lparr>ahook := hook s', arng := rng s'\<rparr>)"
  using assms
proof (cases op)
  case (Flip p)
  with assms(2) obtain hs' where f: "flipCell p (ahook a) = Inr hs'" and h: "hook s' = hs'"
    by (auto simp: async_session_def split: sum.splits)
  show ?thesis
  proof (cases "isLoading (gameState (ahook a))")
    case True
    with assms(1) have "gameStatus (gameState (ahook a)) \<noteq> PLAYING" by (auto simp: loading_ok_def)
    with f h assms(1) show ?thesis by (auto simp: flipCell_not_playing loading_ok_def)
  next
    case False
    with f h show ?thesis by (cases rule: flipCell_cases) (simp_all add: loading_ok_def)
  qed
qed (auto simp: loading_ok_def async_session_def setBetAmount_def initiateCashOut_def confirmCashOut_def
    cancelCashOut_def resetGame_def initialGameState_def Let_def split: if_splits)

lemma loading_ok_step:
  assumes "loading_ok a" and "async_step a e = Some (Inr a')"
  shows "loading_ok a'"
proof (cases e)
  case (Call op)
  show ?thesis
  proof (cases "op \<in> {StartRound, StartRoundUnavailable, StartNewRound}")
    case True
    with assms Call show ?thesis
      by (auto simp: loading_ok_request) (auto simp: loading_ok_def startNewRound_def)
  next
    case False
    with assms Call obtain s' where "session_step (async_session a) op = Some (Inr s')"
      and "a' = a\<lparr>ahook := hook s', arng := rng s'\<rparr>"
      by (cases op) (auto split: option.splits sum.splits)
    with assms(1) False show ?thesis by (simp add: loading_ok_sync)
  qed
next
  case DelayedStart
  have "loading_ok (a\<lparr>delayed := d\<rparr>)" for d using assms(1) by (simp add: loading_ok_def)
  with assms DelayedStart show ?thesis by (auto split: if_splits intro: loading_ok_request)
qed (use assms in \<open>auto simp: loading_ok_def initializeGame_success_def initializeGame_failure_def Let_def
      split: if_splits option.splits\<close>)

lemma async_reachable_loading_ok: "async_reachable a \<Longrightarrow> loading_ok a"
proof (induction rule: async_reachable.induct)
  case (init rs)
  then show ?case
    by (simp add: loading_ok_def to_async_def initialSession_def initialHook_def initialGameState_def)
next
  case (step a e a')
  from step.IH step.hyps(2) show ?case by (rule loading_ok_step)
qed

subsection \<open>A provider that always draws 0\<close>

definition zero_game :: game where
  "zero_game = \<lparr>game_board = [[False, True, True], [True, True, True], [True, True, True]],
                game_amountPerWin = 11\<rparr>"

lemma valid_draws_zero: "valid_draws (sconst 0)"
  by (simp add: valid_draws_sconst random_draw_def)

lemma fetchBoard_zero: "fetchBoard (sconst 0) = Some (zero_game, sconst 0)"
proof -
  have z: "sconst (0::real) = 0 ## sconst 0" by (metis siterate.code id_apply)
  have p: "positions_loop 9 (Suc 0) [] (sconst 0) = Some ([0], sconst 0)"
    by (subst z) (simp add: positions_loop_step positions_loop_stop set_add_def)
  show ?thesis
    by (simp add: fetchBoard_def generateRandomBoard_eq p mine_count_of_def MIN_MINES_def
        place_mine_def board0_eq BOARD_SIZE_def generateRandomWinAmount_def floor_draw_def zero_game_def
        BASE_AMOUNT_PER_WIN_def)
qed

subsection \<open>Properties of the asynchronous hook\<close>

text \<open>Claim C14. While a round start is loading, a request is in flight and revealing a cell
  and opening the cash-out are no-ops, as the spec requires: the first update of
  \<open>initializeGame\<close> sets the status to idle, and only a cash-out confirmed meanwhile
  changes it, to cashed out.\<close>

theorem async_loading_noops:
  assumes "async_reachable a" and "isLoading (gameState (ahook a))"
  shows "0 < inflight a \<and> flipCell p (ahook a) = Inr (ahook a) \<and> initiateCashOut (ahook a) = ahook a"
proof -
  from async_reachable_loading_ok [OF assms(1)] assms(2)
  have "0 < inflight a" and st: "gameStatus (gameState (ahook a)) \<in> {IDLE, CASHED_OUT}"
    by (simp_all add: loading_ok_def)
  then show ?thesis
    by (auto simp: flipCell_not_playing initiateCashOut_def canCashOut_def)
qed

text \<open>Claim C15. Round starts are not serialised: \<open>initializeGame\<close> has no guard against a
  request in flight, so five calls before the provider answers each pass the bankroll check
  of the first update, and the five answers each debit the bet: the bankroll ends at -25.
  The spec allows one round start in flight and never a negative bankroll.\<close>

theorem async_double_start_negative_bankroll:
  "\<exists>a. async_run (to_async (initialSession (sconst 0)))
          (replicate 5 (Call StartRound) @ replicate 5 Answer) = Some (Inr a) \<and>
        gameStatus (gameState (ahook a)) = PLAYING \<and> sessionBalance (gameState (ahook a)) = -25 \<and>
        inflight a = 0"
  by (simp add: numeral_eq_Suc to_async_def initialSession_def initialHook_def initialGameState_def
      request_def initializeGame_begin_def initializeGame_success_def fetchBoard_zero Let_def game_config)

text \<open>Claim C16. A stale answer is applied: after a round start and a reset, the provider's
  answer still starts a round on the reset session, debiting the bet; the spec asks that an
  answer arriving after a reset be dropped.\<close>

theorem async_stale_answer_applied:
  "\<exists>a. async_run (to_async (initialSession (sconst 0))) [Call StartRound, Call ResetSession, Answer] =
          Some (Inr a) \<and>
        gameStatus (gameState (ahook a)) = PLAYING \<and> sessionBalance (gameState (ahook a)) = 75 \<and>
        board (gameState (ahook a)) = createGameBoard (game_board zero_game)"
  by (simp add: to_async_def initialSession_def initialHook_def initialGameState_def async_session_def
      request_def initializeGame_begin_def initializeGame_success_def resetGame_def fetchBoard_zero
      Let_def game_config zero_game_def)

text \<open>Claim C17. A cash-out confirmed while a round start is loading pays a bet that was never
  staked: \<open>confirmCashOut\<close> has no status guard, so during the load it credits the bet and
  the empty winnings (the session shows CASHED_OUT with 125), and the provider's answer then
  starts the round, debiting the bet from the inflated bankroll. On the page this is the
  modal's pending timeout firing after a lost round was restarted and a new one started.\<close>

theorem async_cashout_while_loading:
  "\<exists>a b. async_run (to_async (initialSession (sconst 0))) [Call StartRound, Call ConfirmCashOut] =
            Some (Inr a) \<and>
          gameStatus (gameState (ahook a)) = CASHED_OUT \<and> isLoading (gameState (ahook a)) \<and>
          sessionBalance (gameState (ahook a)) = 125 \<and> totalCashedOut (sessionStats (ahook a)) = 25 \<and>
          async_step a Answer = Some (Inr b) \<and>
          gameStatus (gameState (ahook b)) = PLAYING \<and> sessionBalance (gameState (ahook b)) = 100"
  by (simp add: to_async_def initialSession_def initialHook_def initialGameState_def initialStats_def
      async_session_def request_def initializeGame_begin_def initializeGame_success_def
      confirmCashOut_def fetchBoard_zero Let_def game_config)

end
