(* ===== verification/Board_Keys.thy ===== *)
theory Board_Keys
  imports Views
begin

text \<open>
  The cell ids of \<open>createGameBoard\<close> (\<open>src/src/hooks/useGame.ts\<close>): the string
  \<open>cell-${rowIndex}-${colIndex}\<close>, which \<open>GameBoard\<close> uses as each cell's React key. The
  indices are printed by \<open>nat_str\<close> of the prelude, whose digits never contain the
  separator \<open>-\<close> and determine the number, so the keys of a board are distinct as soon as
  its ids are. A board is well formed when every cell carries the id of
  its own position; every reachable board is.
\<close>

definition cell_key :: "cell_id \<Rightarrow> string" where
  "cell_key i = (case i of CellId r c \<Rightarrow> ''cell-'' @ nat_str r @ ''-'' @ nat_str c)"

text \<open>A decimal digit, by its character code.\<close>

definition is_digit :: "char \<Rightarrow> bool" where
  "is_digit ch \<longleftrightarrow> 48 \<le> (of_char ch :: nat) \<and> (of_char ch :: nat) < 58"

text \<open>The ids a board carries, and well-formedness: each cell has the id of its position.\<close>

definition cell_ids :: "cell list list \<Rightarrow> cell_id list list" where
  "cell_ids b = map (map cellId) b"

definition wf_board :: "cell list list \<Rightarrow> bool" where
  "wf_board b \<longleftrightarrow> cell_ids b = mapi (\<lambda>i r. mapi (\<lambda>j _. CellId i j) r) (cell_ids b)"

text \<open>The keys \<open>GameBoard\<close> gives the cells it renders.\<close>

definition board_keys :: "cell list list \<Rightarrow> string list" where
  "board_keys b = map (\<lambda>(p, c). cell_key (cellId c)) (boardCells b)"

text \<open>The board as rendered: the placeholder for an empty board, else each cell rendered by
  \<open>GameCell\<close> under its key; \<open>handleCellClick\<close> hands the position on unchanged.\<close>

datatype boardRender = EmptyBoardView | GridView "(string \<times> cellView) list"

definition gameBoardComponent :: "cell list list \<Rightarrow> bool \<Rightarrow> boardRender" where
  "gameBoardComponent b active =
     (if length b = 0 then EmptyBoardView
      else GridView (map (\<lambda>(p, c). (cell_key (cellId c), gameCell c p active)) (boardCells b)))"

subsection \<open>Digits\<close>

lemma of_char_digit [simp]: "d < 10 \<Longrightarrow> (of_char (digit_char d) :: nat) = 48 + d"
  by (simp add: digit_char_def)

lemma is_digit_digit_char: "d < 10 \<Longrightarrow> is_digit (digit_char d)"
  by (simp add: is_digit_def)

lemma nat_str_digits: "list_all is_digit (nat_str n)"
proof (induction n rule: nat_str.induct)
  case (1 n)
  then show ?case by (cases "n < 10") (simp_all add: nat_str.simps [of n] is_digit_digit_char)
qed

lemma nat_str_value: "foldl (\<lambda>acc ch. 10 * acc + (of_char ch - 48)) 0 (nat_str n) = n"
proof (induction n rule: nat_str.induct)
  case (1 n)
  then show ?case by (cases "n < 10") (simp_all add: nat_str.simps [of n])
qed

lemma no_dash_nat_str: "x \<in> set (nat_str n) \<Longrightarrow> x \<noteq> CHR ''-''"
  using nat_str_digits [of n] by (auto simp: list_all_iff is_digit_def)

lemma takeWhile_nat_str_sep:
  "\<not> is_digit ch \<Longrightarrow> takeWhile (\<lambda>x. x \<noteq> ch) (nat_str r @ ch # y) = nat_str r"
proof -
  assume ch: "\<not> is_digit ch"
  have "\<forall>x \<in> set (nat_str r). x \<noteq> ch" using nat_str_digits [of r] ch by (auto simp: list_all_iff)
  then show ?thesis by (simp add: takeWhile_append2)
qed

lemma takeWhile_nat_str:
  "takeWhile (\<lambda>ch. ch \<noteq> CHR ''-'') (nat_str r @ CHR ''-'' # x) = nat_str r"
  by (rule takeWhile_nat_str_sep) (simp add: is_digit_def)

lemma nat_str_inj: "nat_str m = nat_str n \<Longrightarrow> m = n"
  by (metis nat_str_value)

text \<open>Two numbers printed around a separator that is not a digit are read back from the
  string.\<close>

lemma sep_body_inj:
  assumes ch: "\<not> is_digit ch" and h: "nat_str a @ ch # xs @ nat_str b = nat_str c @ ch # xs @ nat_str d"
  shows "a = c \<and> b = d"
proof -
  have "nat_str a = nat_str c"
    using arg_cong [OF h, of "takeWhile (\<lambda>x. x \<noteq> ch)"] by (simp only: takeWhile_nat_str_sep [OF ch])
  with h show ?thesis by (auto dest: nat_str_inj)
qed

lemma key_body_inj:
  "nat_str a @ CHR ''-'' # nat_str b = nat_str c @ CHR ''-'' # nat_str d \<Longrightarrow> a = c \<and> b = d"
  using sep_body_inj [of "CHR ''-''" a "[]" b c d] by (simp add: is_digit_def)

lemma cell_key_inj: "cell_key i = cell_key j \<Longrightarrow> i = j"
  by (cases i; cases j) (auto simp: cell_key_def dest: key_body_inj)

subsection \<open>Ids of a board\<close>

lemma cell_ids_revealCellAt [simp]: "cell_ids (revealCellAt p b) = cell_ids b"
  by (rule nth_equalityI) (auto simp: cell_ids_def nth_revealCellAt intro!: nth_equalityI split: if_splits)

lemma cell_ids_revealAllCells [simp]: "cell_ids (revealAllCells b) = cell_ids b"
  by (simp add: cell_ids_def revealAllCells_def comp_def)

lemma wf_board_revealCellAt [simp]: "wf_board (revealCellAt p b) = wf_board b"
  by (simp add: wf_board_def)

lemma wf_board_revealAllCells [simp]: "wf_board (revealAllCells b) = wf_board b"
  by (simp add: wf_board_def)

lemma wf_board_createGameBoard: "wf_board (createGameBoard g)"
  unfolding wf_board_def
  by (rule nth_equalityI) (auto simp: cell_ids_def createGameBoard_def intro!: nth_equalityI)

lemma wf_board_Nil [simp]: "wf_board []"
  by (simp add: wf_board_def cell_ids_def)

lemma wf_board_flipCell:
  "flipCell p hs = Inr hs' \<Longrightarrow> wf_board (board (gameState hs)) \<Longrightarrow> wf_board (board (gameState hs'))"
  by (erule flipCell_cases) auto

lemma wf_board_session_step:
  assumes wf: "wf_board (board (gameState (hook s)))" and st: "session_step s op = Some (Inr s')"
  shows "wf_board (board (gameState (hook s')))"
proof (cases op)
  case (Flip p)
  with st wf show ?thesis by (auto split: sum.splits intro: wf_board_flipCell)
next
  case StartRound
  with st show ?thesis
    by (auto simp: initializeGame_Some initializeGame_state wf_board_createGameBoard Let_def)
next
  case StartNewRound
  with st show ?thesis
    by (auto simp: initializeGame_Some initializeGame_state wf_board_createGameBoard Let_def)
next
  case ConfirmCashOut
  with st wf show ?thesis
    by (auto simp: confirmCashOut_def Let_def)
qed (use st wf in \<open>auto simp: setBetAmount_state initializeGame_unavailable_def initializeGame_begin_def
      initializeGame_failure_def initiateCashOut_def cancelCashOut_def resetGame_def initialGameState_def
      Let_def\<close>)

lemma reachable_wf_board: "reachable s \<Longrightarrow> wf_board (board (gameState (hook s)))"
proof (induction rule: reachable.induct)
  case (init rs)
  then show ?case by (simp add: initialSession_def initialHook_def initialGameState_def)
next
  case (step s op s')
  then show ?case by (blast intro: wf_board_session_step)
qed

subsection \<open>Keys\<close>

lemma map_mapi: "map g (mapi f xs) = mapi (\<lambda>i x. g (f i x)) xs"
  by (rule nth_equalityI) simp_all

lemma mapi_upt: "mapi f xs = map (\<lambda>i. f i (xs ! i)) [0..<length xs]"
  by (rule nth_equalityI) simp_all

lemma board_keys_ids: "board_keys b = map cell_key (concat (cell_ids b))"
  by (simp add: board_keys_def boardCells_def cell_ids_def map_concat map_mapi comp_def)

lemma distinct_grid:
  assumes "\<And>i j i' j'. g i j = g i' j' \<Longrightarrow> i = i' \<and> j = j'"
  shows "distinct (concat (map (\<lambda>i. map (g i) [0..<m i]) [0..<n]))"
  by (induction n) (auto simp: distinct_map inj_on_def dest: assms)

lemma distinct_rows: "distinct (concat (map (\<lambda>i. map (CellId i) [0..<m i]) [0..<n]))"
  by (rule distinct_grid) simp

lemma wf_board_distinct_ids:
  assumes "wf_board b"
  shows "distinct (concat (cell_ids b))"
proof -
  have "cell_ids b = map (\<lambda>i. map (CellId i) [0..<length (cell_ids b ! i)]) [0..<length (cell_ids b)]"
    using assms unfolding wf_board_def mapi_upt by simp
  then show ?thesis by (metis distinct_rows)
qed

lemma gameBoardComponent_keys:
  "gameBoardComponent b a = GridView xs \<Longrightarrow> map fst xs = board_keys b"
  by (auto simp: gameBoardComponent_def board_keys_def case_prod_beta split: if_splits)

lemma inj_cell_key: "inj cell_key"
  by (rule injI) (rule cell_key_inj)

lemma int_str_nonneg: "0 \<le> i \<Longrightarrow> int_str i = nat_str (nat i)"
  by (simp add: int_str_def)

lemma label_inj:
  assumes "0 \<le> row p" "0 \<le> col p" "0 \<le> row q" "0 \<le> col q"
    and "ariaLabel (gameCell c p act) = ariaLabel (gameCell c' q act')"
  shows "p = q"
proof -
  have "nat_str (nat (row p + 1)) @ CHR '','' # '' column '' @ nat_str (nat (col p + 1)) =
        nat_str (nat (row q + 1)) @ CHR '','' # '' column '' @ nat_str (nat (col q + 1))"
    using assms by (simp add: gameCell_def int_str_nonneg)
  then have "nat (row p + 1) = nat (row q + 1) \<and> nat (col p + 1) = nat (col q + 1)"
    by (rule sep_body_inj [rotated]) (simp add: is_digit_def)
  then show ?thesis using assms by (simp add: cellPosition_eq_iff eq_nat_nat_iff)
qed

lemma boardCells_nonneg: "p \<in> fst ` set (boardCells b) \<Longrightarrow> 0 \<le> row p \<and> 0 \<le> col p"
  by (auto simp: set_boardCells)

lemma boardCells_positions:
  "map fst (boardCells b) =
     concat (map (\<lambda>i. map (\<lambda>j. \<lparr>row = int i, col = int j\<rparr>) [0..<length (b ! i)]) [0..<length b])"
  by (simp add: boardCells_def map_concat map_mapi mapi_upt comp_def)

text \<open>The cells of a board carry pairwise distinct accessible labels
  \<open>Cell at row r, column c\<close>: the 1-based indices are printed in decimal and read back from
  the label, and the board hands each cell its own position.\<close>

theorem board_labels_distinct:
  "distinct (map (\<lambda>(p, c). ariaLabel (gameCell c p act)) (boardCells b))"
proof -
  have pos: "distinct (map fst (boardCells b))"
    unfolding boardCells_positions by (rule distinct_grid) simp
  have "inj_on (\<lambda>p. ariaLabel (gameCell c p act)) (fst ` set (boardCells b))" for c
  proof (rule inj_onI)
    fix p q
    assume "p \<in> fst ` set (boardCells b)" "q \<in> fst ` set (boardCells b)"
      and "ariaLabel (gameCell c p act) = ariaLabel (gameCell c q act)"
    then show "p = q" using boardCells_nonneg label_inj by meson
  qed
  then have inj: "inj_on (\<lambda>p. ariaLabel (gameCell undefined p act)) (set (map fst (boardCells b)))"
    by simp
  have eq: "map (\<lambda>(p, c). ariaLabel (gameCell c p act)) (boardCells b) =
      map (\<lambda>p. ariaLabel (gameCell undefined p act)) (map fst (boardCells b))"
    by (simp add: gameCell_def case_prod_beta comp_def)
  show ?thesis unfolding eq by (intro distinct_map [THEN iffD2] conjI pos inj)
qed

text \<open>Claim C18. Every reachable board is well formed, each cell carrying the id of its own
  position, and the React keys \<open>GameBoard\<close> gives its cells are pairwise distinct.\<close>

theorem reachable_board_keys:
  assumes "reachable s"
  shows "wf_board (board (gameState (hook s))) \<and> distinct (board_keys (board (gameState (hook s))))"
proof -
  have wf: "wf_board (board (gameState (hook s)))" using assms by (rule reachable_wf_board)
  then show ?thesis
    by (simp add: board_keys_ids distinct_map inj_on_subset [OF inj_cell_key] wf_board_distinct_ids)
qed

end
