(* ===== verification/App_Async.thy ===== *)
theory App_Async
  imports App Async
begin

text \<open>
  The page of \<open>App\<close> (\<open>src/src/App.tsx\<close>) over the asynchronous hook of \<open>Async\<close>: a click
  reaches the callback \<open>App\<close> wires to a rendered, enabled button, as in \<open>App\<close>, but a round
  start only runs \<open>initializeGame\<close> up to its \<open>await\<close>, and the provider's answer (or
  rejection) and \<open>startNewRound\<close>'s timer are events of their own, interleaved with the
  clicks and the modal's timeout. The page renders from the hook's state (\<open>page_ui\<close>), so
  which buttons are enabled is \<open>App\<close>'s \<open>ui_enabled\<close>. The events of the composition are the
  page's clicks and the environment's answers, as in a composition of two event systems.
\<close>

record apage =
  hk :: async
  astage :: stage
  atimers :: nat

datatype page_event = Click ui_event | StartTimer | ProviderAnswer | ProviderReject

definition to_apage :: "ui \<Rightarrow> apage" where
  "to_apage u = \<lparr>hk = to_async (ses u), astage = stage u, atimers = timers u\<rparr>"

text \<open>What \<open>App\<close> renders from: the hook's state and the modal's own state.\<close>

definition page_ui :: "apage \<Rightarrow> ui" where
  "page_ui p = \<lparr>ses = async_session (hk p), stage = astage p, timers = atimers p\<rparr>"

text \<open>The modal's effect on \<open>[isOpen]\<close> after any change of the hook's state.\<close>

definition apage_effect :: "bool \<Rightarrow> apage \<Rightarrow> apage" where
  "apage_effect wasOpen p =
     (if \<not> wasOpen \<and> showCashOutModal (ahook (hk p)) then p\<lparr>astage := Confirm\<rparr> else p)"

definition apage_hook :: "apage \<Rightarrow> async_event \<Rightarrow> (js_error + apage) option" where
  "apage_hook p e =
     map_option (map_sum id (\<lambda>a'. apage_effect (showCashOutModal (ahook (hk p))) (p\<lparr>hk := a'\<rparr>)))
       (async_step (hk p) e)"

fun apage_dispatch :: "apage \<Rightarrow> ui_event \<Rightarrow> (js_error + apage) option" where
  "apage_dispatch p ClickStart = apage_hook p (Call StartRound)"
| "apage_dispatch p ClickRestart = apage_hook p (Call ResetSession)"
| "apage_dispatch p (ClickCell pos) =
     (let gs = gameState (ahook (hk p))
      in case find (\<lambda>(q, c). q = pos) (boardCells (board gs)) of
           None \<Rightarrow> Some (Inr p)
         | Some (q, c) \<Rightarrow>
             (case handleClick c q (isGameActive gs) of
                None \<Rightarrow> Some (Inr p)
              | Some position \<Rightarrow> apage_hook p (Call (Flip position))))"
| "apage_dispatch p ClickCashOut = apage_hook p (Call InitiateCashOut)"
| "apage_dispatch p ClickKeepPlaying = apage_hook p (Call CancelCashOut)"
| "apage_dispatch p ClickConfirm = Some (Inr (p\<lparr>astage := Celebrating, atimers := atimers p + 1\<rparr>))"
| "apage_dispatch p ConfirmTimeout =
     apage_hook (p\<lparr>astage := Complete, atimers := atimers p - 1\<rparr>) (Call ConfirmCashOut)"
| "apage_dispatch p ClickPlayAgain = apage_hook p (Call StartNewRound)"

fun apage_step :: "apage \<Rightarrow> page_event \<Rightarrow> (js_error + apage) option" where
  "apage_step p (Click e) = (if ui_enabled (page_ui p) e then apage_dispatch p e else Some (Inr p))"
| "apage_step p StartTimer = apage_hook p DelayedStart"
| "apage_step p ProviderAnswer = apage_hook p Answer"
| "apage_step p ProviderReject = apage_hook p Reject"

fun apage_run :: "apage \<Rightarrow> page_event list \<Rightarrow> (js_error + apage) option" where
  "apage_run p [] = Some (Inr p)"
| "apage_run p (e # es) =
     (case apage_step p e of
        None \<Rightarrow> None
      | Some (Inl err) \<Rightarrow> Some (Inl err)
      | Some (Inr p') \<Rightarrow> apage_run p' es)"

subsection \<open>Errors on the asynchronous page\<close>

lemma map_sum_id_Inl [simp]: "map_sum id f z = Inl err \<longleftrightarrow> z = Inl err"
  by (cases z) simp_all

lemma async_step_Inl:
  "async_step a e = Some (Inl err) \<Longrightarrow> \<exists>q. e = Call (Flip q) \<and> flipCell q (ahook a) = Inl err"
proof (cases e)
  case (Call op)
  moreover assume "async_step a e = Some (Inl err)"
  ultimately show ?thesis
    by (cases op) (auto simp: async_session_def split: sum.splits)
qed (auto split: if_splits option.splits)

lemma apage_hook_Inl:
  "apage_hook p e = Some (Inl err) \<Longrightarrow> \<exists>q. e = Call (Flip q) \<and> flipCell q (ahook (hk p)) = Inl err"
proof -
  assume "apage_hook p e = Some (Inl err)"
  then have "async_step (hk p) e = Some (Inl err)"
    by (auto simp: apage_hook_def)
  then show ?thesis by (rule async_step_Inl)
qed

text \<open>Claim C12. No event of the asynchronous page throws: the provider's answers and the timers
  never do, and of the callbacks only \<open>flipCell\<close> can, for a position where it finds no cell;
  a cell click reaches it only with the position of a cell the board renders.\<close>

theorem apage_never_throws: "apage_step p e \<noteq> Some (Inl err)"
proof
  assume a: "apage_step p e = Some (Inl err)"
  show False
  proof (cases e)
    case (Click ev)
    show False
    proof (cases ev)
      case (ClickCell pos)
      with a Click obtain q c position where
          f: "find (\<lambda>(q, c). q = pos) (boardCells (board (gameState (ahook (hk p))))) = Some (q, c)"
        and h: "handleClick c q (isGameActive (gameState (ahook (hk p)))) = Some position"
        and s: "apage_hook p (Call (Flip position)) = Some (Inl err)"
        by (auto simp: Let_def split: if_splits option.splits prod.splits)
      from h have "position = q" by (simp add: handleClick_def split: if_splits)
      with apage_hook_Inl [OF s] have "cell_at (board (gameState (ahook (hk p)))) q = None"
        by (auto dest: flipCell_Inl)
      moreover from find_Some_set [OF f] have "cell_at (board (gameState (ahook (hk p)))) q = Some c"
        by (simp add: boardCells_cell_at)
      ultimately show False by simp
    qed (use a Click in \<open>auto split: if_splits dest: apage_hook_Inl\<close>)
  qed (use a in \<open>auto dest: apage_hook_Inl\<close>)
qed

subsection \<open>The modal's timeout during a load\<close>

lemmas page_trace_defs = ui_enabled_def page_ui_def async_session_def gameControls_def showStartButton_def
  showResetButton_def apage_hook_def apage_effect_def request_def initializeGame_begin_def
  initializeGame_success_def initiateCashOut_def canCashOut_def cashOutButton_def header_canCashOut_def
  cashOutModal_def resetGame_def confirmCashOut_def to_apage_def to_async_def initialUi_def
  initialSession_def initialHook_def initialGameState_def initialStats_def Let_def game_config
  fetchBoard_zero zero_game_def createGameBoard_def mapi_def boardCells_def gameBoard_def cellDisabled_def
  isGameActive_def handleClick_def flipCell_def cell_at_eq revealCellAt_def revealAllCells_def

text \<open>Claim C13. The page carries a bankroll into a round when the modal's timeout fires during a
  load: a safe cell, Cash Out and Confirm, then a mine while the modal celebrates, RESTART and
  START; the pending timeout calls \<open>confirmCashOut\<close> on the loading session (crediting the
  bet of a round never played), and the answer then starts a round holding 100 instead of
  \<open>STARTING_BALANCE - DEFAULT_BET\<close>, which the atomic page guarantees.\<close>

theorem apage_timeout_during_load:
  "\<exists>p. apage_run (to_apage (initialUi (sconst 0)))
      [Click ClickStart, ProviderAnswer, Click (ClickCell \<lparr>row = 0, col = 1\<rparr>), Click ClickCashOut,
       Click ClickConfirm, Click (ClickCell \<lparr>row = 0, col = 0\<rparr>), Click ClickRestart, Click ClickStart,
       Click ConfirmTimeout, ProviderAnswer] = Some (Inr p) \<and>
     gameStatus (gameState (ahook (hk p))) = PLAYING \<and> sessionBalance (gameState (ahook (hk p))) = 100 \<and>
     sessionBalance (gameState (ahook (hk p))) \<noteq> STARTING_BALANCE - DEFAULT_BET \<and>
     totalCashedOut (sessionStats (ahook (hk p))) = 25"
  by (simp add: page_trace_defs)

end
