(* ===== verification/Spec2Isabelle.thy ===== *)
theory Spec2Isabelle
  imports App Animation Async Board_Keys App_Async
begin

text \<open>
  \<^bold>\<open>LuckyNMiner: a verification development of the game, its session engine and its page.\<close>

  \<^emph>\<open>The program.\<close> LuckyNMiner is a React single-page game. Its parts, leaves first:
  \<^item> the \<^emph>\<open>board provider\<close>, \<open>src/src/api/gameApi.ts\<close>: \<open>fetchBoard\<close> waits for a
    simulated latency, then \<open>generateRandomBoard\<close> draws a mine count and distinct mine
    positions (\<open>generateRandomPositions\<close>, a loop over \<open>Math.random()\<close> that only stops
    once enough distinct positions have been drawn) and \<open>generateRandomWinAmount\<close> draws the
    per-cell reward;
  \<^item> the \<^emph>\<open>session engine\<close>, the hook \<open>useGame\<close> (\<open>src/src/hooks/useGame.ts\<close>): it owns a
    \<open>GameState\<close>, the \<open>SessionStats\<close> and the cash-out modal flag, and exposes
    \<open>setBetAmount\<close>, \<open>initializeGame\<close> (a synchronous update, the awaited provider call,
    then a success or failure update), \<open>flipCell\<close>, \<open>initiateCashOut\<close>,
    \<open>confirmCashOut\<close>, \<open>cancelCashOut\<close>, \<open>startNewRound\<close> and \<open>resetGame\<close>;
  \<^item> the \<^emph>\<open>views\<close> under \<open>src/src/components\<close>: the footer's progress and next-prize
    label, the start and restart controls, the header's cash-out button, the board and its
    cells, the cash-out modal with its own stage and timer, and the animated numbers;
  \<^item> the \<^emph>\<open>page\<close>, \<open>src/src/App.tsx\<close>, which hands the hook's state to the views and wires
    each button to a hook callback.

  \<^emph>\<open>Library layout.\<close>
  \<^item> \<open>Prelude\<close>: the JavaScript idioms the parts share (\<open>Math.floor(Math.random() * k)\<close> as
    \<open>floor_draw\<close> on a stream of draws, \<open>xs[i]\<close> that may be \<open>undefined\<close> as \<open>js_index\<close>,
    \<open>Array.map\<close> with an index as \<open>mapi\<close>, an insertion-ordered \<open>Set\<close> as \<open>set_add\<close>),
    rectangular grids, their row-major flattening and cell counts, and numbers as JavaScript
    prints them (\<open>nat_str\<close>, \<open>int_str\<close>, \<open>js_round\<close> for \<open>Math.round\<close>, \<open>toFixed\<close>), with
    the lemma that \<open>toFixed\<close> prints a whole number of cents exactly, and numbers as
    JavaScript computes them: \<open>dbl\<close> rounds an exact result to the nearest IEEE binary64
    double (ties to even, subnormals included, computed with \<open>bitlen\<close> and \<open>powi\<close>), with
    the lemmas that it is monotone and fixes every value of at most 53 significant bits.
  \<^item> \<open>Game_Types\<close>: the constants of \<open>src/src/utils/constants.ts\<close> and the types of
    \<open>src/src/types/game.ts\<close> as records and datatypes.
  \<^item> \<open>Game_Api\<close>: the provider. \<open>positions_loop\<close> is the \<open>while\<close> loop as a
    \<^theory_text>\<open>partial_function (option)\<close>: \<open>None\<close> is a run that never returns. Lemmas:
    partial correctness, termination once the draws hold enough distinct positions,
    divergence when they never do, the mine count of every grid, the reward's range, and the
    contract \<open>provider_ok\<close> between the provider and the session.
  \<^item> \<open>Use_Game\<close>: each callback of the hook as a function on one record \<open>hookState\<close>
    (\<open>gameState\<close>, \<open>showCashOutModal\<close>, \<open>sessionStats\<close>); \<open>initializeGame\<close> is split into its
    three updates; \<open>flipCell\<close> returns \<open>js_error + hookState\<close>, the \<open>TypeError\<close> it throws
    for a position outside the board being \<open>Inl\<close>. Lemmas give every branch of every callback.
  \<^item> \<open>Session\<close>: the hook driven one callback at a time as a deterministic machine
    \<open>session_step\<close> over \<open>session_op\<close>, with \<open>initializeGame\<close> composed with \<open>fetchBoard\<close> on the
    session's random source; \<open>reachable\<close> is the inductive set of its runs. The invariant
    \<open>hook_inv\<close> (bet within limits, bankroll not negative, coins equal winnings, winnings the
    reward times the safe cells found and bounded by the reward times the safe cells, a board
    the provider allows, \<open>WON\<close> never set) is proved per callback and lifted by rule induction.
  \<^item> \<open>Views\<close>: each component as a function of the state it is handed
    (\<open>gameProgress\<close>, \<open>nextPrizeInfo\<close>, \<open>tierAchievements\<close>, \<open>gameControls\<close>,
    \<open>cashOutButton\<close>, \<open>handleClick\<close>, \<open>boardCells\<close>, ...), labels and emoji as datatype
    constructors; the header (\<open>gameHeader\<close>), each cell (\<open>gameCell\<close>), the controls with
    their texts (\<open>gameControlsComponent\<close>) and the footer with its tier texts
    (\<open>gameFooterComponent\<close>) as what they render, shown to agree with the projections
    \<open>App\<close> uses. The footer's dollars (\<open>currentDollars\<close>) and its wins-needed quotient
    (\<open>coinsNeeded\<close>) are doubles, rounded by \<open>dbl\<close> at each division and subtraction.
    Lemmas: the footer's comparison of rounded dollars with a tier is the exact comparison of
    coins; its rounded wins-needed quotient gives the least number of rewards that reaches a
    tier or one more, never fewer (a relative-error analysis of the four roundings, with the
    input at which the one more occurs); its counts agree with the session, no tier is ever reached and the wins-needed
    count is always the safe cells left, and the header's BALANCE prints the round's coins,
    never the bankroll.
  \<^item> \<open>App\<close>: the page as a machine over click events \<open>ui_step\<close>: a click reaches the callback
    \<open>App\<close> wires to a rendered, enabled button, the modal's stage and pending timeouts are
    part of the state, and a timeout is an event of its own. The modal's effect that resets
    its stage when it opens is applied with the update that opens it. Lemmas: every page step
    is a session step or leaves the session unchanged, so the session invariant holds on every
    page the clicks reach; no click throws; the page's own invariant \<open>ui_inv\<close>, and that the modal announces the
    coins in dollars (\<open>dollarAmount\<close>) while confirming credits the bet plus the coins.
  \<^item> \<open>Animation\<close>: \<open>AnimatedNumber\<close>: one frame of \<open>animate\<close> as a function of the elapsed
    time, and the component's effect over an explicit queue of \<open>requestAnimationFrame\<close>
    callbacks (\<open>anim\<close>, \<open>run_effect\<close>, \<open>cleanup\<close>, \<open>commit\<close>); \<open>frame\<close> is a browser frame
    running the queued callbacks and one batched render, \<open>setValue\<close> a new \<open>value\<close> prop.
    Lemmas: each frame shows a value between start and target and one frame ends the chain
    once the duration has elapsed; with the effect re-run on every displayed value, each
    frame queues one more chain.
  \<^item> \<open>Async\<close>: \<open>initializeGame\<close> split at its \<open>await\<close> and \<open>startNewRound\<close> at its
    \<open>setTimeout\<close>: the state \<open>async\<close> counts the requests in flight and the pending timers,
    the events are callbacks, provider answers, rejections and timers (\<open>async_step\<close>).
    Lemmas: a loading state ignores reveals and cash-out requests, and three findings as
    concrete traces (repeated starts drive the bankroll below 0; an answer after a reset is
    applied; a cash-out confirmed during a load pays a bet never staked).
  \<^item> \<open>App_Async\<close>: the page of \<open>App\<close> over the asynchronous hook: the events are the
    clicks and the provider's answers and timers (\<open>apage_step\<close>), the page renders from the
    hook's state (\<open>page_ui\<close>). Lemmas: no event throws, and a trace in which the modal's
    timeout fires during a load and the next round starts holding 100.
  \<^item> \<open>Board_Keys\<close>: the cell id \<open>cell-${rowIndex}-${colIndex}\<close> as a string
    (\<open>nat_str\<close> renders a number in decimal, without the separator \<open>-\<close>, so distinct ids
    give distinct strings), and the well-formedness of every reachable board, whose React keys are therefore distinct;
    the cells' accessible labels are distinct on every board; \<open>gameBoardComponent\<close> renders the
    grid of cells under these keys.
  \<^item> this theory: concrete inputs, two of the spec's scenarios, the page scenario of a refunded loss,
    and a witness for every theorem with a hypothesis.

  \<^emph>\<open>Randomness and fuel.\<close> \<open>Math.random()\<close> is an infinite stream of draws in \<open>[0, 1)\<close>
  threaded through the calls; no fuel is used: the positions loop is a partial function whose
  termination is proved for draws that contain enough distinct positions, and whose divergence
  is proved for a stuck source. The concrete draws \<open>demo_draws\<close> give the board
  \<open>demo_game\<close> (mines at 0, 2 and 8, reward 12) after six draws.

  \<^emph>\<open>Not modelled.\<close> Timing of the session and the page (\<open>API_DELAY_MS\<close>, the modal's
  2-second delay): their events are ordered but not timed; only \<open>AnimatedNumber\<close> reads a
  clock, in whole milliseconds. The asynchronous interleaving is modelled for the hook
  (\<open>Async\<close>) and the page (\<open>App_Async\<close>); the invariants of \<open>App\<close> are proved for the
  atomic page, in which each answer comes before the next click. The render of a reopened
  modal that still shows its previous stage (\<open>complete\<close>, with Play Again) before its effect
  resets it: the model applies the effect with the opening update. React's double
  invocation of updaters in strict mode. CSS (no stylesheet is part of the sources) and the
  exponent notation JavaScript prints for numbers of \<open>10^21\<close> and more. Real arithmetic stands
  for JavaScript's floating point in \<open>AnimatedNumber\<close>; the footer's divisions are rounded
  to doubles; the money values themselves are integers, on which JavaScript's \<open>+\<close> and
  \<open>-\<close> are exact. Overflow to \<open>Infinity\<close>. The end-to-end tests under
  \<open>src/tests\<close> are read for intent, not modelled.
\<close>

section \<open>Concrete inputs\<close>

text \<open>A board and a draw stream for which the provider's run is known, the round the hook
  starts from them, and a bankroll too small for the bet. They are the inputs at which the
  witnesses below apply the component theorems.\<close>

definition demo_draws :: draws where
  "demo_draws = [1 / 2, 1 / 10, 3 / 10, 1 / 10, 9 / 10, 3 / 10] @- sconst 0"

definition demo_game :: game where
  "demo_game = \<lparr>game_board = [[False, True, False], [True, True, True], [True, True, False]],
                game_amountPerWin = 12\<rparr>"

definition demo_round :: hookState where
  "demo_round = initializeGame_success demo_game (initializeGame_begin initialHook)"

definition broke_hook :: hookState where
  "broke_hook = initialHook\<lparr>gameState := initialGameState\<lparr>sessionBalance := 5\<rparr>\<rparr>"

definition demo_won :: hookState where
  "demo_won = demo_round\<lparr>gameState := (gameState demo_round)\<lparr>
     board := revealCellAt \<lparr>row = 0, col = 1\<rparr> (board (gameState demo_round)),
     currentCoins := currentCoins (gameState demo_round) + amountPerWin (gameState demo_round),
     roundWinnings := roundWinnings (gameState demo_round) + amountPerWin (gameState demo_round)\<rparr>,
   sessionStats := (sessionStats demo_round)\<lparr>totalWins := totalWins (sessionStats demo_round) + 1\<rparr>\<rparr>"

definition demo_ui :: ui where
  "demo_ui = \<lparr>ses = \<lparr>hook = demo_round, rng = sconst 0\<rparr>, stage = Confirm, timers = 0\<rparr>"

definition demo_open :: hookState where
  "demo_open = demo_won\<lparr>showCashOutModal := True\<rparr>"

definition demo_lost :: hookState where
  "demo_lost = demo_open\<lparr>gameState := (gameState demo_open)\<lparr>
     board := revealAllCells (revealCellAt \<lparr>row = 0, col = 0\<rparr> (board (gameState demo_open))),
     gameStatus := LOST, currentCoins := 0, roundWinnings := 0\<rparr>,
   sessionStats := (sessionStats demo_open)\<lparr>gamesPlayed := gamesPlayed (sessionStats demo_open) + 1,
     currentStreak := 0\<rparr>\<rparr>"

lemmas demo_defs = demo_game_def demo_round_def initializeGame_success_def initializeGame_begin_def
  initialHook_def initialGameState_def createGameBoard_def mapi_Cons game_config Let_def

lemma demo_round_state:
  "gameState demo_round =
     \<lparr>board = createGameBoard (game_board demo_game), currentCoins = 0, gameStatus = PLAYING,
      amountPerWin = 12, isLoading = False, sessionBalance = 75, currentBet = 25, roundWinnings = 0\<rparr>"
  by (simp add: demo_defs)

lemma demo_board:
  "createGameBoard (game_board demo_game) =
     [[\<lparr>isWinning = False, isRevealed = False, cellId = CellId 0 0\<rparr>,
       \<lparr>isWinning = True, isRevealed = False, cellId = CellId 0 1\<rparr>,
       \<lparr>isWinning = False, isRevealed = False, cellId = CellId 0 2\<rparr>],
      [\<lparr>isWinning = True, isRevealed = False, cellId = CellId 1 0\<rparr>,
       \<lparr>isWinning = True, isRevealed = False, cellId = CellId 1 1\<rparr>,
       \<lparr>isWinning = True, isRevealed = False, cellId = CellId 1 2\<rparr>],
      [\<lparr>isWinning = True, isRevealed = False, cellId = CellId 2 0\<rparr>,
       \<lparr>isWinning = True, isRevealed = False, cellId = CellId 2 1\<rparr>,
       \<lparr>isWinning = False, isRevealed = False, cellId = CellId 2 2\<rparr>]]"
  by (simp add: demo_defs numeral_2_eq_2)

lemma demo_positions:
  "positions_loop 9 3 [] (1 / 10 ## 3 / 10 ## 1 / 10 ## 9 / 10 ## 3 / 10 ## sconst 0) =
     Some ([0, 2, 8], 3 / 10 ## sconst 0)"
  by (simp add: positions_loop_step positions_loop_stop set_add_def)

lemma demo_generate:
  "generateRandomBoard demo_draws = Some (game_board demo_game, 3 / 10 ## sconst 0)"
proof -
  have "generateRandomBoard demo_draws = Some (fold place_mine [0, 2, 8] board0, 3 / 10 ## sconst 0)"
    by (simp add: generateRandomBoard_eq demo_draws_def demo_positions mine_count_of_def MIN_MINES_def)
  moreover have "fold place_mine [0, 2, 8] board0 = game_board demo_game"
    by (simp add: place_mine_def board0_eq demo_game_def BOARD_SIZE_def)
  ultimately show ?thesis by simp
qed

lemma demo_fetch: "fetchBoard demo_draws = Some (demo_game, sconst 0)"
  by (simp add: fetchBoard_def demo_generate generateRandomWinAmount_def floor_draw_def demo_game_def
      BASE_AMOUNT_PER_WIN_def)

lemma demo_draws_valid: "valid_draws demo_draws"
  by (simp add: demo_draws_def random_draw_def)

lemma demo_init:
  "initializeGame (initialSession demo_draws) = Some \<lparr>hook = demo_round, rng = sconst 0\<rparr>"
  by (simp add: initializeGame_def demo_fetch initialSession_def demo_round_def)

lemma demo_cell_0_1:
  "cell_at (board (gameState demo_round)) \<lparr>row = 0, col = 1\<rparr> =
     Some \<lparr>isWinning = True, isRevealed = False, cellId = CellId 0 1\<rparr>"
  by (simp add: demo_round_state demo_board cell_at_eq)

lemma demo_flip: "flipCell \<lparr>row = 0, col = 1\<rparr> demo_round = Inr demo_won"
  unfolding demo_won_def by (rule flipCell_safe_eq [OF _ demo_cell_0_1]) (simp_all add: demo_round_state)

lemma demo_won_state:
  "gameStatus (gameState demo_won) = PLAYING \<and> sessionBalance (gameState demo_won) = 75 \<and>
   roundWinnings (gameState demo_won) = 12 \<and> currentBet (gameState demo_won) = 25 \<and>
   currentCoins (gameState demo_won) = 12 \<and> \<not> isLoading (gameState demo_won)"
  by (simp add: demo_won_def demo_round_state)

lemma demo_cell_0_0:
  "cell_at (board (gameState demo_round)) \<lparr>row = 0, col = 0\<rparr> =
     Some \<lparr>isWinning = False, isRevealed = False, cellId = CellId 0 0\<rparr>"
  by (simp add: demo_round_state demo_board cell_at_eq)

lemma demo_round_reachable: "reachable \<lparr>hook = demo_round, rng = sconst 0\<rparr>"
  using reachable.step [OF reachable.init [OF demo_draws_valid], of StartRound] by (simp add: demo_init)

lemma demo_won_reachable: "reachable \<lparr>hook = demo_won, rng = sconst 0\<rparr>"
  using reachable.step [OF demo_round_reachable, of "Flip \<lparr>row = 0, col = 1\<rparr>"] by (simp add: demo_flip)

lemma demo_ui_start: "ui_step (initialUi demo_draws) ClickStart = Some (Inr demo_ui)"
  by (simp add: ui_step_def ui_enabled_def initialUi_def initialSession_def initialHook_def initialGameState_def
      gameControls_def showStartButton_def showResetButton_def ui_session_def modal_effect_def demo_ui_def
      demo_init [unfolded initialSession_def initialHook_def initialGameState_def])

lemma demo_modal_closed: "\<not> showCashOutModal demo_round" "\<not> showCashOutModal demo_won"
  by (simp_all add: demo_won_def demo_defs initialHook_def Let_def)

lemma demo_ui_flip:
  "ui_step demo_ui (ClickCell \<lparr>row = 0, col = 1\<rparr>) = Some (Inr (demo_ui\<lparr>ses := \<lparr>hook = demo_won, rng = sconst 0\<rparr>\<rparr>))"
  by (simp add: ui_step_def ui_enabled_def Let_def demo_ui_def demo_round_state demo_board gameBoard_def
      boardCells_def mapi_def cellDisabled_def isGameActive_def handleClick_def ui_session_def demo_flip
      modal_effect_def demo_modal_closed)

lemma demo_ui_cashout:
  "ui_step (demo_ui\<lparr>ses := \<lparr>hook = demo_won, rng = sconst 0\<rparr>\<rparr>) ClickCashOut =
     Some (Inr (demo_ui\<lparr>ses := \<lparr>hook = demo_open, rng = sconst 0\<rparr>\<rparr>))"
  using demo_won_state demo_modal_closed
  by (simp add: ui_step_def ui_enabled_def Let_def demo_ui_def cashOutButton_def header_canCashOut_def
      ui_session_def initiateCashOut_def canCashOut_def modal_effect_def demo_open_def)

lemma demo_ui_confirm:
  "ui_step (demo_ui\<lparr>ses := \<lparr>hook = demo_open, rng = sconst 0\<rparr>\<rparr>) ClickConfirm =
     Some (Inr (demo_ui\<lparr>ses := \<lparr>hook = demo_open, rng = sconst 0\<rparr>, stage := Celebrating, timers := Suc 0\<rparr>))"
  by (simp add: ui_step_def ui_enabled_def Let_def demo_ui_def cashOutModal_def demo_open_def)

lemma demo_won_cell_0_0:
  "cell_at (board (gameState demo_open)) \<lparr>row = 0, col = 0\<rparr> =
     Some \<lparr>isWinning = False, isRevealed = False, cellId = CellId 0 0\<rparr>"
  using demo_cell_0_0 by (simp add: demo_open_def demo_won_def cell_at_revealCellAt cellPosition_eq_iff)

lemma demo_flip_mine: "flipCell \<lparr>row = 0, col = 0\<rparr> demo_open = Inr demo_lost"
  unfolding demo_lost_def
  by (rule flipCell_mine_eq [OF _ demo_won_cell_0_0]) (simp_all add: demo_open_def demo_won_state)

lemma demo_ui_mine:
  "ui_step (demo_ui\<lparr>ses := \<lparr>hook = demo_open, rng = sconst 0\<rparr>, stage := Celebrating, timers := Suc 0\<rparr>)
     (ClickCell \<lparr>row = 0, col = 0\<rparr>) =
   Some (Inr (demo_ui\<lparr>ses := \<lparr>hook = demo_lost, rng = sconst 0\<rparr>, stage := Celebrating, timers := Suc 0\<rparr>))"
proof -
  have b: "board (gameState demo_open) = revealCellAt \<lparr>row = 0, col = 1\<rparr> (createGameBoard (game_board demo_game))"
    by (simp add: demo_open_def demo_won_def demo_round_state)
  have st: "gameStatus (gameState demo_open) = PLAYING" by (simp add: demo_open_def demo_won_state)
  have m: "showCashOutModal demo_lost" "showCashOutModal demo_open" by (simp_all add: demo_lost_def demo_open_def)
  show ?thesis using st m
    by (simp add: ui_step_def ui_enabled_def Let_def demo_ui_def b demo_board revealCellAt_def gameBoard_def
        boardCells_def mapi_def cellDisabled_def isGameActive_def handleClick_def ui_session_def demo_flip_mine
        modal_effect_def)
qed

lemma demo_lost_state:
  "gameStatus (gameState demo_lost) = LOST \<and> sessionBalance (gameState demo_lost) = 75 \<and>
   roundWinnings (gameState demo_lost) = 0 \<and> currentBet (gameState demo_lost) = 25 \<and>
   showCashOutModal demo_lost"
  by (simp add: demo_lost_def demo_open_def demo_won_state)

lemma demo_ui_timeout:
  "ui_step (demo_ui\<lparr>ses := \<lparr>hook = demo_lost, rng = sconst 0\<rparr>, stage := Celebrating, timers := Suc 0\<rparr>)
     ConfirmTimeout =
   Some (Inr (demo_ui\<lparr>ses := \<lparr>hook = confirmCashOut demo_lost, rng = sconst 0\<rparr>, stage := Complete, timers := 0\<rparr>))"
  using demo_lost_state by (simp add: ui_step_def ui_enabled_def ui_session_def modal_effect_def Let_def)

lemma demo_ui_reachable: "ui_reachable demo_ui"
  using ui_reachable.step [OF ui_reachable.init [OF demo_draws_valid] demo_ui_start] .

section \<open>The spec's scenarios\<close>

text \<open>Scenario of a lost round (spec, section 8): after the round start (bankroll 75),
  revealing the mine at row 0, column 0 ends the round \<open>LOST\<close> with no winnings, the bankroll
  still 75 and the whole board revealed.\<close>

theorem scenario_mine:
  "\<exists>s. session_run (initialSession demo_draws) [StartRound, Flip \<lparr>row = 0, col = 0\<rparr>] = Some (Inr s) \<and>
     gameStatus (gameState (hook s)) = LOST \<and> roundWinnings (gameState (hook s)) = 0 \<and>
     sessionBalance (gameState (hook s)) = 75 \<and> all_revealed (board (gameState (hook s)))"
  by (simp add: demo_init flipCell_mine_eq [OF _ demo_cell_0_0] demo_round_state
      all_revealed_revealAllCells)

text \<open>Scenario of a broke session (spec, section 8): with bankroll 5 below the bet 25,
  starting a round restores the bankroll to 100, then awaits the provider and starts the round,
  ending with bankroll 75 and status \<open>PLAYING\<close>, where the spec ends idle with bankroll 100.\<close>

theorem scenario_broke:
  "\<exists>s. session_run \<lparr>hook = broke_hook, rng = demo_draws\<rparr> [StartRound] = Some (Inr s) \<and>
     gameStatus (gameState (hook s)) = PLAYING \<and> sessionBalance (gameState (hook s)) = 75 \<and>
     currentBet (gameState (hook s)) = 25"
  by (simp add: initializeGame_def demo_fetch initializeGame_state Let_def broke_hook_def
      initialHook_def initialGameState_def game_config)

text \<open>Claim C7. A mine revealed during the cash-out celebration is refunded: the board stays
  clickable while the modal celebrates, so after a safe cell, Cash Out and the modal's Cash Out
  button, revealing a mine ends the round \<open>LOST\<close> with bankroll 75 and no winnings; the
  pending timeout then still calls \<open>confirmCashOut\<close>, which returns the forfeited bet
  (bankroll 100) and marks the lost round \<open>CASHED_OUT\<close>.\<close>

theorem ui_mine_during_celebration_refunds:
  "\<exists>u1 u2.
     ui_run (initialUi demo_draws) [ClickStart, ClickCell \<lparr>row = 0, col = 1\<rparr>, ClickCashOut, ClickConfirm,
       ClickCell \<lparr>row = 0, col = 0\<rparr>] = Some (Inr u1) \<and>
     gameStatus (gameState (hook (ses u1))) = LOST \<and> sessionBalance (gameState (hook (ses u1))) = 75 \<and>
     roundWinnings (gameState (hook (ses u1))) = 0 \<and>
     ui_run (initialUi demo_draws) [ClickStart, ClickCell \<lparr>row = 0, col = 1\<rparr>, ClickCashOut, ClickConfirm,
       ClickCell \<lparr>row = 0, col = 0\<rparr>, ConfirmTimeout] = Some (Inr u2) \<and>
     gameStatus (gameState (hook (ses u2))) = CASHED_OUT \<and> sessionBalance (gameState (hook (ses u2))) = 100"
  using demo_lost_state
  by (simp add: demo_ui_start demo_ui_flip demo_ui_cashout demo_ui_confirm demo_ui_mine demo_ui_timeout
      confirmCashOut_def Let_def)


section \<open>Witnesses\<close>

theorem setBetAmount_within_bankroll_witness:
  "MIN_BET \<le> sessionBalance (gameState initialHook) \<and>
   currentBet (gameState (setBetAmount 500 initialHook)) \<le> sessionBalance (gameState initialHook)"
  using Use_Game.setBetAmount_within_bankroll [of initialHook 500]
  by (simp add: initialHook_def initialGameState_def game_config)

theorem setBetAmount_exceeds_bankroll_witness:
  "sessionBalance (gameState broke_hook) < MIN_BET \<and>
   currentBet (gameState (setBetAmount 25 broke_hook)) = MIN_BET \<and>
   sessionBalance (gameState broke_hook) < currentBet (gameState (setBetAmount 25 broke_hook))"
  using Use_Game.setBetAmount_exceeds_bankroll [of broke_hook 25]
  by (simp add: broke_hook_def initialHook_def initialGameState_def game_config)

theorem flipCell_outside_board_witness:
  "gameStatus (gameState demo_round) = PLAYING \<and> is_grid BOARD_SIZE (board (gameState demo_round)) \<and>
   (row \<lparr>row = 3, col = 0\<rparr> < 0 \<or> int BOARD_SIZE \<le> row \<lparr>row = 3, col = 0\<rparr> \<or>
    col \<lparr>row = 3, col = 0\<rparr> < 0 \<or> int BOARD_SIZE \<le> col \<lparr>row = 3, col = 0\<rparr>) \<and>
   flipCell \<lparr>row = 3, col = 0\<rparr> demo_round = Inl TypeError"
proof -
  have pre: "gameStatus (gameState demo_round) = PLAYING"
    "is_grid BOARD_SIZE (board (gameState demo_round))"
    "row \<lparr>row = 3, col = 0\<rparr> < 0 \<or> int BOARD_SIZE \<le> row \<lparr>row = 3, col = 0\<rparr> \<or>
     col \<lparr>row = 3, col = 0\<rparr> < 0 \<or> int BOARD_SIZE \<le> col \<lparr>row = 3, col = 0\<rparr>"
    by (simp_all add: demo_round_state demo_board is_grid_def BOARD_SIZE_def)
  from pre Use_Game.flipCell_outside_board [OF pre] show ?thesis by simp
qed

theorem flipCell_safe_witness:
  "gameStatus (gameState demo_round) = PLAYING \<and>
   cell_at (board (gameState demo_round)) \<lparr>row = 0, col = 1\<rparr> =
     Some \<lparr>isWinning = True, isRevealed = False, cellId = CellId 0 1\<rparr> \<and>
   (\<exists>hs'. flipCell \<lparr>row = 0, col = 1\<rparr> demo_round = Inr hs' \<and>
     roundWinnings (gameState hs') = 12 \<and> sessionBalance (gameState hs') = 75 \<and>
     gameStatus (gameState hs') = PLAYING)"
proof -
  have pre: "gameStatus (gameState demo_round) = PLAYING"
    "cell_at (board (gameState demo_round)) \<lparr>row = 0, col = 1\<rparr> =
       Some \<lparr>isWinning = True, isRevealed = False, cellId = CellId 0 1\<rparr>"
    by (simp_all add: demo_round_state demo_board cell_at_eq)
  from Use_Game.flipCell_safe [OF pre] pre show ?thesis
    by (auto simp: demo_round_state)
qed

theorem flipCell_mine_witness:
  "gameStatus (gameState demo_round) = PLAYING \<and>
   cell_at (board (gameState demo_round)) \<lparr>row = 0, col = 0\<rparr> =
     Some \<lparr>isWinning = False, isRevealed = False, cellId = CellId 0 0\<rparr> \<and>
   (\<exists>hs'. flipCell \<lparr>row = 0, col = 0\<rparr> demo_round = Inr hs' \<and>
     gameStatus (gameState hs') = LOST \<and> roundWinnings (gameState hs') = 0 \<and>
     all_revealed (board (gameState hs')) \<and> sessionBalance (gameState hs') = 75)"
proof -
  have pre: "gameStatus (gameState demo_round) = PLAYING"
    "cell_at (board (gameState demo_round)) \<lparr>row = 0, col = 0\<rparr> =
       Some \<lparr>isWinning = False, isRevealed = False, cellId = CellId 0 0\<rparr>"
    by (simp_all add: demo_round_state demo_board cell_at_eq)
  from Use_Game.flipCell_mine [OF pre] pre show ?thesis
    by (auto simp: demo_round_state)
qed

theorem flipCell_revealed_idem_witness:
  "cell_at (board (gameState (confirmCashOut demo_round))) \<lparr>row = 1, col = 1\<rparr> =
     Some \<lparr>isWinning = True, isRevealed = True, cellId = CellId 1 1\<rparr> \<and>
   flipCell \<lparr>row = 1, col = 1\<rparr> (confirmCashOut demo_round) = Inr (confirmCashOut demo_round)"
proof -
  have pre: "cell_at (board (gameState (confirmCashOut demo_round))) \<lparr>row = 1, col = 1\<rparr> =
     Some \<lparr>isWinning = True, isRevealed = True, cellId = CellId 1 1\<rparr>"
    by (simp add: confirmCashOut_def Let_def demo_round_state demo_board revealAllCells_def cell_at_eq)
  from pre Use_Game.flipCell_revealed_idem [OF pre] show ?thesis by simp
qed

theorem initializeGame_begin_broke_witness:
  "sessionBalance (gameState broke_hook) < currentBet (gameState broke_hook) \<and>
   sessionBalance (gameState (initializeGame_begin broke_hook)) = 100 \<and>
   currentBet (gameState (initializeGame_begin broke_hook)) = 25 \<and>
   gameStatus (gameState (initializeGame_begin broke_hook)) = IDLE"
proof -
  have pre: "sessionBalance (gameState broke_hook) < currentBet (gameState broke_hook)"
    by (simp add: broke_hook_def initialHook_def initialGameState_def game_config)
  from pre Use_Game.initializeGame_begin_broke [OF pre] show ?thesis
    by (simp add: broke_hook_def initialHook_def initialGameState_def game_config)
qed

theorem generateRandomBoard_ok_witness:
  "generateRandomBoard demo_draws = Some (game_board demo_game, 3 / 10 ## sconst 0) \<and>
   valid_draws demo_draws \<and> grid_mines (game_board demo_game) = 3"
  using Game_Api.generateRandomBoard_ok [OF demo_generate demo_draws_valid] demo_generate demo_draws_valid
  by (simp add: demo_draws_def mine_count_of_def MIN_MINES_def)

theorem fetchBoard_ok_witness:
  "fetchBoard demo_draws = Some (demo_game, sconst 0) \<and> valid_draws demo_draws \<and>
   provider_ok demo_game"
  using Game_Api.fetchBoard_ok [OF demo_fetch demo_draws_valid] demo_fetch demo_draws_valid by simp

theorem fetchBoard_returns_witness:
  "mine_count_of (nat \<lfloor>(1 / 2 :: real) * 4\<rfloor>) \<le> card (set (draw_positions 9 [1 / 10, 3 / 10, 9 / 10])) \<and>
   (\<exists>g rs'. fetchBoard ((1 / 2) ## ([1 / 10, 3 / 10, 9 / 10] @- sconst 0)) = Some (g, rs'))"
proof -
  have pre: "mine_count_of (nat \<lfloor>(1 / 2 :: real) * 4\<rfloor>) \<le> card (set (draw_positions 9 [1 / 10, 3 / 10, 9 / 10]))"
    by (simp add: mine_count_of_def MIN_MINES_def draw_positions_def)
  from pre Game_Api.fetchBoard_returns [OF pre, of "sconst 0"] show ?thesis by simp
qed

theorem reachable_session_inv_witness:
  "reachable (initialSession demo_draws) \<and> session_inv (initialSession demo_draws)"
  using Session.reachable_session_inv [OF reachable.init [OF demo_draws_valid]]
  by (simp add: reachable.init [OF demo_draws_valid])

theorem cashout_pays_found_witness:
  "reachable \<lparr>hook = demo_won, rng = sconst 0\<rparr> \<and> gameStatus (gameState demo_won) = PLAYING \<and>
   (\<exists>s'. session_step \<lparr>hook = demo_won, rng = sconst 0\<rparr> ConfirmCashOut = Some (Inr s') \<and>
      sessionBalance (gameState (hook s')) =
        75 + 25 + 12 * int (found_safe (board (gameState demo_won))))"
proof -
  have p: "gameStatus (gameState (hook \<lparr>hook = demo_won, rng = sconst 0\<rparr>)) = PLAYING"
    using demo_won_state by simp
  show ?thesis using Session.cashout_pays_found [OF demo_won_reachable p] demo_won_reachable p
    by (simp add: demo_won_def demo_round_state)
qed

theorem start_round_when_broke_witness:
  "sessionBalance (gameState broke_hook) < currentBet (gameState broke_hook) \<and>
   fetchBoard demo_draws = Some (demo_game, sconst 0) \<and>
   (\<exists>s'. session_step \<lparr>hook = broke_hook, rng = demo_draws\<rparr> StartRound = Some (Inr s') \<and>
      gameStatus (gameState (hook s')) = PLAYING \<and> sessionBalance (gameState (hook s')) = 75)"
proof -
  have b: "sessionBalance (gameState broke_hook) < currentBet (gameState broke_hook)"
    by (simp add: broke_hook_def initialHook_def initialGameState_def game_config)
  have f: "fetchBoard (rng \<lparr>hook = broke_hook, rng = demo_draws\<rparr>) = Some (demo_game, sconst 0)"
    by (simp add: demo_fetch)
  from b have b': "sessionBalance (gameState (hook \<lparr>hook = broke_hook, rng = demo_draws\<rparr>))
      < currentBet (gameState (hook \<lparr>hook = broke_hook, rng = demo_draws\<rparr>))" by simp
  obtain s' where "session_step \<lparr>hook = broke_hook, rng = demo_draws\<rparr> StartRound = Some (Inr s')"
    "gameStatus (gameState (hook s')) = PLAYING"
    "sessionBalance (gameState (hook s')) = STARTING_BALANCE - DEFAULT_BET"
    using Session.start_round_when_broke [OF b' f] by blast
  with b show ?thesis by (auto simp: demo_fetch game_config)
qed

theorem footer_progress_consistent_witness:
  "reachable \<lparr>hook = demo_won, rng = sconst 0\<rparr> \<and> gameStatus (gameState demo_won) = PLAYING \<and>
   amountPerWin (gameState demo_won) * int (found (gameProgress PLAYING (board (gameState demo_won)))) = 12"
proof -
  have p: "gameStatus (gameState (hook \<lparr>hook = demo_won, rng = sconst 0\<rparr>)) = PLAYING"
    using demo_won_state by simp
  show ?thesis using Views.footer_progress_consistent [OF demo_won_reachable p] demo_won_reachable p demo_won_state
    by (simp add: Let_def)
qed

theorem footer_playing_label_witness:
  "reachable \<lparr>hook = demo_round, rng = sconst 0\<rparr> \<and> gameStatus (gameState demo_round) = PLAYING \<and>
   snd (gameFooter (gameState demo_round)) = NextTier 75 6"
proof -
  have p: "gameStatus (gameState (hook \<lparr>hook = demo_round, rng = sconst 0\<rparr>)) = PLAYING"
    by (simp add: demo_round_state)
  have b: "safe_cells (board (gameState demo_round)) = 6" "found_safe (board (gameState demo_round)) = 0"
    by (simp_all add: demo_round_state demo_board safe_cells_def found_safe_def count_cells_def)
  show ?thesis using Views.footer_playing_label [OF demo_round_reachable p] demo_round_reachable p b
    by simp
qed

theorem reachable_no_tier_achieved_witness:
  "reachable \<lparr>hook = demo_won, rng = sconst 0\<rparr> \<and> fst (gameFooter (gameState demo_won)) = [False, False, False]"
  using Views.reachable_no_tier_achieved [OF demo_won_reachable] demo_won_reachable by simp

theorem coinsNeeded_within_one_witness:
  "coinsNeeded 75 24 12 = 624 \<and> 100 * 75 \<le> 24 + 624 * (12::int) \<and> 24 + 622 * 12 < (100 * 75 :: int) \<and>
   100 * 75 \<le> 24 + 623 * (12::int)"
proof -
  have v: "coinsNeeded 75 24 12 = 624" by code_simp
  show ?thesis using Views.coinsNeeded_within_one [of 24 75 12] v by simp
qed

theorem nextTier_first_unlit_witness:
  "nextTier 8000 = Some (COIN_TIERS ! 1) \<and> tierAchievements 8000 ! 0 \<and> \<not> tierAchievements 8000 ! 1"
proof -
  have t: "tierAchievements 8000 ! 0" "\<not> tierAchievements 8000 ! 1"
    by (simp_all add: tierAchievements_def COIN_TIERS_def)
  have "nextTier 8000 = Some (COIN_TIERS ! 1)"
    using Views.nextTier_first_unlit [of 8000] t by (simp add: COIN_TIERS_def less_Suc_eq)
  with t show ?thesis by simp
qed

theorem header_cashout_agrees_witness:
  "reachable \<lparr>hook = demo_won, rng = sconst 0\<rparr> \<and>
   cashOutButton (gameStatus (gameState demo_won)) (currentCoins (gameState demo_won))
     (isLoading (gameState demo_won)) = Some True"
proof -
  have "canCashOut (gameState demo_won)" using demo_won_state by (simp add: canCashOut_def)
  then show ?thesis using Views.header_cashout_agrees [OF demo_won_reachable] demo_won_reachable by simp
qed

theorem animate_frame_between_witness:
  "animate_frame 0 100 1200 600 = (1500 / 16, True) \<and> 0 \<le> fst (animate_frame 0 100 1200 600) \<and>
   fst (animate_frame 0 100 1200 600) \<le> 100"
proof -
  have f: "animate_frame 0 100 1200 600 = (1500 / 16, True)"
    by (simp add: animate_frame_def easeOutQuart_def Let_def power_divide)
  show ?thesis using Animation.animate_frame_between [of 1200 600 0 100] f by simp
qed

theorem animate_frame_settles_witness:
  "animate_frame 0 100 1200 1200 = (100, False) \<and> \<not> snd (animate_frame 0 100 1200 1300)"
  using Animation.animate_frame_settles [of 1200 1200 1300 0 100]
    Animation.animate_frame_settles [of 1200 0 1200 0 100]
  by (simp add: animate_frame_def easeOutQuart_def Let_def)


theorem async_loading_noops_witness:
  "async_reachable (request (to_async (initialSession demo_draws))) \<and>
   isLoading (gameState (ahook (request (to_async (initialSession demo_draws))))) \<and>
   0 < inflight (request (to_async (initialSession demo_draws))) \<and>
   flipCell \<lparr>row = 0, col = 0\<rparr> (ahook (request (to_async (initialSession demo_draws)))) =
     Inr (ahook (request (to_async (initialSession demo_draws))))"
proof -
  have r: "async_reachable (request (to_async (initialSession demo_draws)))"
    using async_reachable.step [OF async_reachable.init [OF demo_draws_valid], of "Call StartRound"]
    by simp
  have l: "isLoading (gameState (ahook (request (to_async (initialSession demo_draws)))))"
    by (simp add: request_def initializeGame_begin_def Let_def to_async_def initialSession_def
      initialHook_def initialGameState_def game_config)
  show ?thesis using Async.async_loading_noops [OF r l, of "\<lparr>row = 0, col = 0\<rparr>"] r l by simp
qed

theorem reachable_board_keys_witness:
  "reachable \<lparr>hook = demo_round, rng = sconst 0\<rparr> \<and> wf_board (board (gameState demo_round)) \<and>
   distinct (board_keys (board (gameState demo_round)))"
  using Board_Keys.reachable_board_keys [OF demo_round_reachable] demo_round_reachable by simp


theorem anim_frames_multiply_witness:
  "0 < (1200::real) \<and> (100::real) \<noteq> 0 \<and> 0 < (16::nat) \<and>
   real (sum_list [16::nat, 16, 16]) < 1200 \<and>
   length (frames (fold frame [16, 16, 16] (setValue 0 100 (mount 0 1200 0)))) = 4"
  using Animation.anim_frames_multiply [of 1200 100 0 "[16, 16, 16]" 0] by simp

theorem header_balance_text_witness:
  "reachable \<lparr>hook = demo_won, rng = sconst 0\<rparr> \<and>
   formattedValue 2 (balanceDollars (gameHeader (currentCoins (gameState demo_won))
     (gameStatus (gameState demo_won)) (isLoading (gameState demo_won)))) = ''0.12''"
proof -
  have "char_of (of_char (CHR ''1'') :: nat) = CHR ''1''" "char_of (of_char (CHR ''2'') :: nat) = CHR ''2''"
    by (rule char_of_char)+
  then have d: "digit_char (Suc 0) = CHR ''1''" "digit_char 2 = CHR ''2''" by (simp_all add: digit_char_def)
  show ?thesis
    using Views.header_balance_text [OF demo_won_reachable] demo_won_reachable
    by (simp add: demo_won_state Let_def nat_str_less10 digit_char_0 d)
qed

theorem modal_amount_not_credited_witness:
  "ui_reachable (demo_ui\<lparr>ses := \<lparr>hook = demo_open, rng = sconst 0\<rparr>\<rparr>) \<and>
   ui_enabled (demo_ui\<lparr>ses := \<lparr>hook = demo_open, rng = sconst 0\<rparr>\<rparr>) ClickConfirm \<and>
   dollarAmount (currentCoins (gameState demo_open)) = ''0.12'' \<and>
   (\<exists>u'. ui_run (demo_ui\<lparr>ses := \<lparr>hook = demo_open, rng = sconst 0\<rparr>\<rparr>) [ClickConfirm, ConfirmTimeout] =
      Some (Inr u') \<and> sessionBalance (gameState (hook (ses u'))) = 112)"
proof -
  let ?u = "demo_ui\<lparr>ses := \<lparr>hook = demo_open, rng = sconst 0\<rparr>\<rparr>"
  have r: "ui_reachable ?u"
    using ui_reachable.step [OF ui_reachable.step [OF demo_ui_reachable demo_ui_flip] demo_ui_cashout] .
  have e: "ui_enabled ?u ClickConfirm"
    by (simp add: ui_enabled_def Let_def demo_ui_def cashOutModal_def demo_open_def)
  have st: "currentCoins (gameState demo_open) = 12" "sessionBalance (gameState demo_open) = 75"
    by (simp_all add: demo_open_def demo_won_state)
  have "char_of (of_char (CHR ''1'') :: nat) = CHR ''1''" "char_of (of_char (CHR ''2'') :: nat) = CHR ''2''"
    by (rule char_of_char)+
  then have d: "digit_char (Suc 0) = CHR ''1''" "digit_char 2 = CHR ''2''" by (simp_all add: digit_char_def)
  show ?thesis
    using App.modal_amount_not_credited [OF r e] r e
    by (simp add: Let_def st nat_str_less10 digit_char_0 d game_config)
qed

end
